(* ===== verification/Prelude.thy ===== *)
theory Prelude
  imports Main "HOL-Library.Word" "HOL-Library.Char_ord" "HOL-Library.List_Lexorder"
    "HOL-Library.Multiset"
begin

text \<open>
  Shared vocabulary of the development: names for Go's integer types, the error values that
  Go functions return, the sequencing of fallible steps, and generic facts on lists and
  words that several components use. Strings are byte lists, ordered bytewise as Go and
  SQLite's default collation order them.
\<close>

subsection \<open>Go's types\<close>

type_synonym u32 = "32 word"
type_synonym u64 = "64 word"
type_synonym i64 = int
type_synonym bytes = string

text \<open>
  A fallible Go call returns a value or an error; an index out of range, an explicit
  \<^verbatim>\<open>panic\<close> and a failed assertion end the call with a panic, which is kept apart from the
  errors the code returns.
\<close>

datatype go_error = Err string | Panic string

type_synonym 'a res = "go_error + 'a"

definition bind_res :: "('e + 'a) \<Rightarrow> ('a \<Rightarrow> 'e + 'b) \<Rightarrow> 'e + 'b" where
  "bind_res r f = (case r of Inl e \<Rightarrow> Inl e | Inr a \<Rightarrow> f a)"

text \<open>A step whose error is mapped before it is returned (\<^verbatim>\<open>fmt.Errorf("...: %w", err)\<close>).\<close>

definition map_err :: "('e \<Rightarrow> 'f) \<Rightarrow> 'e + 'a \<Rightarrow> 'f + 'a" where
  "map_err g r = (case r of Inl e \<Rightarrow> Inl (g e) | Inr a \<Rightarrow> Inr a)"

fun wrap_err :: "string \<Rightarrow> go_error \<Rightarrow> go_error" where
  "wrap_err pre (Err m) = Err (pre @ m)"
| "wrap_err pre (Panic m) = Panic m"

text \<open>A loop over a slice whose body may return early with an error.\<close>

fun traverse :: "('a \<Rightarrow> 'e + 'b) \<Rightarrow> 'a list \<Rightarrow> 'e + 'b list" where
  "traverse f [] = Inr []"
| "traverse f (x # xs) =
     (case f x of Inl e \<Rightarrow> Inl e
      | Inr y \<Rightarrow> (case traverse f xs of Inl e \<Rightarrow> Inl e | Inr ys \<Rightarrow> Inr (y # ys)))"

subsection \<open>Simplification collections\<close>

named_theorems go_simps \<open>evaluation of the Go library model\<close>
named_theorems db_simps \<open>effect of the statements on the tables\<close>

lemma bind_res_simps [simp]:
  "bind_res (Inl e) f = Inl e"
  "bind_res (Inr a) f = f a"
  by (simp_all add: bind_res_def)

lemma bind_res_Inr_iff:
  "bind_res r f = Inr b \<longleftrightarrow> (\<exists>a. r = Inr a \<and> f a = Inr b)"
  by (cases r) auto

lemma map_err_simps [simp]:
  "map_err g (Inl e) = Inl (g e)"
  "map_err g (Inr a) = Inr a"
  by (simp_all add: map_err_def)

lemma map_err_Inr_iff [simp]: "map_err g r = Inr a \<longleftrightarrow> r = Inr a"
  by (cases r) auto

lemma traverse_Inr_iff:
  "traverse f xs = Inr ys \<longleftrightarrow> list_all2 (\<lambda>x y. f x = Inr y) xs ys"
proof (induction xs arbitrary: ys)
  case Nil
  then show ?case by auto
next
  case (Cons x xs)
  show ?case
    by (cases "f x"; cases "traverse f xs"; cases ys) (auto simp: Cons.IH [symmetric])
qed

lemma traverse_length: "traverse f xs = Inr ys \<Longrightarrow> length ys = length xs"
  by (simp add: traverse_Inr_iff list_all2_lengthD)

lemma traverse_total:
  assumes "\<And>x. x \<in> set xs \<Longrightarrow> f x = Inr (g x)"
  shows "traverse f xs = Inr (map g xs)"
  using assms by (induction xs) auto

lemma traverse_Inl_in:
  "traverse f xs = Inl e \<Longrightarrow> \<exists>x \<in> set xs. f x = Inl e"
  by (induction xs) (auto split: sum.splits)

text \<open>A chain of checks, each of which may return an error, passes when every check does.\<close>

lemma check_chain_None [simp]:
  "(case a of None \<Rightarrow> b | Some e \<Rightarrow> Some (f e)) = None \<longleftrightarrow> a = None \<and> b = None"
  "(if c then Some e' else b) = None \<longleftrightarrow> \<not> c \<and> b = None"
  by (auto split: option.splits)

subsection \<open>Lists\<close>

lemma rotate_nth_mod:
  "i < length xs \<Longrightarrow> rotate k xs ! i = xs ! ((k + i) mod length xs)"
  by (simp add: nth_rotate)

lemma update_head_rotate:
  assumes "k < length xs"
  shows "rotate (Suc k) (xs[k := x]) = tl (rotate k xs) @ [x]"
proof (rule nth_equalityI)
  show "length (rotate (Suc k) (xs[k := x])) = length (tl (rotate k xs) @ [x])"
    using assms by simp
next
  fix i
  assume "i < length (rotate (Suc k) (xs[k := x]))"
  then have i: "i < length xs" by simp
  let ?n = "length xs"
  let ?j = "(Suc k + i) mod ?n"
  have lhs: "rotate (Suc k) (xs[k := x]) ! i = xs[k := x] ! ?j"
    using i by (simp add: nth_rotate del: rotate_Suc)
  show "rotate (Suc k) (xs[k := x]) ! i = (tl (rotate k xs) @ [x]) ! i"
  proof (cases "i = ?n - 1")
    case True
    with assms have "Suc k + i = k + ?n" by simp
    then have "?j = (k + ?n) mod ?n" by (rule arg_cong)
    with assms have "?j = k" by simp
    with lhs assms True show ?thesis by (simp add: nth_append)
  next
    case False
    with i have lt: "Suc i < ?n" by simp
    have "?j \<noteq> k"
    proof
      assume eq: "?j = k"
      have "(k + Suc i) mod ?n = k mod ?n" using eq assms by simp
      then have "?n dvd Suc i"
        by (metis add_diff_cancel_left' le_add1 mod_eq_dvd_iff_nat)
      with lt show False by (auto dest: dvd_imp_le)
    qed
    moreover have "(tl (rotate k xs) @ [x]) ! i = rotate k xs ! Suc i"
      using lt by (simp add: nth_append nth_tl less_diff_conv)
    ultimately show ?thesis
      using lhs lt by (simp add: nth_rotate)
  qed
qed

lemma length_filter_imp:
  assumes "\<And>x. P x \<Longrightarrow> Q x"
  shows "length (filter P xs) \<le> length (filter Q xs)"
  using assms by (induction xs) (auto simp: le_SucI)

lemma sorted_le_last:
  fixes xs :: "'a::linorder list"
  assumes "sorted xs" and "x \<in> set xs"
  shows "x \<le> last xs"
  using assms by (induction xs) auto

lemma sort_eq_Nil [simp]: "sort xs = [] \<longleftrightarrow> xs = []"
  by (metis length_0_conv length_sort)

lemma sorted_nth_count_le:
  fixes xs :: "'a::linorder list"
  assumes "sorted xs" and "k < length xs"
  shows "Suc k \<le> length (filter (\<lambda>x. x \<le> xs ! k) xs)"
proof -
  have "\<forall>x \<in> set (take (Suc k) xs). x \<le> xs ! k"
  proof
    fix x
    assume "x \<in> set (take (Suc k) xs)"
    then obtain j where "j < length (take (Suc k) xs)" and x: "x = take (Suc k) xs ! j"
      by (auto simp: in_set_conv_nth)
    then have "j \<le> k" and "x = xs ! j" by auto
    with assms show "x \<le> xs ! k" by (simp add: sorted_nth_mono)
  qed
  then have "filter (\<lambda>x. x \<le> xs ! k) (take (Suc k) xs) = take (Suc k) xs"
    by (simp add: filter_True)
  then have "length (take (Suc k) xs) \<le> length (filter (\<lambda>x. x \<le> xs ! k) xs)"
    by (metis append_take_drop_id filter_append length_append le_add1)
  with assms show ?thesis by simp
qed

lemma sorted_nth_count_less:
  fixes xs :: "'a::linorder list"
  assumes "sorted xs" and "k < length xs"
  shows "length (filter (\<lambda>x. x < xs ! k) xs) \<le> k"
proof -
  have "\<forall>x \<in> set (drop k xs). \<not> x < xs ! k"
  proof
    fix x
    assume "x \<in> set (drop k xs)"
    then obtain j where "j < length (drop k xs)" and "x = drop k xs ! j"
      by (auto simp: in_set_conv_nth)
    with assms show "\<not> x < xs ! k" by (simp add: sorted_nth_mono leD)
  qed
  then have none: "filter (\<lambda>x. x < xs ! k) (drop k xs) = []"
    by (simp add: filter_empty_conv)
  have "filter (\<lambda>x. x < xs ! k) xs =
      filter (\<lambda>x. x < xs ! k) (take k xs) @ filter (\<lambda>x. x < xs ! k) (drop k xs)"
    by (metis append_take_drop_id filter_append)
  with none have "length (filter (\<lambda>x. x < xs ! k) xs) \<le> length (take k xs)"
    by (metis append_Nil2 length_filter_le)
  then show ?thesis by simp
qed

subsection \<open>Words\<close>

lemma unat_less_2p32: "unat (x :: u32) < 2 ^ 32"
  using unsigned_less [of x, where ?'a = nat] by simp

lemma unat_add_u32:
  "unat (a :: u32) + unat b < 2 ^ 32 \<Longrightarrow> unat (a + b) = unat a + unat b"
  by (simp add: unat_word_ariths)

lemma unat_Suc_u32:
  "unat (a :: u32) < 2 ^ 32 - 1 \<Longrightarrow> unat (a + 1) = Suc (unat a)"
  by (simp add: unat_word_ariths)

lemma unat_Suc_nonzero: "(a :: u32) + 1 \<noteq> 0 \<Longrightarrow> unat (a + 1) = Suc (unat a)"
  by (metis add.commute unatSuc)

lemma unat_of_nat_u32: "n < 2 ^ 32 \<Longrightarrow> unat (of_nat n :: u32) = n"
  by (simp add: unat_of_nat take_bit_nat_eq_self_iff)

lemma of_nat_inj_u32:
  "m < 2 ^ 32 \<Longrightarrow> n < 2 ^ 32 \<Longrightarrow> (of_nat m :: u32) = of_nat n \<longleftrightarrow> m = n"
  by (metis unat_of_nat_u32)

lemma sint_small_u32:
  assumes "uint (x :: u32) < 2 ^ 31"
  shows "sint x = uint x"
proof -
  have "- (2 ^ 31) \<le> uint x"
    by (rule order_trans [of _ 0]) simp_all
  with assms have "signed_take_bit 31 (uint x) = uint x"
    by (simp add: signed_take_bit_int_eq_self_iff)
  then show ?thesis by (simp add: sint_uint)
qed

end
