(* ===== verification/GoLib.thy ===== *)
theory GoLib
  imports Prelude
begin

text \<open>
  The part of Go's standard library that the program's text handling rests on: decimal
  formatting with zero padding (\<^verbatim>\<open>fmt.Sprintf("%0wd")\<close>), \<^verbatim>\<open>strconv.Itoa\<close>,
  \<^verbatim>\<open>strconv.ParseUint\<close> and \<^verbatim>\<open>strconv.ParseInt\<close> in base 10, \<^verbatim>\<open>strings.SplitN\<close> at the
  first separator, \<^verbatim>\<open>strings.Split\<close> and \<^verbatim>\<open>strings.Join\<close>. The main facts are that parsing
  undoes printing and that equally long digit strings are ordered as their values.
\<close>

subsection \<open>Decimal digits\<close>

definition digit :: "nat \<Rightarrow> char" where
  "digit d = char_of (48 + d)"

definition digit_val :: "char \<Rightarrow> nat" where
  "digit_val c = of_char c - 48"

definition is_digit :: "char \<Rightarrow> bool" where
  "is_digit c \<longleftrightarrow> 48 \<le> (of_char c :: nat) \<and> (of_char c :: nat) < 58"

fun show_nat :: "nat \<Rightarrow> string" where
  "show_nat n = (if n < 10 then [digit n] else show_nat (n div 10) @ [digit (n mod 10)])"

declare show_nat.simps [simp del]

definition dec_val :: "string \<Rightarrow> nat" where
  "dec_val s = foldl (\<lambda>a c. 10 * a + digit_val c) 0 s"

subsection \<open>Formatting\<close>

text \<open>\<^verbatim>\<open>%0wd\<close>: pad with zeros on the left up to the width; a sign counts for the width.\<close>

definition pad0 :: "nat \<Rightarrow> string \<Rightarrow> string" where
  "pad0 w s = replicate (w - length s) (digit 0) @ s"

definition sprintf0 :: "nat \<Rightarrow> int \<Rightarrow> string" where
  "sprintf0 w x = (if x < 0 then CHR ''-'' # pad0 (w - 1) (show_nat (nat (- x)))
                   else pad0 w (show_nat (nat x)))"

definition itoa :: "int \<Rightarrow> string" where
  "itoa x = sprintf0 0 x"

subsection \<open>Parsing\<close>

definition ParseUint :: "nat \<Rightarrow> string \<Rightarrow> nat res" where
  "ParseUint bits s =
     (if s = [] \<or> \<not> list_all is_digit s then Inl (Err ''invalid syntax'')
      else if 2 ^ bits \<le> dec_val s then Inl (Err ''value out of range'')
      else Inr (dec_val s))"

definition ParseInt :: "nat \<Rightarrow> string \<Rightarrow> int res" where
  "ParseInt bits s =
     (let neg = (s \<noteq> [] \<and> hd s = CHR ''-'');
          s' = (if s \<noteq> [] \<and> (hd s = CHR ''-'' \<or> hd s = CHR ''+'') then tl s else s)
      in if s' = [] \<or> \<not> list_all is_digit s' then Inl (Err ''invalid syntax'')
         else if \<not> neg \<and> 2 ^ (bits - 1) \<le> dec_val s' then Inl (Err ''value out of range'')
         else if neg \<and> 2 ^ (bits - 1) < dec_val s' then Inl (Err ''value out of range'')
         else Inr (if neg then - int (dec_val s') else int (dec_val s')))"

subsection \<open>Splitting and joining\<close>

text \<open>\<^verbatim>\<open>strings.SplitN(s, sep, 2)\<close> for a one-character separator.\<close>

definition SplitN2 :: "char \<Rightarrow> string \<Rightarrow> string list" where
  "SplitN2 c s =
     (if c \<in> set s then [takeWhile (\<lambda>x. x \<noteq> c) s, tl (dropWhile (\<lambda>x. x \<noteq> c) s)]
      else [s])"

fun Split :: "char \<Rightarrow> string \<Rightarrow> string list" where
  "Split c [] = [[]]"
| "Split c (x # xs) =
     (if x = c then [] # Split c xs
      else (case Split c xs of [] \<Rightarrow> [[x]] | y # ys \<Rightarrow> (x # y) # ys))"

fun Join :: "string \<Rightarrow> string list \<Rightarrow> string" where
  "Join sep [] = []"
| "Join sep [x] = x"
| "Join sep (x # y # ys) = x @ sep @ Join sep (y # ys)"

subsection \<open>Digits and their values\<close>

lemma of_char_digit [simp]: "d < 10 \<Longrightarrow> of_char (digit d) = 48 + d"
  by (simp add: digit_def)

lemma digit_val_digit [simp]: "d < 10 \<Longrightarrow> digit_val (digit d) = d"
  by (simp add: digit_val_def)

lemma is_digit_digit [simp]: "d < 10 \<Longrightarrow> is_digit (digit d)"
  by (simp add: is_digit_def)

lemma digit_val_less: "is_digit c \<Longrightarrow> digit_val c < 10"
  by (auto simp: is_digit_def digit_val_def)

lemma digit_less_iff:
  assumes "is_digit a" and "is_digit b"
  shows "a < b \<longleftrightarrow> digit_val a < digit_val b"
  using assms by (auto simp: is_digit_def digit_val_def less_char_def)

lemma digit_eq_iff:
  assumes "is_digit a" and "is_digit b"
  shows "a = b \<longleftrightarrow> digit_val a = digit_val b"
proof
  assume "digit_val a = digit_val b"
  with assms have "(of_char a :: nat) = of_char b"
    unfolding is_digit_def digit_val_def by linarith
  then show "a = b" by simp
qed simp

lemma is_digit_not_sep:
  "is_digit c \<Longrightarrow> c \<noteq> CHR ''-''"
  "is_digit c \<Longrightarrow> c \<noteq> CHR ''+''"
  by (auto simp: is_digit_def)

lemma show_nat_digits: "list_all is_digit (show_nat n)"
proof (induction n rule: show_nat.induct)
  case (1 n)
  then show ?case by (subst show_nat.simps) simp
qed

lemma show_nat_nonempty [simp]: "show_nat n \<noteq> []"
  by (subst show_nat.simps) simp

lemma dec_val_Nil [simp]: "dec_val [] = 0"
  by (simp add: dec_val_def)

lemma dec_val_snoc [simp]: "dec_val (s @ [c]) = 10 * dec_val s + digit_val c"
  by (simp add: dec_val_def)

lemma dec_val_foldl:
  "foldl (\<lambda>a c. 10 * a + digit_val c) a s = a * 10 ^ length s + dec_val s"
proof (induction s rule: rev_induct)
  case Nil
  then show ?case by simp
next
  case (snoc c s)
  then show ?case by (simp add: algebra_simps)
qed

lemma dec_val_Cons: "dec_val (c # s) = digit_val c * 10 ^ length s + dec_val s"
  using dec_val_foldl [of "digit_val c" s] by (simp add: dec_val_def)

lemma dec_val_show_nat [simp]: "dec_val (show_nat n) = n"
proof (induction n rule: show_nat.induct)
  case (1 n)
  then show ?case by (subst show_nat.simps) (simp add: dec_val_Cons)
qed

lemma dec_val_pad0 [simp]: "dec_val (pad0 w s) = dec_val s"
proof -
  have "dec_val (replicate k (digit 0) @ s) = dec_val s" for k
    by (induction k) (simp_all add: dec_val_Cons)
  then show ?thesis by (simp add: pad0_def)
qed

lemma dec_val_less: "list_all is_digit s \<Longrightarrow> dec_val s < 10 ^ length s"
proof (induction s)
  case Nil
  then show ?case by simp
next
  case (Cons c s)
  then have "digit_val c \<le> 9" and "dec_val s < 10 ^ length s"
    using digit_val_less [of c] by auto
  then have "digit_val c * 10 ^ length s + dec_val s < 9 * 10 ^ length s + 10 ^ length s"
    by (intro add_le_less_mono mult_le_mono1)
  then show ?case by (simp add: dec_val_Cons)
qed

lemma length_show_nat: "n < 10 ^ w \<Longrightarrow> 0 < w \<Longrightarrow> length (show_nat n) \<le> w"
proof (induction n arbitrary: w rule: show_nat.induct)
  case (1 n)
  show ?case
  proof (cases "n < 10")
    case True
    with "1.prems" show ?thesis by (subst show_nat.simps) simp
  next
    case False
    with "1.prems" obtain v where w: "w = Suc v" and "0 < v"
      by (cases w; cases "w - 1") auto
    with "1.prems" have "n div 10 < 10 ^ v" by (simp add: less_mult_imp_div_less)
    with "1.IH" False \<open>0 < v\<close> have "length (show_nat (n div 10)) \<le> v" by simp
    with False w show ?thesis by (subst show_nat.simps) simp
  qed
qed

lemma pad0_digits: "list_all is_digit s \<Longrightarrow> list_all is_digit (pad0 w s)"
  by (auto simp: pad0_def list_all_iff)

lemma length_pad0: "length s \<le> w \<Longrightarrow> length (pad0 w s) = w"
  by (simp add: pad0_def)

lemma sprintf0_nat:
  "0 \<le> x \<Longrightarrow> sprintf0 w x = pad0 w (show_nat (nat x))"
  by (simp add: sprintf0_def)

lemma sprintf0_digits: "0 \<le> x \<Longrightarrow> list_all is_digit (sprintf0 w x)"
  by (simp add: sprintf0_nat pad0_digits show_nat_digits)

lemma sprintf0_nonempty: "0 \<le> x \<Longrightarrow> sprintf0 w x \<noteq> []"
  by (simp add: sprintf0_nat pad0_def)

lemma sprintf0_val: "0 \<le> x \<Longrightarrow> dec_val (sprintf0 w x) = nat x"
  by (simp add: sprintf0_nat)

lemma length_sprintf0:
  "0 \<le> x \<Longrightarrow> x < 10 ^ w \<Longrightarrow> 0 < w \<Longrightarrow> length (sprintf0 w x) = w"
  by (simp add: sprintf0_nat length_pad0 length_show_nat nat_less_iff)

subsection \<open>Parsing undoes printing\<close>

lemma ParseUint_sprintf0:
  assumes "0 \<le> x" and "x < 2 ^ bits"
  shows "ParseUint bits (sprintf0 w x) = Inr (nat x)"
proof -
  from assms have "nat x < 2 ^ bits" by (simp add: nat_less_iff)
  with assms show ?thesis
    by (simp add: ParseUint_def sprintf0_digits sprintf0_nonempty sprintf0_val)
qed

lemma ParseInt_digits:
  assumes "list_all is_digit s" and "s \<noteq> []" and "dec_val s < 2 ^ (bits - 1)"
  shows "ParseInt bits s = Inr (int (dec_val s))"
proof -
  from assms(1,2) have "hd s \<noteq> CHR ''-''" and "hd s \<noteq> CHR ''+''"
    by (cases s; auto dest: is_digit_not_sep)+
  with assms show ?thesis by (simp add: ParseInt_def)
qed

lemma ParseInt_sprintf0:
  assumes "0 \<le> x" and "x < 2 ^ (bits - 1)"
  shows "ParseInt bits (sprintf0 w x) = Inr x"
proof -
  from assms have "dec_val (sprintf0 w x) < 2 ^ (bits - 1)"
    by (simp add: sprintf0_val nat_less_iff)
  with assms(1) show ?thesis
    by (simp add: ParseInt_digits sprintf0_digits sprintf0_nonempty sprintf0_val)
qed

lemma ParseUint_bound: "ParseUint bits s = Inr n \<Longrightarrow> n < 2 ^ bits"
  by (auto simp: ParseUint_def split: if_splits)

lemma neg_nat_less_pow: "- int n < 2 ^ k"
  by (rule le_less_trans [of _ 0]) simp_all

lemma neg_pow_le_nat: "- (2 ^ k) \<le> int n"
  by (rule order_trans [of _ 0]) simp_all

lemma ParseInt_bound:
  "ParseInt bits s = Inr x \<Longrightarrow> - (2 ^ (bits - 1)) \<le> x \<and> x < 2 ^ (bits - 1)"
  unfolding ParseInt_def Let_def
  by (auto simp: not_le not_less neg_nat_less_pow neg_pow_le_nat
      simp flip: of_nat_le_iff of_nat_less_iff split: if_splits)

subsection \<open>Splitting\<close>

lemma SplitN2_first:
  assumes "c \<notin> set s"
  shows "SplitN2 c (s @ c # t) = [s, t]"
proof -
  have "takeWhile (\<lambda>x. x \<noteq> c) (s @ c # t) = s" and "dropWhile (\<lambda>x. x \<noteq> c) (s @ c # t) = c # t"
    using assms by (induction s) auto
  then show ?thesis by (simp add: SplitN2_def)
qed

lemma digits_no_dash: "list_all is_digit s \<Longrightarrow> CHR ''-'' \<notin> set s"
  by (auto simp: list_all_iff dest: is_digit_not_sep)

lemma Split_nonempty [simp]: "Split c s \<noteq> []"
  by (induction s) (auto split: list.splits)

lemma Split_no_sep: "c \<notin> set s \<Longrightarrow> Split c s = [s]"
  by (induction s) auto

lemma Split_append_sep: "c \<notin> set s \<Longrightarrow> Split c (s @ c # t) = s # Split c t"
  by (induction s) auto

lemma Split_Join:
  "xs \<noteq> [] \<Longrightarrow> \<forall>x \<in> set xs. c \<notin> set x \<Longrightarrow> Split c (Join [c] xs) = xs"
  by (induction "[c]" xs rule: Join.induct) (auto simp: Split_no_sep Split_append_sep)

subsection \<open>Order of digit strings\<close>

text \<open>
  On digit strings of the same length the bytewise order is the numeric order: the reason
  the program pads the identifiers it stores as text.
\<close>

lemma dec_val_less_iff:
  assumes "length s = length t" and "list_all is_digit s" and "list_all is_digit t"
  shows "s < t \<longleftrightarrow> dec_val s < dec_val t"
  using assms
proof (induction s t rule: list_induct2)
  case Nil
  then show ?case by simp
next
  case (Cons a s b t)
  then have d: "is_digit a" "is_digit b" and len: "length s = length t" by auto
  have vs: "dec_val s < 10 ^ length t" and vt: "dec_val t < 10 ^ length t"
    using Cons by (auto dest: dec_val_less)
  show ?case
  proof (cases "digit_val a" "digit_val b" rule: linorder_cases)
    case less
    then have "Suc (digit_val a) * 10 ^ length t \<le> digit_val b * 10 ^ length t"
      by (intro mult_le_mono1) simp
    with vs have "dec_val (a # s) < dec_val (b # t)"
      by (simp add: dec_val_Cons len)
    with less d show ?thesis by (simp add: digit_less_iff)
  next
    case equal
    with Cons d show ?thesis by (simp add: dec_val_Cons digit_eq_iff digit_less_iff)
  next
    case greater
    then have "Suc (digit_val b) * 10 ^ length t \<le> digit_val a * 10 ^ length t"
      by (intro mult_le_mono1) simp
    with vt have "\<not> dec_val (a # s) < dec_val (b # t)"
      by (simp add: dec_val_Cons len)
    with greater d show ?thesis by (auto simp: digit_less_iff digit_eq_iff)
  qed
qed

lemma dec_val_eq_iff:
  assumes "length s = length t" and "list_all is_digit s" and "list_all is_digit t"
  shows "s = t \<longleftrightarrow> dec_val s = dec_val t"
  using dec_val_less_iff [OF assms] dec_val_less_iff [of t s] assms
  by (metis less_irrefl linorder_neq_iff)

lemma append_less_same_length:
  fixes s t :: "'a::linorder list"
  assumes "length s = length t"
  shows "s @ u < t @ v \<longleftrightarrow> s < t \<or> s = t \<and> u < v"
  using assms by (induction s t rule: list_induct2) auto

subsection \<open>Hexadecimal text\<close>

text \<open>\<^verbatim>\<open>hex.EncodeToString\<close> and \<^verbatim>\<open>hex.Decode\<close>; the decoder accepts both cases of the letters
  and reports an odd trailing character.\<close>

definition hex_digit :: "nat \<Rightarrow> char" where
  "hex_digit d = (if d < 10 then char_of (48 + d) else char_of (87 + d))"

definition hex_val :: "char \<Rightarrow> nat option" where
  "hex_val c =
     (let n = of_char c :: nat in
      if 48 \<le> n \<and> n < 58 then Some (n - 48)
      else if 97 \<le> n \<and> n < 103 then Some (n - 87)
      else if 65 \<le> n \<and> n < 71 then Some (n - 55)
      else None)"

fun hex_encode :: "bytes \<Rightarrow> string" where
  "hex_encode [] = []"
| "hex_encode (b # bs) =
     hex_digit (of_char b div 16) # hex_digit (of_char b mod 16) # hex_encode bs"

fun hex_decode :: "string \<Rightarrow> bytes res" where
  "hex_decode [] = Inr []"
| "hex_decode [c] =
     (case hex_val c of None \<Rightarrow> Inl (Err ''encoding/hex: invalid byte'')
      | Some _ \<Rightarrow> Inl (Err ''encoding/hex: odd length hex string''))"
| "hex_decode (c # d # s) =
     (case (hex_val c, hex_val d) of
        (Some h, Some l) \<Rightarrow> bind_res (hex_decode s) (\<lambda>bs. Inr (char_of (16 * h + l) # bs))
      | _ \<Rightarrow> Inl (Err ''encoding/hex: invalid byte''))"

lemma hex_val_digit: "d < 16 \<Longrightarrow> hex_val (hex_digit d) = Some d"
  by (auto simp: hex_val_def hex_digit_def Let_def)

lemma hex_encode_length: "length (hex_encode bs) = 2 * length bs"
  by (induction bs) simp_all

lemma hex_decode_encode: "hex_decode (hex_encode bs) = Inr bs"
proof (induction bs)
  case (Cons b bs)
  have "(of_char b :: nat) div 16 < 16" using nat_of_char_less_256 [of b] by linarith
  then have "hex_val (hex_digit (of_char b div 16)) = Some (of_char b div 16)"
    by (rule hex_val_digit)
  moreover have "hex_val (hex_digit (of_char b mod 16)) = Some (of_char b mod 16)"
    by (rule hex_val_digit) simp
  ultimately show ?case using Cons by (simp add: mult.commute)
qed simp

lemma hex_decode_length: "hex_decode s = Inr bs \<Longrightarrow> length s = 2 * length bs"
  by (induction s arbitrary: bs rule: hex_decode.induct)
    (auto simp: bind_res_Inr_iff split: option.splits)

end
