(* ===== verification/Cursors.thy ===== *)
theory Cursors
  imports GoLib
begin

text \<open>
  \<^verbatim>\<open>protocol/cursor.go\<close>: event cursors, their text form, the parser of that form and the
  comparison. The total-order identifiers of \<^verbatim>\<open>github.com/stellar/go/toid\<close> are a
  parameter, the record \<open>toid_pkg\<close>; what the code relies on is the predicate
  \<open>toid_spec\<close>, the bit layout SEP-35 documents (31 bits of ledger, 20 bits of
  transaction order, 12 bits of operation order). The parser undoes the printer, and the
  bytewise order of the printed cursors is the order of \<^verbatim>\<open>Cursor.Cmp\<close>, which is what lets
  the events table be keyed and sorted by text.
\<close>

subsection \<open>The toid package\<close>

record toid_pkg =
  toid_ToInt64 :: "int \<Rightarrow> int \<Rightarrow> int \<Rightarrow> int option"
    \<comment> \<open>\<^verbatim>\<open>toid.New(l, t, o).ToInt64()\<close>; \<open>None\<close> when it panics\<close>
  toid_Parse :: "int \<Rightarrow> int \<times> int \<times> int"
  toid_TransactionMask :: u32
  toid_OperationMask :: u32

definition toid_in_range :: "int \<Rightarrow> int \<Rightarrow> int \<Rightarrow> bool" where
  "toid_in_range l t o' \<longleftrightarrow>
     0 \<le> l \<and> l < 2 ^ 31 \<and> 0 \<le> t \<and> t < 2 ^ 20 \<and> 0 \<le> o' \<and> o' < 2 ^ 12"

definition toid_val :: "int \<Rightarrow> int \<Rightarrow> int \<Rightarrow> int" where
  "toid_val l t o' = l * 2 ^ 32 + t * 2 ^ 12 + o'"

definition toid_spec :: "toid_pkg \<Rightarrow> bool" where
  "toid_spec T \<longleftrightarrow>
     toid_TransactionMask T = 2 ^ 20 - 1 \<and> toid_OperationMask T = 2 ^ 12 - 1 \<and>
     (\<forall>l t o'. toid_in_range l t o' \<longrightarrow>
        toid_ToInt64 T l t o' = Some (toid_val l t o') \<and>
        toid_Parse T (toid_val l t o') = (l, t, o'))"

subsection \<open>Cursors\<close>

datatype Cursor = Cursor (c_Ledger: u32) (c_Tx: u32) (c_Op: u32) (c_Event: u32)

record CursorRange =
  cr_Start :: Cursor
  cr_End :: Cursor

text \<open>\<^verbatim>\<open>Cursor.String\<close>; \<open>None\<close> where \<^verbatim>\<open>toid\<close> panics.\<close>

definition Cursor_String :: "toid_pkg \<Rightarrow> Cursor \<Rightarrow> string option" where
  "Cursor_String T c =
     (case toid_ToInt64 T (sint (c_Ledger c)) (sint (c_Tx c)) (sint (c_Op c)) of
        None \<Rightarrow> None
      | Some n \<Rightarrow> Some (sprintf0 19 n @ ''-'' @ sprintf0 10 (uint (c_Event c))))"

definition ParseCursor :: "toid_pkg \<Rightarrow> string \<Rightarrow> Cursor res" where
  "ParseCursor T input =
     (case SplitN2 CHR ''-'' input of
        [p0, p1] \<Rightarrow>
          bind_res (map_err (wrap_err (''invalid event id '' @ input @ '': '')) (ParseInt 64 p0))
            (\<lambda>idInt. case toid_Parse T idInt of (l, t, o') \<Rightarrow>
               bind_res
                 (map_err (wrap_err (''invalid event id '' @ input @ '': '')) (ParseUint 32 p1))
                 (\<lambda>eventOrder. Inr (Cursor (word_of_int l) (word_of_int t) (word_of_int o')
                                      (of_nat eventOrder))))
      | _ \<Rightarrow> Inl (Err (''invalid event id '' @ input)))"

definition cmp :: "u32 \<Rightarrow> u32 \<Rightarrow> int" where
  "cmp a b = (if a < b then - 1 else if a > b then 1 else 0)"

definition Cursor_Cmp :: "Cursor \<Rightarrow> Cursor \<Rightarrow> int" where
  "Cursor_Cmp c other =
     (if c_Ledger c = c_Ledger other then
        if c_Tx c = c_Tx other then
          if c_Op c = c_Op other then cmp (c_Event c) (c_Event other)
          else cmp (c_Op c) (c_Op other)
        else cmp (c_Tx c) (c_Tx other)
      else cmp (c_Ledger c) (c_Ledger other))"

definition MinCursor :: Cursor where
  "MinCursor = Cursor 0 0 0 0"

definition MaxCursor :: "toid_pkg \<Rightarrow> Cursor" where
  "MaxCursor T = Cursor (2 ^ 31 - 1) (toid_TransactionMask T) (toid_OperationMask T) (2 ^ 32 - 1)"

subsection \<open>The order of cursors\<close>

lemma cmp_less_0 [simp]: "cmp a b < 0 \<longleftrightarrow> a < b"
  by (simp add: cmp_def)

lemma cmp_le_0 [simp]: "cmp a b \<le> 0 \<longleftrightarrow> a \<le> b"
  by (auto simp: cmp_def)

lemma cmp_eq_0 [simp]: "cmp a b = 0 \<longleftrightarrow> a = b"
  by (auto simp: cmp_def)

lemma cmp_uminus: "cmp b a = - cmp a b"
  by (auto simp: cmp_def)

lemma Cursor_Cmp_le_0:
  "Cursor_Cmp c d \<le> 0 \<longleftrightarrow>
     c_Ledger c < c_Ledger d \<or> c_Ledger c = c_Ledger d \<and>
     (c_Tx c < c_Tx d \<or> c_Tx c = c_Tx d \<and>
     (c_Op c < c_Op d \<or> c_Op c = c_Op d \<and> c_Event c \<le> c_Event d))"
  by (auto simp: Cursor_Cmp_def)

lemma Cursor_Cmp_less_0:
  "Cursor_Cmp c d < 0 \<longleftrightarrow>
     c_Ledger c < c_Ledger d \<or> c_Ledger c = c_Ledger d \<and>
     (c_Tx c < c_Tx d \<or> c_Tx c = c_Tx d \<and>
     (c_Op c < c_Op d \<or> c_Op c = c_Op d \<and> c_Event c < c_Event d))"
  by (auto simp: Cursor_Cmp_def)

lemma Cursor_Cmp_eq_0: "Cursor_Cmp c d = 0 \<longleftrightarrow> c = d"
  by (auto simp: Cursor_Cmp_def Cursor.expand)

lemma Cursor_Cmp_uminus: "Cursor_Cmp d c = - Cursor_Cmp c d"
  by (auto simp: Cursor_Cmp_def cmp_uminus [of "c_Ledger d"] cmp_uminus [of "c_Tx d"]
      cmp_uminus [of "c_Op d"] cmp_uminus [of "c_Event d"])

lemma Cursor_Cmp_range: "Cursor_Cmp c d \<in> {-1, 0, 1}"
  by (simp add: Cursor_Cmp_def cmp_def)

instantiation Cursor :: linorder
begin

definition less_eq_Cursor :: "Cursor \<Rightarrow> Cursor \<Rightarrow> bool" where
  "less_eq_Cursor c d \<longleftrightarrow> Cursor_Cmp c d \<le> 0"

definition less_Cursor :: "Cursor \<Rightarrow> Cursor \<Rightarrow> bool" where
  "less_Cursor c d \<longleftrightarrow> Cursor_Cmp c d < 0"

instance
proof
  fix c d e :: Cursor
  show "c < d \<longleftrightarrow> c \<le> d \<and> \<not> d \<le> c"
    by (auto simp: less_eq_Cursor_def less_Cursor_def Cursor_Cmp_uminus [of d c])
  show "c \<le> c"
    by (simp add: less_eq_Cursor_def Cursor_Cmp_le_0)
  show "c \<le> e" if "c \<le> d" "d \<le> e"
    using that by (auto simp: less_eq_Cursor_def Cursor_Cmp_le_0)
  show "c = d" if "c \<le> d" "d \<le> c"
    using that by (auto simp: less_eq_Cursor_def Cursor_Cmp_le_0 Cursor.expand)
  show "c \<le> d \<or> d \<le> c"
    by (auto simp: less_eq_Cursor_def Cursor_Cmp_le_0)
qed

end

lemmas cursor_order = less_eq_Cursor_def less_Cursor_def Cursor_Cmp_le_0 Cursor_Cmp_less_0

lemma MinCursor_least: "MinCursor \<le> c"
  by (auto simp: cursor_order MinCursor_def word_gt_0)

subsection \<open>Cursors that fit a total-order identifier\<close>

text \<open>The ledger sequence is a positive \<^verbatim>\<open>int32\<close>, the orders fit their bit fields.\<close>

definition valid_cursor :: "Cursor \<Rightarrow> bool" where
  "valid_cursor c \<longleftrightarrow>
     uint (c_Ledger c) < 2 ^ 31 \<and> uint (c_Tx c) < 2 ^ 20 \<and> uint (c_Op c) < 2 ^ 12"

definition cursor_toid :: "Cursor \<Rightarrow> int" where
  "cursor_toid c = toid_val (uint (c_Ledger c)) (uint (c_Tx c)) (uint (c_Op c))"

definition cursor_text :: "Cursor \<Rightarrow> string" where
  "cursor_text c = sprintf0 19 (cursor_toid c) @ ''-'' @ sprintf0 10 (uint (c_Event c))"

lemma valid_cursor_sint:
  assumes "valid_cursor c"
  shows "sint (c_Ledger c) = uint (c_Ledger c)"
    and "sint (c_Tx c) = uint (c_Tx c)"
    and "sint (c_Op c) = uint (c_Op c)"
  using assms by (simp_all add: valid_cursor_def sint_small_u32)

lemma valid_cursor_in_range:
  "valid_cursor c \<Longrightarrow> toid_in_range (uint (c_Ledger c)) (uint (c_Tx c)) (uint (c_Op c))"
  by (simp add: valid_cursor_def toid_in_range_def)

lemma cursor_toid_bounds:
  assumes "valid_cursor c"
  shows "0 \<le> cursor_toid c" and "cursor_toid c < 2 ^ 63"
proof -
  show "0 \<le> cursor_toid c"
    by (simp add: cursor_toid_def toid_val_def)
  from assms show "cursor_toid c < 2 ^ 63"
    by (simp add: valid_cursor_def cursor_toid_def toid_val_def)
qed

lemma Cursor_String_valid:
  "toid_spec T \<Longrightarrow> valid_cursor c \<Longrightarrow> Cursor_String T c = Some (cursor_text c)"
  using valid_cursor_in_range [of c]
  by (simp add: Cursor_String_def toid_spec_def valid_cursor_sint cursor_text_def cursor_toid_def)

lemma event_width: "length (sprintf0 10 (uint (e :: u32))) = 10"
proof -
  have "uint e < 2 ^ 32" using uint_lt2p [of e] by simp
  then have "uint e < 10 ^ 10" by simp
  then show ?thesis by (simp add: length_sprintf0)
qed

lemma toid_width: "valid_cursor c \<Longrightarrow> length (sprintf0 19 (cursor_toid c)) = 19"
  using cursor_toid_bounds [of c] by (simp add: length_sprintf0)

lemma cursor_text_length: "valid_cursor c \<Longrightarrow> length (cursor_text c) = 30"
  by (simp add: cursor_text_def toid_width event_width)

lemma ParseCursor_text:
  assumes "toid_spec T" and "valid_cursor c"
  shows "ParseCursor T (cursor_text c) = Inr c"
proof -
  let ?p0 = "sprintf0 19 (cursor_toid c)" and ?p1 = "sprintf0 10 (uint (c_Event c))"
  have "CHR ''-'' \<notin> set ?p0"
    by (rule digits_no_dash) (simp add: sprintf0_digits cursor_toid_bounds assms)
  then have "SplitN2 CHR ''-'' (cursor_text c) = [?p0, ?p1]"
    by (simp add: cursor_text_def SplitN2_first)
  moreover have "ParseInt 64 ?p0 = Inr (cursor_toid c)"
    using cursor_toid_bounds [OF assms(2)] by (simp add: ParseInt_sprintf0)
  moreover have "ParseUint 32 ?p1 = Inr (nat (uint (c_Event c)))"
    using uint_lt2p [of "c_Event c"] by (simp add: ParseUint_sprintf0)
  moreover have "toid_Parse T (cursor_toid c) =
      (uint (c_Ledger c), uint (c_Tx c), uint (c_Op c))"
    using assms valid_cursor_in_range by (simp add: toid_spec_def cursor_toid_def)
  ultimately show ?thesis
    by (simp add: ParseCursor_def Cursor.expand)
qed

subsection \<open>Text order is cursor order\<close>

text \<open>Bit fields compare as the tuples they hold.\<close>

lemma toid_val_less_iff:
  assumes "toid_in_range l t p" and "toid_in_range l' t' p'"
  shows "toid_val l t p < toid_val l' t' p' \<longleftrightarrow> l < l' \<or> l = l' \<and> (t < t' \<or> t = t' \<and> p < p')"
proof (cases l l' rule: linorder_cases)
  case less
  then have "(l + 1) * 2 ^ 32 \<le> l' * 2 ^ 32" by (intro mult_right_mono) simp_all
  with less assms show ?thesis by (simp add: toid_val_def toid_in_range_def)
next
  case equal
  show ?thesis
  proof (cases t t' rule: linorder_cases)
    case less
    then have "(t + 1) * 2 ^ 12 \<le> t' * 2 ^ 12" by (intro mult_right_mono) simp_all
    with less equal assms show ?thesis by (simp add: toid_val_def toid_in_range_def)
  next
    case greater
    then have "(t' + 1) * 2 ^ 12 \<le> t * 2 ^ 12" by (intro mult_right_mono) simp_all
    with greater equal assms show ?thesis by (simp add: toid_val_def toid_in_range_def)
  qed (use equal in \<open>simp add: toid_val_def\<close>)
next
  case greater
  then have "(l' + 1) * 2 ^ 32 \<le> l * 2 ^ 32" by (intro mult_right_mono) simp_all
  with greater assms show ?thesis by (simp add: toid_val_def toid_in_range_def)
qed

lemma toid_val_eq_iff:
  assumes "toid_in_range l t p" and "toid_in_range l' t' p'"
  shows "toid_val l t p = toid_val l' t' p' \<longleftrightarrow> l = l' \<and> t = t' \<and> p = p'"
  using toid_val_less_iff [OF assms] toid_val_less_iff [OF assms(2,1)]
  by (metis linorder_neq_iff)

lemma cursor_toid_less_iff:
  assumes "valid_cursor c" and "valid_cursor d"
  shows "cursor_toid c < cursor_toid d \<longleftrightarrow>
     c_Ledger c < c_Ledger d \<or> c_Ledger c = c_Ledger d \<and>
     (c_Tx c < c_Tx d \<or> c_Tx c = c_Tx d \<and> c_Op c < c_Op d)"
  unfolding cursor_toid_def
  by (simp add: toid_val_less_iff valid_cursor_in_range assms word_less_def word_uint_eq_iff)

lemma cursor_toid_eq_iff:
  assumes "valid_cursor c" and "valid_cursor d"
  shows "cursor_toid c = cursor_toid d \<longleftrightarrow>
     c_Ledger c = c_Ledger d \<and> c_Tx c = c_Tx d \<and> c_Op c = c_Op d"
  unfolding cursor_toid_def
  by (simp add: toid_val_eq_iff valid_cursor_in_range assms word_uint_eq_iff)

lemma sprintf0_less_iff:
  assumes "0 \<le> x" and "0 \<le> y" and "length (sprintf0 w x) = length (sprintf0 w y)"
  shows "sprintf0 w x < sprintf0 w y \<longleftrightarrow> x < y"
  using assms by (simp add: dec_val_less_iff sprintf0_digits sprintf0_val nat_less_eq_zless
      del: zless_nat_conj)

lemma sprintf0_eq_iff:
  assumes "0 \<le> x" and "0 \<le> y" and "length (sprintf0 w x) = length (sprintf0 w y)"
  shows "sprintf0 w x = sprintf0 w y \<longleftrightarrow> x = y"
  using assms by (simp add: dec_val_eq_iff sprintf0_digits sprintf0_val eq_nat_nat_iff)

lemma cursor_text_less_iff:
  assumes "valid_cursor c" and "valid_cursor d"
  shows "cursor_text c < cursor_text d \<longleftrightarrow> c < d"
proof -
  let ?s = "sprintf0 19 (cursor_toid c)" and ?t = "sprintf0 19 (cursor_toid d)"
  have len: "length ?s = length ?t" by (simp add: toid_width assms)
  have "cursor_text c < cursor_text d \<longleftrightarrow>
      ?s < ?t \<or> ?s = ?t \<and> sprintf0 10 (uint (c_Event c)) < sprintf0 10 (uint (c_Event d))"
    unfolding cursor_text_def by (simp add: append_less_same_length len)
  also have "\<dots> \<longleftrightarrow> cursor_toid c < cursor_toid d \<or>
      cursor_toid c = cursor_toid d \<and> c_Event c < c_Event d"
    by (simp add: sprintf0_less_iff sprintf0_eq_iff len event_width cursor_toid_bounds assms
        word_less_def)
  also have "\<dots> \<longleftrightarrow> c < d"
    by (auto simp: cursor_toid_less_iff cursor_toid_eq_iff assms cursor_order)
  finally show ?thesis .
qed

lemma cursor_text_eq_iff:
  assumes "valid_cursor c" and "valid_cursor d"
  shows "cursor_text c = cursor_text d \<longleftrightarrow> c = d"
  using cursor_text_less_iff [OF assms] cursor_text_less_iff [OF assms(2,1)]
  by (metis linorder_neq_iff)

lemma MaxCursor_valid: "toid_spec T \<Longrightarrow> valid_cursor (MaxCursor T)"
  by (simp add: toid_spec_def valid_cursor_def MaxCursor_def)

subsection \<open>Properties\<close>

text \<open>An implementation of the documented layout, the instance the examples use.\<close>

definition toid_layout :: toid_pkg where
  "toid_layout =
     \<lparr>toid_ToInt64 = (\<lambda>l t o'. if toid_in_range l t o' then Some (toid_val l t o') else None),
      toid_Parse = (\<lambda>n. (n div 2 ^ 32, n div 2 ^ 12 mod 2 ^ 20, n mod 2 ^ 12)),
      toid_TransactionMask = 2 ^ 20 - 1, toid_OperationMask = 2 ^ 12 - 1\<rparr>"

lemma toid_val_fields:
  assumes "toid_in_range l t p"
  shows "toid_val l t p div 2 ^ 32 = l" and "toid_val l t p div 2 ^ 12 mod 2 ^ 20 = t"
    and "toid_val l t p mod 2 ^ 12 = p"
proof -
  from assms have r: "0 \<le> p" "p < 2 ^ 12" "0 \<le> t" "t < 2 ^ 20" "0 \<le> t * 2 ^ 12 + p"
      "t * 2 ^ 12 + p < 2 ^ 32"
    by (simp_all add: toid_in_range_def)
  have "toid_val l t p = (t * 2 ^ 12 + p) + l * 2 ^ 32" by (simp add: toid_val_def)
  then show "toid_val l t p div 2 ^ 32 = l"
    using r(5,6) by (simp only: div_mult_self1 div_pos_pos_trivial)
  have v: "toid_val l t p = p + (t + l * 2 ^ 20) * 2 ^ 12" by (simp add: toid_val_def)
  show "toid_val l t p mod 2 ^ 12 = p"
    using r(1,2) unfolding v by (simp only: mod_mult_self1 mod_pos_pos_trivial)
  have "toid_val l t p div 2 ^ 12 = t + l * 2 ^ 20"
    using r(1,2) unfolding v by (simp only: div_mult_self1 div_pos_pos_trivial)
  then show "toid_val l t p div 2 ^ 12 mod 2 ^ 20 = t"
    using r(3,4) by (simp only: mod_mult_self1 mod_pos_pos_trivial)
qed

lemma toid_layout_spec: "toid_spec toid_layout"
  using toid_val_fields by (simp add: toid_spec_def toid_layout_def)

definition example_cursor :: Cursor where
  "example_cursor = Cursor 53726207 12 0 7"

lemma example_cursor_valid: "valid_cursor example_cursor"
  by (simp add: valid_cursor_def example_cursor_def)

text \<open>Printing a cursor whose fields fit a total-order identifier never panics, yields exactly
  thirty bytes, and parsing the text gives the cursor back.\<close>

theorem cursor_round_trip:
  assumes "toid_spec T" and "valid_cursor c"
  shows "\<exists>s. Cursor_String T c = Some s \<and> length s = 30 \<and> ParseCursor T s = Inr c"
  using assms by (simp add: Cursor_String_valid cursor_text_length ParseCursor_text)

theorem cursor_round_trip_witness:
  "\<exists>s. Cursor_String toid_layout example_cursor = Some s \<and> length s = 30 \<and>
     ParseCursor toid_layout s = Inr example_cursor"
  by (rule cursor_round_trip [OF toid_layout_spec example_cursor_valid])

text \<open>C9: The bytewise order of two printed cursors is the order that \<^verbatim>\<open>Cursor.Cmp\<close> computes:
  sorting and cutting the events table by its text key sorts and cuts it by cursor.\<close>

theorem cursor_text_order:
  assumes "toid_spec T" and "valid_cursor c" and "valid_cursor d"
    and "Cursor_String T c = Some s" and "Cursor_String T d = Some t"
  shows "(s < t \<longleftrightarrow> Cursor_Cmp c d = - 1) \<and> (s = t \<longleftrightarrow> Cursor_Cmp c d = 0)"
proof -
  from assms have s: "s = cursor_text c" and t: "t = cursor_text d"
    by (simp_all add: Cursor_String_valid)
  have "c < d \<longleftrightarrow> Cursor_Cmp c d = - 1"
    using Cursor_Cmp_range [of c d] by (auto simp: less_Cursor_def)
  then show ?thesis
    using assms(2,3) by (simp add: s t cursor_text_less_iff cursor_text_eq_iff Cursor_Cmp_eq_0)
qed

theorem cursor_text_order_witness:
  "Cursor_String toid_layout MinCursor = Some (cursor_text MinCursor) \<and>
   (cursor_text MinCursor < cursor_text example_cursor \<longleftrightarrow>
      Cursor_Cmp MinCursor example_cursor = - 1) \<and>
   Cursor_Cmp MinCursor example_cursor = - 1"
proof -
  have v: "valid_cursor MinCursor" by (simp add: valid_cursor_def MinCursor_def)
  note p = Cursor_String_valid [OF toid_layout_spec v]
    Cursor_String_valid [OF toid_layout_spec example_cursor_valid]
  have "Cursor_Cmp MinCursor example_cursor = - 1"
    by (simp add: Cursor_Cmp_def MinCursor_def example_cursor_def cmp_def)
  with cursor_text_order [OF toid_layout_spec v example_cursor_valid p] p(1) show ?thesis
    by simp
qed

end
