(* ===== verification/LedgerBuckets.thy ===== *)
theory LedgerBuckets
  imports GoLib
begin

text \<open>
  \<^verbatim>\<open>internal/ledgerbucketwindow/ledgerbucketwindow.go\<close>: a circular buffer with one bucket
  per ledger. The slice's capacity, which Go keeps with the slice and which never changes
  here because the code appends only below it, is the field \<open>w_cap\<close>. The locale
  \<open>bucket_window\<close> is what the window promises its clients, in terms of the list of
  buckets from the oldest ledger to the newest; the circular buffer is an instance of it.
\<close>

subsection \<open>Data\<close>

record 'a LedgerBucket =
  LedgerSeq :: u32
  LedgerCloseTimestamp :: i64
  BucketContent :: 'a

record 'a LedgerBucketWindow =
  w_buckets :: "'a LedgerBucket list"
  w_cap :: nat
  w_start :: u32

record LedgerInfo =
  li_Sequence :: u32
  li_CloseTime :: i64

record LedgerRange =
  lr_FirstLedger :: LedgerInfo
  lr_LastLedger :: LedgerInfo

text \<open>\<^verbatim>\<open>protocol.LedgerSeqRange\<close>\<close>

record LedgerSeqRange =
  lsr_FirstLedger :: u32
  lsr_LastLedger :: u32

definition zero_LedgerRange :: LedgerRange where
  "zero_LedgerRange =
     \<lparr>lr_FirstLedger = \<lparr>li_Sequence = 0, li_CloseTime = 0\<rparr>,
      lr_LastLedger = \<lparr>li_Sequence = 0, li_CloseTime = 0\<rparr>\<rparr>"

subsection \<open>Operations\<close>

definition slice_at :: "'a list \<Rightarrow> nat \<Rightarrow> 'a res" where
  "slice_at xs i = (if i < length xs then Inr (xs ! i) else Inl (Panic ''index out of range''))"

definition NewLedgerBucketWindow :: "u32 \<Rightarrow> 'a LedgerBucketWindow" where
  "NewLedgerBucketWindow retentionWindow =
     \<lparr>w_buckets = [], w_cap = unat retentionWindow, w_start = 0\<rparr>"

definition Len :: "'a LedgerBucketWindow \<Rightarrow> u32" where
  "Len w = of_nat (length (w_buckets w))"

definition not_contiguous_msg :: "u32 \<Rightarrow> u32 \<Rightarrow> string" where
  "not_contiguous_msg expected received =
     ''error appending ledgers: ledgers not contiguous: expected ledger sequence '' @
     show_nat (unat expected) @ '' but received '' @ show_nat (unat received)"

definition Append ::
  "'a LedgerBucketWindow \<Rightarrow> 'a LedgerBucket \<Rightarrow>
     ('a LedgerBucket option \<times> 'a LedgerBucketWindow) res" where
  "Append w bucket =
     (let len = Len w in
      bind_res
        (if len > 0 then
           bind_res (slice_at (w_buckets w) (unat (w_start w))) (\<lambda>first.
             let expected = LedgerSeq first + len
             in if expected \<noteq> LedgerSeq bucket
                then Inl (Err (not_contiguous_msg expected (LedgerSeq bucket)))
                else Inr ())
         else Inr ())
        (\<lambda>_. if len < of_nat (w_cap w) then
               Inr (None, w\<lparr>w_buckets := w_buckets w @ [bucket]\<rparr>)
             else
               bind_res (slice_at (w_buckets w) (unat (w_start w))) (\<lambda>saved.
                 Inr (Some saved,
                      w\<lparr>w_buckets := (w_buckets w)[unat (w_start w) := bucket],
                        w_start := (w_start w + 1) mod len\<rparr>))))"

definition Get :: "'a LedgerBucketWindow \<Rightarrow> u32 \<Rightarrow> 'a LedgerBucket res" where
  "Get w i =
     (let len = Len w in
      if i \<ge> len then
        Inl (Panic (''index out of range ['' @ show_nat (unat i) @ ''] with length '' @
                    show_nat (unat len)))
      else slice_at (w_buckets w) (unat ((w_start w + i) mod len)))"

definition GetLedgerRange :: "'a LedgerBucketWindow \<Rightarrow> LedgerRange res" where
  "GetLedgerRange w =
     (let len = Len w in
      if len = 0 then Inr zero_LedgerRange
      else
        bind_res (Get w 0) (\<lambda>firstBucket.
        bind_res (Get w (len - 1)) (\<lambda>lastBucket.
          Inr \<lparr>lr_FirstLedger = \<lparr>li_Sequence = LedgerSeq firstBucket,
                                 li_CloseTime = LedgerCloseTimestamp firstBucket\<rparr>,
               lr_LastLedger = \<lparr>li_Sequence = LedgerSeq lastBucket,
                                li_CloseTime = LedgerCloseTimestamp lastBucket\<rparr>\<rparr>)))"

definition ToLedgerSeqRange :: "LedgerRange \<Rightarrow> LedgerSeqRange" where
  "ToLedgerSeqRange lr =
     \<lparr>lsr_FirstLedger = li_Sequence (lr_FirstLedger lr),
      lsr_LastLedger = li_Sequence (lr_LastLedger lr)\<rparr>"

subsection \<open>The interface of a bucket window\<close>

text \<open>Ledger sequences go up by one from each bucket to the next.\<close>

definition contiguous :: "'a LedgerBucket list \<Rightarrow> bool" where
  "contiguous bs \<longleftrightarrow>
     (\<forall>i < length bs. LedgerSeq (bs ! i) = LedgerSeq (hd bs) + of_nat i)"

definition fits :: "'a LedgerBucket list \<Rightarrow> 'a LedgerBucket \<Rightarrow> bool" where
  "fits bs b \<longleftrightarrow> bs = [] \<or> LedgerSeq b = LedgerSeq (hd bs) + of_nat (length bs)"

text \<open>The last \<open>n\<close> elements of a list.\<close>

definition lastn :: "nat \<Rightarrow> 'a list \<Rightarrow> 'a list" where
  "lastn n xs = drop (length xs - n) xs"

lemma lastn_lastn_append: "lastn n (lastn n xs @ ys) = lastn n (xs @ ys)"
  by (cases "n \<le> length xs") (auto simp: lastn_def add.commute)

lemma lastn_short: "length xs \<le> n \<Longrightarrow> lastn n xs = xs"
  by (simp add: lastn_def)

lemma lastn_full: "length xs = n \<Longrightarrow> 0 < n \<Longrightarrow> lastn n (xs @ [x]) = tl xs @ [x]"
  by (cases xs) (simp_all add: lastn_def)

lemma length_lastn: "length (lastn n xs) = min n (length xs)"
  by (simp add: lastn_def)

locale bucket_window =
  fixes append_op :: "'w \<Rightarrow> 'a LedgerBucket \<Rightarrow> ('a LedgerBucket option \<times> 'w) res"
    and get_op :: "'w \<Rightarrow> u32 \<Rightarrow> 'a LedgerBucket res"
    and len_op :: "'w \<Rightarrow> u32"
    and contents :: "'w \<Rightarrow> 'a LedgerBucket list"
    and capacity :: "'w \<Rightarrow> nat"
    and invar :: "'w \<Rightarrow> bool"
  assumes len_law: "invar w \<Longrightarrow> unat (len_op w) = length (contents w)"
    and get_law: "invar w \<Longrightarrow> i < length (contents w) \<Longrightarrow>
        get_op w (of_nat i) = Inr (contents w ! i)"
    and append_ok: "invar w \<Longrightarrow> fits (contents w) b \<Longrightarrow>
        \<exists>ev w'. append_op w b = Inr (ev, w')"
    and append_fits: "invar w \<Longrightarrow> append_op w b = Inr (ev, w') \<Longrightarrow> fits (contents w) b"
    and append_law: "invar w \<Longrightarrow> append_op w b = Inr (ev, w') \<Longrightarrow>
        contents w' = lastn (capacity w) (contents w @ [b]) \<and>
        capacity w' = capacity w \<and> invar w'"
    and capacity_law: "invar w \<Longrightarrow> 0 < capacity w \<and> length (contents w) \<le> capacity w"
begin

text \<open>Reading a window bucket by bucket, as the clients' loops do, yields its contents.\<close>

lemma read_all:
  assumes "invar w"
  shows "traverse (\<lambda>i. get_op w (of_nat i)) [0..<unat (len_op w)] = Inr (contents w)"
proof -
  have "traverse (\<lambda>i. get_op w (of_nat i)) [0..<unat (len_op w)] =
      Inr (map (\<lambda>i. contents w ! i) [0..<unat (len_op w)])"
    by (rule traverse_total) (simp add: assms get_law len_law)
  then show ?thesis
    by (simp add: assms len_law map_nth)
qed

text \<open>A sequence of appends, stopping at the first rejected bucket.\<close>

fun append_run :: "'w \<Rightarrow> 'a LedgerBucket list \<Rightarrow> 'w res" where
  "append_run w [] = Inr w"
| "append_run w (b # bs) =
     (case append_op w b of Inl e \<Rightarrow> Inl e | Inr (_, w') \<Rightarrow> append_run w' bs)"

lemma append_run_contents:
  assumes "invar w" and "append_run w bs = Inr w'"
  shows "contents w' = lastn (capacity w) (contents w @ bs) \<and> capacity w' = capacity w \<and>
    invar w'"
  using assms
proof (induction bs arbitrary: w)
  case Nil
  then show ?case using capacity_law [of w] by (simp add: lastn_def)
next
  case (Cons b bs)
  then obtain ev v where v: "append_op w b = Inr (ev, v)" and run: "append_run v bs = Inr w'"
    by (auto split: sum.splits prod.splits)
  from append_law [OF Cons.prems(1) v] Cons.IH [OF _ run]
  have "contents w' = lastn (capacity w) (lastn (capacity w) (contents w @ [b]) @ bs)"
    and "capacity w' = capacity w" and "invar w'"
    by auto
  then show ?case by (simp add: lastn_lastn_append)
qed

end

subsection \<open>The circular buffer implements the interface\<close>

definition window_contents :: "'a LedgerBucketWindow \<Rightarrow> 'a LedgerBucket list" where
  "window_contents w = rotate (unat (w_start w)) (w_buckets w)"

text \<open>
  The capacity is at most \<open>2 ^ 31\<close>, so that the sum of two indices does not wrap around
  in 32 bits before it is reduced; only a full buffer starts elsewhere than at its first cell.
\<close>

definition window_inv :: "'a LedgerBucketWindow \<Rightarrow> bool" where
  "window_inv w \<longleftrightarrow>
     0 < w_cap w \<and> w_cap w \<le> 2 ^ 31 \<and> length (w_buckets w) \<le> w_cap w \<and>
     (if length (w_buckets w) < w_cap w then w_start w = 0
      else unat (w_start w) < length (w_buckets w)) \<and>
     contiguous (window_contents w)"

lemma length_window_contents [simp]: "length (window_contents w) = length (w_buckets w)"
  by (simp add: window_contents_def)

lemma window_inv_Len:
  assumes "window_inv w"
  shows "unat (Len w) = length (w_buckets w)"
proof -
  from assms have "length (w_buckets w) < 2 ^ 32" by (simp add: window_inv_def)
  then show ?thesis by (simp add: Len_def unat_of_nat_u32)
qed

lemma window_inv_start:
  "window_inv w \<Longrightarrow> w_buckets w \<noteq> [] \<Longrightarrow> unat (w_start w) < length (w_buckets w)"
  by (auto simp: window_inv_def split: if_splits)

lemma hd_window_contents:
  assumes "window_inv w" and "w_buckets w \<noteq> []"
  shows "hd (window_contents w) = w_buckets w ! unat (w_start w)"
  using assms window_inv_start [OF assms]
  by (simp add: window_contents_def hd_rotate_conv_nth)

lemma window_index:
  assumes "window_inv w" and "i < length (w_buckets w)"
  shows "unat ((w_start w + of_nat i) mod Len w) =
    (unat (w_start w) + i) mod length (w_buckets w)"
proof -
  let ?n = "length (w_buckets w)"
  from assms have ne: "w_buckets w \<noteq> []" and cap: "?n \<le> 2 ^ 31"
    by (auto simp: window_inv_def)
  from window_inv_start [OF assms(1) ne] cap assms(2)
  have i: "unat (of_nat i :: u32) = i" and "unat (w_start w) + i < 2 ^ 32"
    by (simp_all add: unat_of_nat_u32)
  then have "unat (w_start w + of_nat i) = unat (w_start w) + i"
    by (simp add: unat_add_u32)
  then show ?thesis
    by (simp add: unat_mod window_inv_Len [OF assms(1)])
qed

lemma Get_contents:
  assumes "window_inv w" and "i < length (window_contents w)"
  shows "Get w (of_nat i) = Inr (window_contents w ! i)"
proof -
  let ?n = "length (w_buckets w)"
  from assms have i: "i < ?n" and n: "?n < 2 ^ 32" by (simp_all add: window_inv_def)
  then have "\<not> of_nat i \<ge> Len w"
    by (simp add: word_le_nat_alt window_inv_Len [OF assms(1)] unat_of_nat_u32)
  moreover have "(unat (w_start w) + i) mod ?n < ?n"
    using i by (intro mod_less_divisor) auto
  moreover from i have "w_buckets w \<noteq> []" by auto
  ultimately show ?thesis
    using i assms(1)
    by (simp add: Get_def Let_def window_index slice_at_def window_contents_def nth_rotate)
qed

lemma Get_out_of_range:
  "window_inv w \<Longrightarrow> length (window_contents w) \<le> unat i \<Longrightarrow> \<exists>m. Get w i = Inl (Panic m)"
  by (simp add: Get_def Let_def word_le_nat_alt window_inv_Len)

lemma contiguous_snoc:
  "contiguous bs \<Longrightarrow> fits bs b \<Longrightarrow> contiguous (bs @ [b])"
  by (cases "bs = []") (auto simp: contiguous_def fits_def nth_append less_Suc_eq)

lemma contiguous_tl:
  assumes "contiguous (b # bs)"
  shows "contiguous bs"
proof (cases bs)
  case (Cons c cs)
  have "LedgerSeq ((b # bs) ! Suc i) = LedgerSeq b + of_nat (Suc i)" if "i < length bs" for i
    using assms that unfolding contiguous_def by (metis Suc_less_eq length_Cons list.sel(1))
  then have nth: "LedgerSeq (bs ! i) = LedgerSeq b + 1 + of_nat i" if "i < length bs" for i
    using that by simp
  from nth [of 0] Cons have "LedgerSeq (hd bs) = LedgerSeq b + 1" by simp
  with nth show ?thesis by (simp add: contiguous_def)
qed (simp add: contiguous_def)

lemma contiguous_lastn:
  "contiguous bs \<Longrightarrow> contiguous (lastn n bs)"
proof -
  have "contiguous bs \<Longrightarrow> contiguous (drop k bs)" for k
  proof (induction k)
    case (Suc k)
    moreover have "drop (Suc k) bs = tl (drop k bs)" by (simp add: drop_Suc tl_drop)
    ultimately show ?case
      by (cases "drop k bs") (auto dest: contiguous_tl simp del: drop_Suc)
  qed simp
  then show "contiguous bs \<Longrightarrow> contiguous (lastn n bs)" by (simp add: lastn_def)
qed

text \<open>The three outcomes of \<^verbatim>\<open>Append\<close> on a well-formed window.\<close>

lemma fits_iff:
  assumes "window_inv w"
  shows "fits (window_contents w) b \<longleftrightarrow>
    (w_buckets w = [] \<or> LedgerSeq (w_buckets w ! unat (w_start w)) + Len w = LedgerSeq b)"
proof (cases "w_buckets w = []")
  case False
  then have "window_contents w \<noteq> []" by (simp add: window_contents_def)
  with False show ?thesis
    by (auto simp: fits_def Len_def hd_window_contents [OF assms])
qed (simp add: fits_def window_contents_def)

lemma Len_gt_0: "window_inv w \<Longrightarrow> Len w > 0 \<longleftrightarrow> w_buckets w \<noteq> []"
  using window_inv_Len [of w] by (auto simp: word_gt_0 unat_eq_0 Len_def)

lemma Len_less_cap:
  assumes "window_inv w"
  shows "Len w < of_nat (w_cap w) \<longleftrightarrow> length (w_buckets w) < w_cap w"
proof -
  from assms have "w_cap w < 2 ^ 32" by (simp add: window_inv_def)
  then show ?thesis
    by (simp add: word_less_nat_alt window_inv_Len [OF assms] unat_of_nat_u32)
qed

lemma Append_rejects:
  assumes "window_inv w" and "\<not> fits (window_contents w) b"
  shows "\<exists>m. Append w b = Inl (Err m)"
  using assms window_inv_start [OF assms(1)]
  by (auto simp: fits_iff Append_def Let_def slice_at_def Len_gt_0)

lemma Append_grows:
  assumes "window_inv w" and "fits (window_contents w) b" and "length (w_buckets w) < w_cap w"
  shows "Append w b = Inr (None, w\<lparr>w_buckets := w_buckets w @ [b]\<rparr>)"
  using assms window_inv_start [OF assms(1)]
  by (auto simp: fits_iff Append_def Let_def slice_at_def Len_gt_0 Len_less_cap)

lemma Append_evicts:
  assumes "window_inv w" and "fits (window_contents w) b" and "\<not> length (w_buckets w) < w_cap w"
  shows "Append w b =
    Inr (Some (hd (window_contents w)),
         w\<lparr>w_buckets := (w_buckets w)[unat (w_start w) := b],
           w_start := (w_start w + 1) mod Len w\<rparr>)"
proof -
  from assms have ne: "w_buckets w \<noteq> []" by (auto simp: window_inv_def)
  with assms window_inv_start [OF assms(1)] show ?thesis
    by (auto simp: fits_iff Append_def Let_def slice_at_def Len_gt_0 Len_less_cap
        hd_window_contents)
qed

lemma Append_grows_contents:
  assumes "window_inv w" and "length (w_buckets w) < w_cap w"
  shows "window_contents (w\<lparr>w_buckets := w_buckets w @ [b]\<rparr>) = window_contents w @ [b]"
  using assms by (simp add: window_contents_def window_inv_def)

lemma Append_evicts_contents:
  assumes "window_inv w" and "\<not> length (w_buckets w) < w_cap w"
  shows "window_contents (w\<lparr>w_buckets := (w_buckets w)[unat (w_start w) := b],
           w_start := (w_start w + 1) mod Len w\<rparr>) = tl (window_contents w) @ [b]"
proof -
  let ?n = "length (w_buckets w)" and ?k = "unat (w_start w)"
  from assms have ne: "w_buckets w \<noteq> []" and n: "?n \<le> 2 ^ 31" by (auto simp: window_inv_def)
  with window_inv_start [OF assms(1)] have k: "?k < ?n" by simp
  with n have "?k < 2 ^ 32 - 1" by simp
  then have "unat (w_start w + 1) = Suc ?k" by (rule unat_Suc_u32)
  then have "unat ((w_start w + 1) mod Len w) = Suc ?k mod ?n"
    by (simp add: unat_mod window_inv_Len [OF assms(1)])
  then have "rotate (unat ((w_start w + 1) mod Len w)) ((w_buckets w)[?k := b]) =
      rotate (Suc ?k) ((w_buckets w)[?k := b])"
    by (metis length_list_update rotate_conv_mod)
  then show ?thesis
    using update_head_rotate [OF k] by (simp add: window_contents_def del: rotate_Suc)
qed

lemma Append_contents:
  assumes "window_inv w" and "Append w b = Inr (ev, w')"
  shows "fits (window_contents w) b"
    and "window_contents w' = lastn (w_cap w) (window_contents w @ [b])"
    and "w_cap w' = w_cap w"
    and "ev = (if length (w_buckets w) < w_cap w then None else Some (hd (window_contents w)))"
proof -
  show f: "fits (window_contents w) b"
    using Append_rejects [OF assms(1)] assms(2) by fastforce
  show "window_contents w' = lastn (w_cap w) (window_contents w @ [b])"
  proof (cases "length (w_buckets w) < w_cap w")
    case True
    with assms f show ?thesis
      by (auto simp: Append_grows Append_grows_contents lastn_short)
  next
    case False
    with assms(1) have "length (window_contents w) = w_cap w" and "0 < w_cap w"
      by (auto simp: window_inv_def)
    with assms f False show ?thesis
      by (auto simp: Append_evicts Append_evicts_contents lastn_full)
  qed
  show "w_cap w' = w_cap w"
    and "ev = (if length (w_buckets w) < w_cap w then None else Some (hd (window_contents w)))"
    using assms f
    by (cases "length (w_buckets w) < w_cap w"; auto simp: Append_grows Append_evicts)+
qed

lemma Append_inv:
  assumes "window_inv w" and "Append w b = Inr (ev, w')"
  shows "window_inv w'"
proof -
  note c = Append_contents [OF assms]
  have cont: "contiguous (window_contents w')"
    using c(1,2) assms(1) by (simp add: window_inv_def contiguous_snoc contiguous_lastn)
  show ?thesis
  proof (cases "length (w_buckets w) < w_cap w")
    case True
    with assms c(1) have "w' = w\<lparr>w_buckets := w_buckets w @ [b]\<rparr>" by (simp add: Append_grows)
    with True assms(1) cont show ?thesis by (auto simp: window_inv_def)
  next
    case False
    with assms c(1) have w': "w' = w\<lparr>w_buckets := (w_buckets w)[unat (w_start w) := b],
        w_start := (w_start w + 1) mod Len w\<rparr>"
      by (simp add: Append_evicts)
    from False assms(1) have "0 < length (w_buckets w)" by (auto simp: window_inv_def)
    then have "unat ((w_start w + 1) mod Len w) < length (w_buckets w)"
      by (simp add: unat_mod window_inv_Len [OF assms(1)])
    with w' False assms(1) cont show ?thesis by (auto simp: window_inv_def)
  qed
qed

lemma NewLedgerBucketWindow_inv:
  "0 < r \<Longrightarrow> r \<le> 2 ^ 31 \<Longrightarrow> window_inv (NewLedgerBucketWindow r)"
  by (simp add: window_inv_def NewLedgerBucketWindow_def contiguous_def window_contents_def
      word_le_nat_alt unat_gt_0)

lemma NewLedgerBucketWindow_contents [simp]:
  "window_contents (NewLedgerBucketWindow r) = []"
  "w_cap (NewLedgerBucketWindow r) = unat r"
  by (simp_all add: NewLedgerBucketWindow_def window_contents_def)

interpretation lbw: bucket_window Append Get Len window_contents w_cap window_inv
proof
  fix w :: "'a LedgerBucketWindow" and b ev w' and i :: nat
  assume inv: "window_inv w"
  show "unat (Len w) = length (window_contents w)"
    using inv by (simp add: window_inv_Len)
  show "i < length (window_contents w) \<Longrightarrow> Get w (of_nat i) = Inr (window_contents w ! i)"
    using inv by (rule Get_contents)
  show "fits (window_contents w) b \<Longrightarrow> \<exists>ev w'. Append w b = Inr (ev, w')"
    using inv by (cases "length (w_buckets w) < w_cap w") (auto simp: Append_grows Append_evicts)
  show "0 < w_cap w \<and> length (window_contents w) \<le> w_cap w"
    using inv by (simp add: window_inv_def)
  show "Append w b = Inr (ev, w') \<Longrightarrow> fits (window_contents w) b"
    using inv by (rule Append_contents)
  show "Append w b = Inr (ev, w') \<Longrightarrow>
      window_contents w' = lastn (w_cap w) (window_contents w @ [b]) \<and>
      w_cap w' = w_cap w \<and> window_inv w'"
    using inv by (simp add: Append_contents Append_inv)
qed

subsection \<open>The next ledger and the ledger range\<close>

text \<open>The sequence the next bucket must have; any sequence fits an empty window.\<close>

definition next_seq :: "'a LedgerBucket list \<Rightarrow> u32 option" where
  "next_seq bs = (if bs = [] then None else Some (LedgerSeq (last bs) + 1))"

lemma contiguous_last:
  assumes "contiguous bs" and "bs \<noteq> []"
  shows "LedgerSeq (last bs) + 1 = LedgerSeq (hd bs) + of_nat (length bs)"
proof -
  from assms have "LedgerSeq (bs ! (length bs - 1)) = LedgerSeq (hd bs) + of_nat (length bs - 1)"
    by (simp add: contiguous_def)
  with assms(2) show ?thesis by (simp add: last_conv_nth of_nat_diff Suc_leI)
qed

lemma fits_next_seq:
  "contiguous bs \<Longrightarrow> fits bs b \<longleftrightarrow> next_seq bs \<in> {None, Some (LedgerSeq b)}"
  by (cases "bs = []") (auto simp: fits_def next_seq_def contiguous_last)

lemma next_seq_lastn_snoc: "0 < n \<Longrightarrow> next_seq (lastn n (bs @ [b])) = Some (LedgerSeq b + 1)"
  by (simp add: next_seq_def lastn_def last_drop)

lemma GetLedgerRange_contents:
  assumes "window_inv w"
  shows "GetLedgerRange w =
    Inr (if window_contents w = [] then zero_LedgerRange
         else \<lparr>lr_FirstLedger = \<lparr>li_Sequence = LedgerSeq (hd (window_contents w)),
                 li_CloseTime = LedgerCloseTimestamp (hd (window_contents w))\<rparr>,
               lr_LastLedger = \<lparr>li_Sequence = LedgerSeq (last (window_contents w)),
                 li_CloseTime = LedgerCloseTimestamp (last (window_contents w))\<rparr>\<rparr>)"
proof (cases "window_contents w = []")
  case True
  then have "Len w = 0" by (simp add: Len_def window_contents_def)
  with True show ?thesis by (simp add: GetLedgerRange_def)
next
  case False
  let ?n = "length (window_contents w)"
  from False have n: "0 < ?n" by (metis length_greater_0_conv)
  have "Len w \<noteq> 0" using lbw.len_law [OF assms] n by auto
  moreover have "Get w 0 = Inr (hd (window_contents w))"
    using Get_contents [OF assms, of 0] n False by (simp add: hd_conv_nth)
  moreover have "Len w - 1 = of_nat (?n - 1)"
    using n by (simp add: Len_def of_nat_diff Suc_leI)
  then have "Get w (Len w - 1) = Inr (window_contents w ! (?n - 1))"
    using Get_contents [OF assms, of "?n - 1"] n by (metis diff_less zero_less_one)
  then have "Get w (Len w - 1) = Inr (last (window_contents w))"
    using last_conv_nth [OF False] by simp
  ultimately show ?thesis using False by (simp add: GetLedgerRange_def Let_def)
qed

subsection \<open>Properties\<close>

text \<open>C12: Appending to a well-formed window accepts exactly the ledger that continues it (any
  ledger when it is empty); an accepted ledger becomes the newest bucket, the oldest bucket is
  evicted and returned exactly when the window was full, and the window stays well formed. A
  ledger out of sequence is an error, never a panic.\<close>

theorem Append_refines:
  assumes "window_inv w"
  shows "if fits (window_contents w) b
    then \<exists>ev w'. Append w b = Inr (ev, w') \<and> window_inv w' \<and> w_cap w' = w_cap w \<and>
      window_contents w' = lastn (w_cap w) (window_contents w @ [b]) \<and>
      ev = (if length (window_contents w) < w_cap w then None else Some (hd (window_contents w)))
    else \<exists>m. Append w b = Inl (Err m)"
proof (cases "fits (window_contents w) b")
  case True
  with lbw.append_ok [OF assms] obtain ev w' where a: "Append w b = Inr (ev, w')" by blast
  from Append_contents [OF assms a] Append_inv [OF assms a] a True show ?thesis by simp
next
  case False
  with Append_rejects [OF assms] show ?thesis by simp
qed

definition example_window :: "nat LedgerBucketWindow" where
  "example_window =
     \<lparr>w_buckets = [\<lparr>LedgerSeq = 12, LedgerCloseTimestamp = 60, BucketContent = 3\<rparr>,
                   \<lparr>LedgerSeq = 11, LedgerCloseTimestamp = 55, BucketContent = 2\<rparr>],
      w_cap = 2, w_start = 1\<rparr>"

lemma example_window_inv: "window_inv example_window"
  by (auto simp: window_inv_def example_window_def window_contents_def contiguous_def
      less_Suc_eq)

definition example_bucket :: "nat LedgerBucket" where
  "example_bucket = \<lparr>LedgerSeq = 13, LedgerCloseTimestamp = 65, BucketContent = 9\<rparr>"

theorem Append_refines_witness:
  "fits (window_contents example_window) example_bucket \<and>
   (\<exists>ev w'. Append example_window example_bucket = Inr (ev, w') \<and> window_inv w' \<and>
      ev = Some (hd (window_contents example_window)))"
proof -
  have "fits (window_contents example_window) example_bucket"
    by (simp add: fits_def example_window_def example_bucket_def window_contents_def)
  moreover have "\<not> length (window_contents example_window) < w_cap example_window"
    by (simp add: example_window_def)
  ultimately show ?thesis
    using Append_refines [OF example_window_inv, of example_bucket] by auto
qed

text \<open>Reading a well-formed window by index yields its ledgers from the oldest to the newest,
  an index past the end panics, and the reported ledger range is that of the oldest and the
  newest bucket.\<close>

theorem window_reads:
  assumes "window_inv w"
  shows "(\<forall>i < length (window_contents w). Get w (of_nat i) = Inr (window_contents w ! i)) \<and>
    (\<forall>i. length (window_contents w) \<le> unat i \<longrightarrow> (\<exists>m. Get w i = Inl (Panic m))) \<and>
    (window_contents w \<noteq> [] \<longrightarrow>
       (\<exists>r. GetLedgerRange w = Inr r \<and>
          lsr_FirstLedger (ToLedgerSeqRange r) = LedgerSeq (hd (window_contents w)) \<and>
          lsr_LastLedger (ToLedgerSeqRange r) = LedgerSeq (last (window_contents w))))"
  using Get_contents [OF assms] Get_out_of_range [OF assms] GetLedgerRange_contents [OF assms]
  by (simp add: ToLedgerSeqRange_def)

theorem window_reads_witness:
  "Get example_window 1 = Inr (window_contents example_window ! 1) \<and>
   LedgerSeq (window_contents example_window ! 1) = 12"
proof -
  have "1 < length (window_contents example_window)" by (simp add: example_window_def)
  with window_reads [OF example_window_inv] show ?thesis
    by (fastforce simp: example_window_def window_contents_def)
qed

end
