(* ===== verification/LedgerMeta.thy ===== *)
theory LedgerMeta
  imports Prelude
begin

text \<open>
  Values of the packages \<^verbatim>\<open>stellar/go/xdr\<close> and \<^verbatim>\<open>stellar/go/ingest\<close> as this program sees
  them. An object of those packages is the record of the answers it gives to the accessors
  the program calls: nothing relates two answers unless a theorem assumes it, so a statement
  about all records is a statement about every behaviour of the packages. Smart-contract
  values (\<^verbatim>\<open>xdr.ScVal\<close>) are a type parameter.
\<close>

subsection \<open>Contract events\<close>

record 'v ContractEventV0 =
  v0_Topics :: "'v list"
  v0_Data :: 'v

text \<open>\<^verbatim>\<open>Body.GetV0()\<close> answers \<open>None\<close> for an unknown body version.\<close>

record 'v ContractEvent =
  ce_ContractId :: "bytes option"
  ce_Type :: int
  ce_Body :: "'v ContractEventV0 option"

record 'v DiagnosticEvent =
  de_InSuccessfulContractCall :: bool
  de_Event :: "'v ContractEvent"

text \<open>\<^verbatim>\<open>ingest.TransactionEvents\<close>\<close>

record 'v TransactionEvents =
  te_DiagnosticEvents :: "'v DiagnosticEvent list"
  te_OperationEvents :: "'v ContractEvent list list"
  te_TransactionEvents :: "'v ContractEvent list"

text \<open>The numbers of \<^verbatim>\<open>xdr.ContractEventType\<close>.\<close>

definition ContractEventTypeSystem :: int where
  "ContractEventTypeSystem = 0"

definition ContractEventTypeContract :: int where
  "ContractEventTypeContract = 1"

definition ContractEventTypeDiagnostic :: int where
  "ContractEventTypeDiagnostic = 2"

lemmas event_type_defs =
  ContractEventTypeSystem_def ContractEventTypeContract_def ContractEventTypeDiagnostic_def

subsection \<open>Transactions\<close>

datatype OperationType =
  InvokeHostFunction | ExtendFootprintTtl | RestoreFootprint | OtherOperation string

text \<open>
  \<^verbatim>\<open>ingest.LedgerTransaction\<close>. The two Soroban fields hold the fee pair
  (non-refundable, refundable) of the meta's \<^verbatim>\<open>SorobanMeta.Ext.V1\<close>, or \<open>None\<close> where
  \<^verbatim>\<open>SorobanMeta\<close> is nil or its extension has another version.
\<close>

record 'v LedgerTransaction =
  tx_Index :: u32
  tx_TransactionHash :: bytes
  tx_InnerHash :: bytes
  tx_IsFeeBump :: bool
  tx_Successful :: bool
  tx_FeeCharged :: i64
  tx_Operations :: "OperationType list"
  tx_MetaV :: int
  tx_MetaV3_SorobanExtV1 :: "(i64 \<times> i64) option"
  tx_MetaV4_SorobanExtV1 :: "(i64 \<times> i64) option"
  tx_GetTransactionEvents :: "'v TransactionEvents res"
  tx_ResultXDR :: "bytes res"
  tx_MetaXDR :: "bytes res"
  tx_EnvelopeXDR :: "bytes res"

subsection \<open>Ledgers\<close>

text \<open>
  \<^verbatim>\<open>xdr.LedgerCloseMeta\<close>. The field \<open>lcm_Reader\<close> is what
  \<^verbatim>\<open>ingest.NewLedgerTransactionReaderFromLedgerCloseMeta\<close> answers for a network
  passphrase: an error, or the results of the successive \<^verbatim>\<open>Read\<close> calls up to \<^verbatim>\<open>io.EOF\<close>.
\<close>

record 'v LedgerCloseMeta =
  lcm_LedgerSequence :: u32
  lcm_LedgerCloseTime :: i64
  lcm_LedgerHash :: bytes
  lcm_CountTransactions :: nat
  lcm_Reader :: "string \<Rightarrow> ('v LedgerTransaction res list) res"
  lcm_Seek :: "string \<Rightarrow> int \<Rightarrow> ('v LedgerTransaction res list) res"
    \<comment> \<open>the results of \<^verbatim>\<open>Read\<close> after \<^verbatim>\<open>Seek(i)\<close> on that reader\<close>
  lcm_MarshalBinary :: "bytes res"
  lcm_HeaderMarshalBinary :: "bytes res"
    \<comment> \<open>\<^verbatim>\<open>LedgerHeaderHistoryEntry().MarshalBinary()\<close>\<close>
  lcm_V :: int
  lcm_LedgerVersion :: u32
  lcm_TotalByteSizeOfLiveSorobanState :: u64

text \<open>
  The reader is well behaved for a passphrase when it opens, yields exactly the counted
  transactions, numbers them from one and seeks to any of them: what the documentation of
  the package promises for a ledger of the network the passphrase names.
\<close>

definition reads_txs :: "string \<Rightarrow> 'v LedgerCloseMeta \<Rightarrow> 'v LedgerTransaction list \<Rightarrow> bool" where
  "reads_txs passphrase meta txs \<longleftrightarrow>
     lcm_Reader meta passphrase = Inr (map Inr txs) \<and>
     lcm_CountTransactions meta = length txs \<and>
     (\<forall>i < length txs. tx_Index (txs ! i) = of_nat (Suc i) \<and>
        lcm_Seek meta passphrase (int i) = Inr (map Inr (drop i txs)))"

text \<open>\<^verbatim>\<open>errors.Join\<close> of an error and an optional second one.\<close>

fun join_err :: "go_error \<Rightarrow> go_error option \<Rightarrow> go_error" where
  "join_err (Err m) (Some (Err n)) = Err (m @ [CHR 0x0A] @ n)"
| "join_err (Err m) (Some (Panic n)) = Panic n"
| "join_err e None = e"
| "join_err (Panic m) _ = Panic m"

end
