(* ===== verification/FeeWindow.thy ===== *)
theory FeeWindow
  imports LedgerBuckets LedgerMeta
begin

text \<open>
  \<^verbatim>\<open>internal/feewindow/feewindow.go\<close>: the fee statistics of the last ledgers. Fees are
  64-bit words. \<open>computeFeeDistribution\<close> sorts the fees and computes the mode in one pass and
  the percentiles by nearest rank; \<open>AppendLedgerFees\<close> feeds a ledger to the window of
  buckets and recomputes the distribution; \<open>IngestFees\<close> classifies the transactions of a
  ledger and feeds the classic and the Soroban window.
\<close>

subsection \<open>Distributions\<close>

record FeeDistribution =
  fd_Max :: u64
  fd_Min :: u64
  fd_Mode :: u64
  fd_P10 :: u64
  fd_P20 :: u64
  fd_P30 :: u64
  fd_P40 :: u64
  fd_P50 :: u64
  fd_P60 :: u64
  fd_P70 :: u64
  fd_P80 :: u64
  fd_P90 :: u64
  fd_P95 :: u64
  fd_P99 :: u64
  fd_FeeCount :: u32
  fd_LedgerCount :: u32

definition zero_FeeDistribution :: FeeDistribution where
  "zero_FeeDistribution =
     \<lparr>fd_Max = 0, fd_Min = 0, fd_Mode = 0, fd_P10 = 0, fd_P20 = 0, fd_P30 = 0, fd_P40 = 0,
      fd_P50 = 0, fd_P60 = 0, fd_P70 = 0, fd_P80 = 0, fd_P90 = 0, fd_P95 = 0, fd_P99 = 0,
      fd_FeeCount = 0, fd_LedgerCount = 0\<rparr>"

text \<open>The loop over the sorted fees after the first: mode, last value, longest and current run.\<close>

fun mode_loop :: "u64 list \<Rightarrow> u64 \<Rightarrow> u64 \<Rightarrow> nat \<Rightarrow> nat \<Rightarrow> u64 \<times> u64 \<times> nat \<times> nat" where
  "mode_loop [] mode lastVal maxRep localRep = (mode, lastVal, maxRep, localRep)"
| "mode_loop (f # fs) mode lastVal maxRep localRep =
     (if f = lastVal then mode_loop fs mode lastVal maxRep (Suc localRep)
      else if localRep > maxRep then mode_loop fs lastVal f localRep 0
      else mode_loop fs mode f maxRep 0)"

definition fee_mode :: "u64 list \<Rightarrow> u64" where
  "fee_mode fees =
     (case mode_loop (tl fees) (hd fees) (hd fees) 0 0 of
        (mode, _, maxRep, localRep) \<Rightarrow> if localRep > maxRep then last fees else mode)"

definition percentile :: "u64 list \<Rightarrow> u64 \<Rightarrow> u64 res" where
  "percentile fees p =
     (let kth = (p * of_nat (length fees) + 100 - 1) div 100
      in slice_at fees (unat (kth - 1)))"

definition computeFeeDistribution :: "u64 list \<Rightarrow> u32 \<Rightarrow> FeeDistribution res" where
  "computeFeeDistribution fees0 ledgerCount =
     (if fees0 = [] then Inr zero_FeeDistribution
      else let fees = sort fees0 in
        bind_res (percentile fees 10) (\<lambda>p10. bind_res (percentile fees 20) (\<lambda>p20.
        bind_res (percentile fees 30) (\<lambda>p30. bind_res (percentile fees 40) (\<lambda>p40.
        bind_res (percentile fees 50) (\<lambda>p50. bind_res (percentile fees 60) (\<lambda>p60.
        bind_res (percentile fees 70) (\<lambda>p70. bind_res (percentile fees 80) (\<lambda>p80.
        bind_res (percentile fees 90) (\<lambda>p90. bind_res (percentile fees 95) (\<lambda>p95.
        bind_res (percentile fees 99) (\<lambda>p99.
          Inr \<lparr>fd_Max = last fees, fd_Min = hd fees, fd_Mode = fee_mode fees,
               fd_P10 = p10, fd_P20 = p20, fd_P30 = p30, fd_P40 = p40, fd_P50 = p50,
               fd_P60 = p60, fd_P70 = p70, fd_P80 = p80, fd_P90 = p90, fd_P95 = p95,
               fd_P99 = p99, fd_FeeCount = of_nat (length fees),
               fd_LedgerCount = ledgerCount\<rparr>))))))))))))"

subsection \<open>Windows\<close>

type_synonym fee_bucket = "u64 list LedgerBucket"

record FeeWindow =
  fw_feesPerLedger :: "u64 list LedgerBucketWindow"
  fw_distribution :: FeeDistribution

definition NewFeeWindow :: "u32 \<Rightarrow> FeeWindow" where
  "NewFeeWindow retentionWindow =
     \<lparr>fw_feesPerLedger = NewLedgerBucketWindow retentionWindow,
      fw_distribution = zero_FeeDistribution\<rparr>"

definition AppendLedgerFees :: "FeeWindow \<Rightarrow> fee_bucket \<Rightarrow> FeeWindow res" where
  "AppendLedgerFees fw fees =
     bind_res (Append (fw_feesPerLedger fw) fees) (\<lambda>(_, window).
     bind_res (traverse (\<lambda>i. Get window (of_nat i)) [0..<unat (Len window)]) (\<lambda>bs.
     bind_res (computeFeeDistribution (concat (map BucketContent bs)) (Len window)) (\<lambda>d.
       Inr (fw\<lparr>fw_feesPerLedger := window, fw_distribution := d\<rparr>))))"

definition GetFeeDistribution :: "FeeWindow \<Rightarrow> FeeDistribution" where
  "GetFeeDistribution fw = fw_distribution fw"

record FeeWindows =
  fws_SorobanInclusionFeeWindow :: FeeWindow
  fws_ClassicFeeWindow :: FeeWindow
  fws_networkPassPhrase :: string

definition NewFeeWindows :: "u32 \<Rightarrow> u32 \<Rightarrow> string \<Rightarrow> FeeWindows" where
  "NewFeeWindows classicRetention sorobanRetention networkPassPhrase =
     \<lparr>fws_SorobanInclusionFeeWindow = NewFeeWindow sorobanRetention,
      fws_ClassicFeeWindow = NewFeeWindow classicRetention,
      fws_networkPassPhrase = networkPassPhrase\<rparr>"

text \<open>
  What one transaction contributes: nothing, a fee per operation for the classic window, or
  an inclusion fee for the Soroban window.
\<close>

datatype fee_kind = NoFee | ClassicFee u64 | SorobanFee u64

definition soroban_fees :: "'v LedgerTransaction \<Rightarrow> (i64 \<times> i64) option" where
  "soroban_fees tx =
     (if tx_MetaV tx = 3 then tx_MetaV3_SorobanExtV1 tx
      else if tx_MetaV tx = 4 then tx_MetaV4_SorobanExtV1 tx
      else None)"

definition classify_fee :: "'v LedgerTransaction \<Rightarrow> fee_kind" where
  "classify_fee tx =
     (let feeCharged = word_of_int (tx_FeeCharged tx); ops = tx_Operations tx in
      if ops = [] then NoFee
      else if length ops = 1 \<and> hd ops \<in> {InvokeHostFunction, ExtendFootprintTtl, RestoreFootprint}
      then (case soroban_fees tx of
              None \<Rightarrow> NoFee
            | Some (nonRefundable, refundable) \<Rightarrow>
                SorobanFee (feeCharged - word_of_int (nonRefundable + refundable)))
      else ClassicFee (feeCharged div of_nat (length ops)))"

text \<open>The loop over the transactions: classic and Soroban fees in reading order.\<close>

fun collect_fees :: "'v LedgerTransaction res list \<Rightarrow> (u64 list \<times> u64 list) res" where
  "collect_fees [] = Inr ([], [])"
| "collect_fees (Inl e # rs) = Inl e"
| "collect_fees (Inr tx # rs) =
     bind_res (collect_fees rs) (\<lambda>(classic, soroban).
       case classify_fee tx of
         NoFee \<Rightarrow> Inr (classic, soroban)
       | ClassicFee f \<Rightarrow> Inr (f # classic, soroban)
       | SorobanFee f \<Rightarrow> Inr (classic, f # soroban))"

text \<open>
  \<^verbatim>\<open>IngestFees\<close> with the answer of \<^verbatim>\<open>fw.db.Rollback()\<close> as a parameter. The windows are
  returned with the error, because the classic window has already taken the ledger when the
  Soroban window rejects it.
\<close>

definition IngestFees ::
  "go_error option \<Rightarrow> FeeWindows \<Rightarrow> 'v LedgerCloseMeta \<Rightarrow> go_error option \<times> FeeWindows" where
  "IngestFees rollback fw meta =
     (case bind_res (lcm_Reader meta (fws_networkPassPhrase fw)) collect_fees of
        Inl e \<Rightarrow> (Some (join_err e rollback), fw)
      | Inr (classicFees, sorobanInclusionFees) \<Rightarrow>
          let bucket = \<lparr>LedgerSeq = lcm_LedgerSequence meta,
                        LedgerCloseTimestamp = lcm_LedgerCloseTime meta,
                        BucketContent = classicFees\<rparr>
          in case AppendLedgerFees (fws_ClassicFeeWindow fw) bucket of
               Inl e \<Rightarrow> (Some (join_err e rollback), fw)
             | Inr classic \<Rightarrow>
                 let fw' = fw\<lparr>fws_ClassicFeeWindow := classic\<rparr>
                 in case AppendLedgerFees (fws_SorobanInclusionFeeWindow fw')
                           (bucket\<lparr>BucketContent := sorobanInclusionFees\<rparr>) of
                      Inl e \<Rightarrow> (Some (join_err e rollback), fw')
                    | Inr soroban \<Rightarrow>
                        (None, fw'\<lparr>fws_SorobanInclusionFeeWindow := soroban\<rparr>))"

subsection \<open>Percentiles by nearest rank\<close>

text \<open>
  The smallest value such that at least \<open>p\<close> percent of the fees are not above it: the
  specification of a nearest-rank percentile.
\<close>

definition nearest_rank :: "u64 list \<Rightarrow> nat \<Rightarrow> u64 \<Rightarrow> bool" where
  "nearest_rank fees p v \<longleftrightarrow>
     v \<in> set fees \<and>
     p * length fees \<le> 100 * length (filter (\<lambda>x. x \<le> v) fees) \<and>
     100 * length (filter (\<lambda>x. x < v) fees) < p * length fees"

lemma nearest_rank_unique:
  assumes "nearest_rank fees p v" and "nearest_rank fees p w"
  shows "v = w"
proof -
  have le: "w \<le> v" if "nearest_rank fees p v" "nearest_rank fees p w" for v w
  proof (rule ccontr)
    assume "\<not> w \<le> v"
    then have "length (filter (\<lambda>x. x \<le> v) fees) \<le> length (filter (\<lambda>x. x < w) fees)"
      by (intro length_filter_imp) auto
    with that show False by (simp add: nearest_rank_def)
  qed
  from le [OF assms] le [OF assms(2,1)] show ?thesis by simp
qed

lemma nearest_rank_sort [simp]: "nearest_rank (sort fees) p v \<longleftrightarrow> nearest_rank fees p v"
  by (simp add: nearest_rank_def filter_sort)

text \<open>The rank \<open>ceiling (p * n / 100)\<close> as the code computes it, in 64 bits.\<close>

lemma rank_unat:
  assumes "0 < p" and "p \<le> 100" and "0 < n" and "n < 2 ^ 57"
  shows "unat (((of_nat p :: u64) * of_nat n + 100 - 1) div 100 - 1) = (p * n + 99) div 100 - 1"
    and "(p * n + 99) div 100 - 1 < n"
proof -
  have pn: "p * n \<le> 100 * n" "0 < p * n" using assms by simp_all
  from assms(4) have "100 * n + 99 < 2 ^ 64" by simp
  with pn(1) have b: "p * n + 99 < 2 ^ 64" by linarith
  have "((of_nat p :: u64) * of_nat n + 100 - 1) = of_nat (p * n + 99)" by simp
  moreover have "unat (of_nat (p * n + 99) :: u64) = p * n + 99"
    using b by (simp add: unat_of_nat take_bit_nat_eq_self_iff del: of_nat_add of_nat_mult)
  ultimately have k: "unat (((of_nat p :: u64) * of_nat n + 100 - 1) div 100) =
      (p * n + 99) div 100"
    by (simp add: unat_div del: of_nat_add of_nat_mult)
  have pos: "1 \<le> (p * n + 99) div 100" using pn by linarith
  then have "(1 :: u64) \<le> ((of_nat p :: u64) * of_nat n + 100 - 1) div 100"
    by (simp only: word_le_nat_alt k unat_1)
  then show "unat (((of_nat p :: u64) * of_nat n + 100 - 1) div 100 - 1) =
      (p * n + 99) div 100 - 1"
    by (simp only: unat_sub k unat_1)
  from pn assms(3) show "(p * n + 99) div 100 - 1 < n" by linarith
qed

lemma percentile_nearest_rank:
  assumes "fees \<noteq> []" and "length fees < 2 ^ 57" and "0 < p" and "p \<le> 100" and "sorted fees"
  shows "\<exists>v. percentile fees (of_nat p) = Inr v \<and> nearest_rank fees p v"
proof -
  let ?n = "length fees"
  let ?k = "(p * ?n + 99) div 100 - 1"
  have n: "0 < ?n" using assms by simp
  note r = rank_unat [OF assms(3,4) n assms(2)]
  have "percentile fees (of_nat p) = Inr (fees ! ?k)"
    using r by (simp add: percentile_def slice_at_def Let_def)
  moreover have "nearest_rank fees p (fees ! ?k)"
    unfolding nearest_rank_def
  proof (intro conjI)
    show "fees ! ?k \<in> set fees" using r(2) by simp
    have "Suc ?k \<le> length (filter (\<lambda>x. x \<le> fees ! ?k) fees)"
      using assms(5) r(2) by (rule sorted_nth_count_le)
    then show "p * ?n \<le> 100 * length (filter (\<lambda>x. x \<le> fees ! ?k) fees)" by linarith
    have "length (filter (\<lambda>x. x < fees ! ?k) fees) \<le> ?k"
      using assms(5) r(2) by (rule sorted_nth_count_less)
    moreover have "0 < p * ?n" using assms(3) n by simp
    ultimately show "100 * length (filter (\<lambda>x. x < fees ! ?k) fees) < p * ?n" by linarith
  qed
  ultimately show ?thesis by blast
qed

subsection \<open>The mode\<close>

text \<open>The most frequent fee, the smallest one among equally frequent fees.\<close>

definition is_mode :: "u64 list \<Rightarrow> u64 \<Rightarrow> bool" where
  "is_mode fees m \<longleftrightarrow>
     m \<in> set fees \<and>
     (\<forall>x \<in> set fees. count_list fees x \<le> count_list fees m \<and>
        (count_list fees x = count_list fees m \<longrightarrow> m \<le> x))"

text \<open>The loop's invariant after the sorted prefix \<open>xs\<close>.\<close>

definition mode_inv :: "u64 list \<Rightarrow> u64 \<Rightarrow> u64 \<Rightarrow> nat \<Rightarrow> nat \<Rightarrow> bool" where
  "mode_inv xs mode lastVal maxRep localRep \<longleftrightarrow>
     lastVal \<in> set xs \<and> (\<forall>x \<in> set xs. x \<le> lastVal) \<and> mode \<in> set xs \<and>
     count_list xs lastVal = Suc localRep \<and>
     (\<forall>x \<in> set xs. x \<noteq> lastVal \<longrightarrow> count_list xs x \<le> Suc maxRep) \<and>
     (if mode = lastVal then set xs = {mode} \<and> maxRep = 0
      else count_list xs mode = Suc maxRep \<and>
           (\<forall>x \<in> set xs. x \<noteq> lastVal \<and> count_list xs x = Suc maxRep \<longrightarrow> mode \<le> x))"

lemma count_list_absent: "x \<notin> set xs \<Longrightarrow> count_list xs x = 0"
  by (simp add: count_list_0_iff)

lemma mode_inv_repeat:
  "mode_inv xs m l mx lc \<Longrightarrow> mode_inv (xs @ [l]) m l mx (Suc lc)"
  by (auto simp: mode_inv_def split: if_splits)

lemma mode_inv_new:
  assumes "mode_inv xs m l mx lc" and "l < f"
  shows "mode_inv (xs @ [f]) (if lc > mx then l else m) f (if lc > mx then lc else mx) 0"
proof -
  from assms have f: "f \<notin> set xs" and lf: "l \<noteq> f"
    by (auto simp: mode_inv_def)
  then have cf: "count_list xs f = 0" by (simp add: count_list_absent)
  have m: "m \<in> set xs" "m \<le> l" "l \<in> set xs" using assms by (auto simp: mode_inv_def)
  with assms(2) have mf: "m \<noteq> f" by auto
  show ?thesis
  proof (cases "m = l")
    case True
    with assms have "set xs = {l}" and "mx = 0" and "count_list xs l = Suc lc"
      by (auto simp: mode_inv_def)
    with True assms(2) cf lf show ?thesis by (auto simp: mode_inv_def)
  next
    case False
    with assms m f cf lf mf show ?thesis
      by (auto simp: mode_inv_def le_Suc_eq)
  qed
qed

lemma mode_loop_inv:
  assumes "sorted (xs @ fs)" and "mode_inv xs m l mx lc"
    and "mode_loop fs m l mx lc = (m', l', mx', lc')"
  shows "mode_inv (xs @ fs) m' l' mx' lc'"
  using assms
proof (induction fs arbitrary: xs m l mx lc)
  case Nil
  then show ?case by simp
next
  case (Cons f fs)
  have "l \<in> set xs" using Cons.prems(2) by (simp add: mode_inv_def)
  with Cons.prems(1) have "l \<le> f" by (auto simp: sorted_append)
  show ?case
  proof (cases "f = l")
    case True
    with mode_inv_repeat [OF Cons.prems(2)] Cons.IH [of "xs @ [f]"] Cons.prems
    show ?thesis by auto
  next
    case False
    with \<open>l \<le> f\<close> have "l < f" by simp
    from mode_inv_new [OF Cons.prems(2) this] Cons.IH [of "xs @ [f]"] Cons.prems False
    show ?thesis by (auto split: if_splits)
  qed
qed

lemma fee_mode_is_mode:
  assumes "sorted fees" and "fees \<noteq> []"
  shows "is_mode fees (fee_mode fees)"
proof -
  obtain f fs where fees: "fees = f # fs" using assms(2) by (cases fees) auto
  obtain m l mx lc where loop: "mode_loop fs f f 0 0 = (m, l, mx, lc)"
    by (metis prod_cases4)
  have "mode_inv [f] f f 0 0" by (simp add: mode_inv_def)
  with mode_loop_inv [of "[f]" fs f f 0 0] assms(1) loop fees
  have inv: "mode_inv fees m l mx lc" by simp
  have "last fees = l"
    using inv assms sorted_le_last [OF assms(1), of l]
    by (auto simp: mode_inv_def intro: antisym)
  then have "fee_mode fees = (if lc > mx then l else m)"
    using loop fees by (simp add: fee_mode_def)
  moreover have "is_mode fees (if lc > mx then l else m)"
    using inv by (auto simp: is_mode_def mode_inv_def le_Suc_eq split: if_splits)
  ultimately show ?thesis by simp
qed

subsection \<open>The distribution of a list of fees\<close>

definition is_distribution :: "u64 list \<Rightarrow> u32 \<Rightarrow> FeeDistribution \<Rightarrow> bool" where
  "is_distribution fees ledgers d \<longleftrightarrow>
     fd_Max d = Max (set fees) \<and> fd_Min d = Min (set fees) \<and> is_mode fees (fd_Mode d) \<and>
     nearest_rank fees 10 (fd_P10 d) \<and> nearest_rank fees 20 (fd_P20 d) \<and>
     nearest_rank fees 30 (fd_P30 d) \<and> nearest_rank fees 40 (fd_P40 d) \<and>
     nearest_rank fees 50 (fd_P50 d) \<and> nearest_rank fees 60 (fd_P60 d) \<and>
     nearest_rank fees 70 (fd_P70 d) \<and> nearest_rank fees 80 (fd_P80 d) \<and>
     nearest_rank fees 90 (fd_P90 d) \<and> nearest_rank fees 95 (fd_P95 d) \<and>
     nearest_rank fees 99 (fd_P99 d) \<and>
     fd_FeeCount d = of_nat (length fees) \<and> fd_LedgerCount d = ledgers"

lemma count_list_sort [simp]: "count_list (sort fees) x = count_list fees x"
  by (metis count_mset mset_sort)

lemma is_mode_sort [simp]: "is_mode (sort fees) m \<longleftrightarrow> is_mode fees m"
  by (simp add: is_mode_def)

lemma sorted_hd_Min: "sorted xs \<Longrightarrow> xs \<noteq> [] \<Longrightarrow> hd xs = Min (set xs)"
  by (cases xs) (auto intro!: Min_eqI [symmetric])

lemma sorted_last_Max: "sorted xs \<Longrightarrow> xs \<noteq> [] \<Longrightarrow> last xs = Max (set xs)"
  by (auto intro!: Max_eqI [symmetric] sorted_le_last)

lemma percentile_ok:
  assumes "fees \<noteq> []" and "length fees < 2 ^ 57" and "0 < p" and "p \<le> 100"
  obtains v where "percentile (sort fees) (of_nat p) = Inr v" and "nearest_rank fees p v"
  using percentile_nearest_rank [of "sort fees" p] assms by auto

lemma computeFeeDistribution_ok:
  assumes ne: "fees \<noteq> []" and small: "length fees < 2 ^ 57"
  shows "\<exists>d. computeFeeDistribution fees n = Inr d \<and> is_distribution fees n d"
proof -
  note pc = percentile_ok [OF ne small]
  obtain p10 where 10: "percentile (sort fees) 10 = Inr p10" "nearest_rank fees 10 p10"
    using pc [of 10] by auto
  obtain p20 where 20: "percentile (sort fees) 20 = Inr p20" "nearest_rank fees 20 p20"
    using pc [of 20] by auto
  obtain p30 where 30: "percentile (sort fees) 30 = Inr p30" "nearest_rank fees 30 p30"
    using pc [of 30] by auto
  obtain p40 where 40: "percentile (sort fees) 40 = Inr p40" "nearest_rank fees 40 p40"
    using pc [of 40] by auto
  obtain p50 where 50: "percentile (sort fees) 50 = Inr p50" "nearest_rank fees 50 p50"
    using pc [of 50] by auto
  obtain p60 where 60: "percentile (sort fees) 60 = Inr p60" "nearest_rank fees 60 p60"
    using pc [of 60] by auto
  obtain p70 where 70: "percentile (sort fees) 70 = Inr p70" "nearest_rank fees 70 p70"
    using pc [of 70] by auto
  obtain p80 where 80: "percentile (sort fees) 80 = Inr p80" "nearest_rank fees 80 p80"
    using pc [of 80] by auto
  obtain p90 where 90: "percentile (sort fees) 90 = Inr p90" "nearest_rank fees 90 p90"
    using pc [of 90] by auto
  obtain p95 where 95: "percentile (sort fees) 95 = Inr p95" "nearest_rank fees 95 p95"
    using pc [of 95] by auto
  obtain p99 where 99: "percentile (sort fees) 99 = Inr p99" "nearest_rank fees 99 p99"
    using pc [of 99] by auto
  have "is_mode fees (fee_mode (sort fees))"
    using fee_mode_is_mode [of "sort fees"] ne by simp
  then show ?thesis
    using ne 10 20 30 40 50 60 70 80 90 95 99
    by (simp add: computeFeeDistribution_def is_distribution_def sorted_hd_Min sorted_last_Max)
qed

subsection \<open>The window's invariant\<close>

definition all_fees :: "fee_bucket list \<Rightarrow> u64 list" where
  "all_fees bs = concat (map BucketContent bs)"

abbreviation fw_contents :: "FeeWindow \<Rightarrow> fee_bucket list" where
  "fw_contents fw \<equiv> window_contents (fw_feesPerLedger fw)"

text \<open>The stored distribution is the one of the buckets in the window.\<close>

definition fee_window_inv :: "FeeWindow \<Rightarrow> bool" where
  "fee_window_inv fw \<longleftrightarrow>
     window_inv (fw_feesPerLedger fw) \<and>
     computeFeeDistribution (all_fees (fw_contents fw)) (of_nat (length (fw_contents fw))) =
       Inr (fw_distribution fw)"

lemma NewFeeWindow_inv:
  "0 < r \<Longrightarrow> r \<le> 2 ^ 31 \<Longrightarrow> fee_window_inv (NewFeeWindow r)"
  by (simp add: fee_window_inv_def NewFeeWindow_def NewLedgerBucketWindow_inv all_fees_def
      computeFeeDistribution_def)

lemma length_all_fees_lastn: "length (all_fees (lastn n bs)) \<le> length (all_fees bs)"
proof -
  let ?k = "length bs - n"
  have "all_fees bs = all_fees (take ?k bs) @ all_fees (drop ?k bs)"
    unfolding all_fees_def by (metis append_take_drop_id concat_append map_append)
  then show ?thesis by (simp add: lastn_def)
qed

lemma AppendLedgerFees_ok:
  assumes inv: "fee_window_inv fw" and fit: "fits (fw_contents fw) b"
    and small: "length (all_fees (fw_contents fw @ [b])) < 2 ^ 57"
  shows "\<exists>fw'. AppendLedgerFees fw b = Inr fw' \<and> fee_window_inv fw' \<and>
    fw_contents fw' = lastn (w_cap (fw_feesPerLedger fw)) (fw_contents fw @ [b]) \<and>
    w_cap (fw_feesPerLedger fw') = w_cap (fw_feesPerLedger fw)"
proof -
  from inv have w: "window_inv (fw_feesPerLedger fw)" by (simp add: fee_window_inv_def)
  from lbw.append_ok [OF w fit] obtain ev v where v: "Append (fw_feesPerLedger fw) b = Inr (ev, v)"
    by blast
  note c = lbw.append_law [OF w v]
  have len: "Len v = of_nat (length (window_contents v))" by (simp add: Len_def)
  have "length (all_fees (window_contents v)) < 2 ^ 57"
    using le_less_trans [OF length_all_fees_lastn small] c by simp
  then obtain d where
    d: "computeFeeDistribution (all_fees (window_contents v)) (Len v) = Inr d"
    using computeFeeDistribution_ok [of "all_fees (window_contents v)" "Len v"]
    by (cases "all_fees (window_contents v) = []") (auto simp: computeFeeDistribution_def)
  have "AppendLedgerFees fw b = Inr (fw\<lparr>fw_feesPerLedger := v, fw_distribution := d\<rparr>)"
    using v d lbw.read_all [of v] c by (simp add: AppendLedgerFees_def all_fees_def)
  with c d len show ?thesis
    by (simp add: fee_window_inv_def del: length_window_contents)
qed

lemma AppendLedgerFees_rejects:
  assumes "fee_window_inv fw" and "\<not> fits (fw_contents fw) b"
  shows "\<exists>m. AppendLedgerFees fw b = Inl (Err m)"
  using Append_rejects [of "fw_feesPerLedger fw" b] assms
  by (auto simp: AppendLedgerFees_def fee_window_inv_def)

subsection \<open>The two windows stay in step\<close>

text \<open>Both windows expect the same next ledger.\<close>

definition in_sync :: "FeeWindows \<Rightarrow> bool" where
  "in_sync fw \<longleftrightarrow>
     next_seq (fw_contents (fws_ClassicFeeWindow fw)) =
     next_seq (fw_contents (fws_SorobanInclusionFeeWindow fw))"

definition fee_windows_inv :: "FeeWindows \<Rightarrow> bool" where
  "fee_windows_inv fw \<longleftrightarrow>
     fee_window_inv (fws_ClassicFeeWindow fw) \<and>
     fee_window_inv (fws_SorobanInclusionFeeWindow fw) \<and> in_sync fw"

abbreviation ledger_bucket :: "'v LedgerCloseMeta \<Rightarrow> u64 list \<Rightarrow> fee_bucket" where
  "ledger_bucket meta fees \<equiv>
     \<lparr>LedgerSeq = lcm_LedgerSequence meta, LedgerCloseTimestamp = lcm_LedgerCloseTime meta,
      BucketContent = fees\<rparr>"

text \<open>No window ever holds anything near \<open>2 ^ 57\<close> fees.\<close>

definition fees_small :: "FeeWindows \<Rightarrow> u64 list \<Rightarrow> u64 list \<Rightarrow> bool" where
  "fees_small fw classic soroban \<longleftrightarrow>
     length (all_fees (fw_contents (fws_ClassicFeeWindow fw))) + length classic < 2 ^ 57 \<and>
     length (all_fees (fw_contents (fws_SorobanInclusionFeeWindow fw))) + length soroban < 2 ^ 57"

lemma fits_bucket_next:
  assumes "fee_window_inv fw"
  shows "fits (fw_contents fw) (ledger_bucket meta fees) \<longleftrightarrow>
    next_seq (fw_contents fw) \<in> {None, Some (lcm_LedgerSequence meta)}"
  using assms by (simp add: fits_next_seq fee_window_inv_def window_inv_def)

lemma cap_pos: "fee_window_inv fw \<Longrightarrow> 0 < w_cap (fw_feesPerLedger fw)"
  by (simp add: fee_window_inv_def window_inv_def)

lemma IngestFees_ok:
  assumes inv: "fee_windows_inv fw"
    and read: "bind_res (lcm_Reader meta (fws_networkPassPhrase fw)) collect_fees = Inr (cs, ss)"
    and nxt: "next_seq (fw_contents (fws_ClassicFeeWindow fw)) \<in> {None, Some (lcm_LedgerSequence meta)}"
    and small: "fees_small fw cs ss"
  shows "\<exists>fw'. IngestFees rollback fw meta = (None, fw') \<and> fee_windows_inv fw' \<and>
    fw_contents (fws_ClassicFeeWindow fw') =
      lastn (w_cap (fw_feesPerLedger (fws_ClassicFeeWindow fw)))
        (fw_contents (fws_ClassicFeeWindow fw) @ [ledger_bucket meta cs]) \<and>
    fw_contents (fws_SorobanInclusionFeeWindow fw') =
      lastn (w_cap (fw_feesPerLedger (fws_SorobanInclusionFeeWindow fw)))
        (fw_contents (fws_SorobanInclusionFeeWindow fw) @ [ledger_bucket meta ss])"
proof -
  let ?c = "fws_ClassicFeeWindow fw" and ?s = "fws_SorobanInclusionFeeWindow fw"
  from inv have ic: "fee_window_inv ?c" and is': "fee_window_inv ?s" and sync: "in_sync fw"
    by (auto simp: fee_windows_inv_def)
  have fc: "fits (fw_contents ?c) (ledger_bucket meta cs)"
    and fs: "fits (fw_contents ?s) (ledger_bucket meta ss)"
    using nxt sync by (auto simp: fits_bucket_next ic is' in_sync_def)
  from AppendLedgerFees_ok [OF ic fc] small obtain c' where
    c': "AppendLedgerFees ?c (ledger_bucket meta cs) = Inr c'" "fee_window_inv c'"
      "fw_contents c' = lastn (w_cap (fw_feesPerLedger ?c)) (fw_contents ?c @ [ledger_bucket meta cs])"
    by (auto simp: fees_small_def all_fees_def)
  from AppendLedgerFees_ok [OF is' fs] small obtain s' where
    s': "AppendLedgerFees ?s (ledger_bucket meta ss) = Inr s'" "fee_window_inv s'"
      "fw_contents s' = lastn (w_cap (fw_feesPerLedger ?s)) (fw_contents ?s @ [ledger_bucket meta ss])"
    by (auto simp: fees_small_def all_fees_def)
  have "IngestFees rollback fw meta =
      (None, fw\<lparr>fws_ClassicFeeWindow := c', fws_SorobanInclusionFeeWindow := s'\<rparr>)"
    using read c'(1) s'(1) by (simp add: IngestFees_def Let_def)
  moreover have "next_seq (fw_contents c') = next_seq (fw_contents s')"
    using c'(3) s'(3) cap_pos [OF ic] cap_pos [OF is'] by (simp add: next_seq_lastn_snoc)
  ultimately show ?thesis
    using c' s' by (simp add: fee_windows_inv_def in_sync_def)
qed

lemma IngestFees_error_unchanged:
  assumes inv: "fee_windows_inv fw"
    and res: "IngestFees rollback fw meta = (Some e, fw')"
    and small: "\<forall>cs ss. bind_res (lcm_Reader meta (fws_networkPassPhrase fw)) collect_fees =
        Inr (cs, ss) \<longrightarrow> fees_small fw cs ss"
  shows "fw' = fw"
proof (cases "bind_res (lcm_Reader meta (fws_networkPassPhrase fw)) collect_fees")
  case (Inl e')
  with res show ?thesis by (simp add: IngestFees_def)
next
  case (Inr p)
  obtain cs ss where p: "p = (cs, ss)" by (cases p)
  have ic: "fee_window_inv (fws_ClassicFeeWindow fw)" using inv by (simp add: fee_windows_inv_def)
  show ?thesis
  proof (cases "next_seq (fw_contents (fws_ClassicFeeWindow fw)) \<in> {None, Some (lcm_LedgerSequence meta)}")
    case True
    with IngestFees_ok [OF inv _ True, of cs ss rollback] Inr p small res show ?thesis by auto
  next
    case False
    then have "\<not> fits (fw_contents (fws_ClassicFeeWindow fw)) (ledger_bucket meta cs)"
      by (simp add: fits_bucket_next ic)
    from AppendLedgerFees_rejects [OF ic this] Inr p res show ?thesis
      by (auto simp: IngestFees_def Let_def)
  qed
qed

lemma IngestFees_step:
  assumes "fee_windows_inv fw"
    and "bind_res (lcm_Reader meta (fws_networkPassPhrase fw)) collect_fees = Inr (cs, ss)"
    and "fees_small fw cs ss"
    and "IngestFees rollback fw meta = (r, fw')"
  shows "fee_windows_inv fw' \<and>
    (case r of Some e \<Rightarrow> fw' = fw
     | None \<Rightarrow>
         next_seq (fw_contents (fws_ClassicFeeWindow fw')) = Some (lcm_LedgerSequence meta + 1) \<and>
         last (fw_contents (fws_ClassicFeeWindow fw')) = ledger_bucket meta cs \<and>
         last (fw_contents (fws_SorobanInclusionFeeWindow fw')) = ledger_bucket meta ss)"
proof (cases r)
  case (Some e)
  with IngestFees_error_unchanged [OF assms(1), of rollback meta e fw'] assms show ?thesis by simp
next
  case None
  let ?c = "fws_ClassicFeeWindow fw" and ?s = "fws_SorobanInclusionFeeWindow fw"
  have inv: "fee_window_inv ?c" "fee_window_inv ?s" using assms(1) by (auto simp: fee_windows_inv_def)
  have "fits (fw_contents ?c) (ledger_bucket meta cs)"
  proof (rule ccontr)
    assume "\<not> fits (fw_contents ?c) (ledger_bucket meta cs)"
    from AppendLedgerFees_rejects [OF inv(1) this] None assms(2,4) show False
      by (auto simp: IngestFees_def Let_def)
  qed
  then have "next_seq (fw_contents ?c) \<in> {None, Some (lcm_LedgerSequence meta)}"
    by (simp add: fits_bucket_next inv)
  from IngestFees_ok [OF assms(1,2) this assms(3), of rollback] assms(4) None
    cap_pos [OF inv(1)] cap_pos [OF inv(2)]
  show ?thesis by (auto simp: next_seq_def lastn_def last_drop)
qed

subsection \<open>Properties\<close>

text \<open>C20: The distribution of a non-empty list of fees is computed without a panic; its extremes,
  its mode (the most frequent fee, the smallest one in a tie) and each of its percentiles are
  those of the list.\<close>

theorem computeFeeDistribution_correct:
  assumes "fees \<noteq> []" and "length fees < 2 ^ 57"
  shows "\<exists>d. computeFeeDistribution fees n = Inr d \<and> is_distribution fees n d"
  using assms by (rule computeFeeDistribution_ok)

theorem computeFeeDistribution_correct_witness:
  "\<exists>d. computeFeeDistribution [100, 300, 100, 250] 1 = Inr d \<and>
     is_distribution [100, 300, 100, 250] 1 d"
  by (rule computeFeeDistribution_correct) simp_all

text \<open>C21: Feeding a ledger's fees to a fee window keeps the window's distribution equal to the one
  of the fees of the last ledgers, as many as the retention window holds.\<close>

theorem AppendLedgerFees_correct:
  assumes "fee_window_inv fw" and "fits (fw_contents fw) b"
    and "length (all_fees (fw_contents fw @ [b])) < 2 ^ 57"
  shows "\<exists>fw'. AppendLedgerFees fw b = Inr fw' \<and> fee_window_inv fw' \<and>
    fw_contents fw' = lastn (w_cap (fw_feesPerLedger fw)) (fw_contents fw @ [b]) \<and>
    computeFeeDistribution (all_fees (fw_contents fw')) (of_nat (length (fw_contents fw'))) =
      Inr (GetFeeDistribution fw')"
  using AppendLedgerFees_ok [OF assms]
  by (auto simp: fee_window_inv_def GetFeeDistribution_def simp del: length_window_contents)

definition example_fees :: fee_bucket where
  "example_fees = \<lparr>LedgerSeq = 7, LedgerCloseTimestamp = 35, BucketContent = [100, 200]\<rparr>"

lemma example_fee_window: "fee_window_inv (NewFeeWindow 10)"
  by (rule NewFeeWindow_inv) simp_all

lemma NewFeeWindow_contents [simp]: "fw_contents (NewFeeWindow r) = []"
  by (simp add: NewFeeWindow_def)

theorem AppendLedgerFees_correct_witness:
  "\<exists>fw'. AppendLedgerFees (NewFeeWindow 10) example_fees = Inr fw' \<and> fee_window_inv fw' \<and>
     fw_contents fw' = [example_fees]"
proof -
  have f: "fits (fw_contents (NewFeeWindow 10)) example_fees" by (simp add: fits_def)
  have s: "length (all_fees (fw_contents (NewFeeWindow 10) @ [example_fees])) < 2 ^ 57"
    by (simp add: all_fees_def example_fees_def)
  have "lastn (w_cap (fw_feesPerLedger (NewFeeWindow 10)))
      (fw_contents (NewFeeWindow 10) @ [example_fees]) = [example_fees]"
    by (simp add: lastn_def NewFeeWindow_def)
  with AppendLedgerFees_correct [OF example_fee_window f s] show ?thesis by metis
qed


definition example_tx :: "int LedgerTransaction" where
  "example_tx =
     \<lparr>tx_Index = 1, tx_TransactionHash = ''h1'', tx_InnerHash = ''i1'', tx_IsFeeBump = False,
      tx_Successful = True, tx_FeeCharged = 300,
      tx_Operations = [OtherOperation ''payment'', OtherOperation ''payment''],
      tx_MetaV = 3, tx_MetaV3_SorobanExtV1 = None, tx_MetaV4_SorobanExtV1 = None,
      tx_GetTransactionEvents = Inr \<lparr>te_DiagnosticEvents = [], te_OperationEvents = [],
        te_TransactionEvents = []\<rparr>,
      tx_ResultXDR = Inr [], tx_MetaXDR = Inr [], tx_EnvelopeXDR = Inr []\<rparr>"

definition example_ledger :: "u32 \<Rightarrow> int LedgerTransaction list \<Rightarrow> int LedgerCloseMeta" where
  "example_ledger sequence txs =
     \<lparr>lcm_LedgerSequence = sequence, lcm_LedgerCloseTime = 5 * uint sequence,
      lcm_LedgerHash = ''hash'', lcm_CountTransactions = length txs,
      lcm_Reader = (\<lambda>_. Inr (map Inr txs)),
      lcm_Seek = (\<lambda>_ i. if 0 \<le> i \<and> nat i < length txs then Inr (map Inr (drop (nat i) txs))
                         else Inl (Err ''EOF'')),
      lcm_MarshalBinary = Inr ''meta'', lcm_HeaderMarshalBinary = Inr ''header'', lcm_V = 1, lcm_LedgerVersion = 22,
      lcm_TotalByteSizeOfLiveSorobanState = 0\<rparr>"


end
