(* ===== verification/SqlTables.thy ===== *)
theory SqlTables
  imports Prelude
begin

text \<open>
  The relational reading of the SQL statements the program issues. A table with a primary
  key is the list of its rows in key order, without a key twice; \<^verbatim>\<open>INSERT\<close> fails as a whole
  on a key that is present, \<^verbatim>\<open>DELETE\<close> and \<^verbatim>\<open>SELECT\<close> are filters, and \<^verbatim>\<open>ORDER BY\<close> the key is the
  order of the list. The locale \<open>keyed_table\<close> states the contract through which the store
  uses a table, and its interpretation discharges it for this implementation.
\<close>

type_synonym ('k, 'r) table = "('k \<times> 'r) list"

subsection \<open>Statements\<close>

definition table_ok :: "('k::linorder, 'r) table \<Rightarrow> bool" where
  "table_ok t \<longleftrightarrow> sorted_wrt (<) (map fst t)"

fun put_row :: "'k::linorder \<Rightarrow> 'r \<Rightarrow> ('k, 'r) table \<Rightarrow> ('k, 'r) table" where
  "put_row k r [] = [(k, r)]"
| "put_row k r ((k', r') # t) =
     (if k < k' then (k, r) # (k', r') # t
      else if k = k' then (k, r) # t
      else (k', r') # put_row k r t)"

definition insert_row :: "'k::linorder \<Rightarrow> 'r \<Rightarrow> ('k, 'r) table \<Rightarrow> ('k, 'r) table res" where
  "insert_row k r t =
     (if k \<in> fst ` set t then Inl (Err ''UNIQUE constraint failed'') else Inr (put_row k r t))"

fun insert_rows :: "('k::linorder \<times> 'r) list \<Rightarrow> ('k, 'r) table \<Rightarrow> ('k, 'r) table res" where
  "insert_rows [] t = Inr t"
| "insert_rows ((k, r) # rs) t = bind_res (insert_row k r t) (insert_rows rs)"

definition delete_rows :: "('k \<Rightarrow> 'r \<Rightarrow> bool) \<Rightarrow> ('k, 'r) table \<Rightarrow> ('k, 'r) table" where
  "delete_rows P t = filter (\<lambda>(k, r). \<not> P k r) t"

definition select_rows :: "('k \<Rightarrow> 'r \<Rightarrow> bool) \<Rightarrow> ('k, 'r) table \<Rightarrow> ('k \<times> 'r) list" where
  "select_rows P t = filter (\<lambda>(k, r). P k r) t"

subsection \<open>The contract of a keyed table\<close>

locale keyed_table =
  fixes inv :: "'t \<Rightarrow> bool"
    and find :: "'t \<Rightarrow> 'k::linorder \<Rightarrow> 'r option"
    and add :: "'k \<Rightarrow> 'r \<Rightarrow> 't \<Rightarrow> 't res"
    and del :: "('k \<Rightarrow> 'r \<Rightarrow> bool) \<Rightarrow> 't \<Rightarrow> 't"
  assumes add_fresh: "inv t \<Longrightarrow> find t k = None \<Longrightarrow>
      \<exists>t'. add k r t = Inr t' \<and> inv t' \<and> find t' = (find t)(k \<mapsto> r)"
    and add_taken: "inv t \<Longrightarrow> find t k = Some r' \<Longrightarrow> \<exists>e. add k r t = Inl e"
    and del_inv: "inv t \<Longrightarrow> inv (del P t)"
    and del_find: "inv t \<Longrightarrow> find (del P t) k =
      (case find t k of None \<Rightarrow> None | Some r \<Rightarrow> if P k r then None else Some r)"
begin

fun add_all :: "('k \<times> 'r) list \<Rightarrow> 't \<Rightarrow> 't res" where
  "add_all [] t = Inr t"
| "add_all ((k, r) # rs) t = bind_res (add k r t) (add_all rs)"

lemma add_Inr_iff:
  assumes "inv t"
  shows "(\<exists>t'. add k r t = Inr t') \<longleftrightarrow> find t k = None"
proof (cases "find t k")
  case None
  with add_fresh [OF assms None] show ?thesis by blast
next
  case (Some r')
  from add_taken [OF assms Some, of r] obtain e where "add k r t = Inl e" by blast
  with Some show ?thesis by simp
qed

lemma add_inv:
  assumes "inv t" and "add k r t = Inr t'"
  shows "inv t'" and "find t' = (find t)(k \<mapsto> r)" and "find t k = None"
proof -
  from assms have "find t k = None" using add_Inr_iff by blast
  with add_fresh [OF assms(1) this, of r] assms(2)
  show "inv t'" and "find t' = (find t)(k \<mapsto> r)" and "find t k = None" by auto
qed

lemma add_all_find:
  assumes "inv t" and "add_all rs t = Inr t'"
  shows "inv t' \<and> find t' = find t ++ map_of rs \<and> distinct (map fst rs) \<and>
    (\<forall>k \<in> fst ` set rs. find t k = None)"
  using assms
proof (induction rs arbitrary: t)
  case (Cons kr rs)
  obtain k r where kr: "kr = (k, r)" by fastforce
  with Cons.prems obtain t1 where t1: "add k r t = Inr t1" "add_all rs t1 = Inr t'"
    by (auto simp: bind_res_Inr_iff)
  note one = add_inv [OF Cons.prems(1) t1(1)]
  note IH = Cons.IH [OF one(1) t1(2)]
  have "k \<notin> fst ` set rs" using IH one(2) by auto
  then have "map_of rs k = None" by (simp add: map_of_eq_None_iff)
  with IH one show ?case by (auto simp: kr map_add_def fun_eq_iff split: option.splits)
qed simp

lemma add_all_total:
  assumes "inv t" and "distinct (map fst rs)" and "\<And>k. k \<in> fst ` set rs \<Longrightarrow> find t k = None"
  shows "\<exists>t'. add_all rs t = Inr t'"
  using assms
proof (induction rs arbitrary: t)
  case (Cons kr rs)
  obtain k r where kr: "kr = (k, r)" by fastforce
  from Cons.prems obtain t1 where t1: "add k r t = Inr t1"
    using add_Inr_iff [of t k r] by (auto simp: kr)
  note one = add_inv [OF Cons.prems(1) t1]
  have "\<exists>t'. add_all rs t1 = Inr t'"
    using Cons.prems one by (intro Cons.IH) (auto simp: kr)
  with t1 kr show ?case by simp
qed simp

lemma del_idem: "inv t \<Longrightarrow> find (del P (del P t)) = find (del P t)"
  by (rule ext) (simp add: del_find del_inv split: option.splits)

end

subsection \<open>The implementation keeps the contract\<close>

lemma set_put_row_fst: "fst ` set (put_row k r t) = insert k (fst ` set t)"
  by (induction k r t rule: put_row.induct) auto

lemma put_row_ok: "table_ok t \<Longrightarrow> table_ok (put_row k r t)"
proof (induction k r t rule: put_row.induct)
  case (2 k r k' r' t)
  then show ?case
    using set_put_row_fst [of k r t]
    by (auto simp: table_ok_def image_iff)
qed (simp add: table_ok_def)

lemma map_of_put_row: "map_of (put_row k r t) = (map_of t)(k \<mapsto> r)"
  by (induction k r t rule: put_row.induct) auto

lemma table_ok_distinct: "table_ok t \<Longrightarrow> distinct (map fst t)"
  by (simp add: table_ok_def strict_sorted_iff)

lemma table_ok_filter: "table_ok t \<Longrightarrow> table_ok (filter P t)"
  unfolding table_ok_def by (induction t) auto

lemma map_of_delete_rows:
  assumes "table_ok t"
  shows "map_of (delete_rows P t) k =
    (case map_of t k of None \<Rightarrow> None | Some r \<Rightarrow> if P k r then None else Some r)"
  using table_ok_distinct [OF assms]
proof (induction t)
  case (Cons a t)
  then show ?case
    by (cases a) (auto simp: delete_rows_def map_of_eq_None_iff image_iff split: option.splits
        dest: map_of_SomeD)
qed (simp add: delete_rows_def)

lemma insert_row_Inr [db_simps]:
  "insert_row k r t = Inr t' \<longleftrightarrow> map_of t k = None \<and> t' = put_row k r t"
  by (auto simp: insert_row_def map_of_eq_None_iff)

interpretation tbl: keyed_table table_ok map_of insert_row delete_rows
proof (unfold_locales)
  fix t :: "('k::linorder, 'r) table" and k r r' P
  show "table_ok t \<Longrightarrow> map_of t k = None \<Longrightarrow>
      \<exists>t'. insert_row k r t = Inr t' \<and> table_ok t' \<and> map_of t' = (map_of t)(k \<mapsto> r)"
    by (simp add: insert_row_Inr put_row_ok map_of_put_row)
  show "table_ok t \<Longrightarrow> map_of t k = Some r' \<Longrightarrow> \<exists>e. insert_row k r t = Inl e"
    using map_of_eq_None_iff [of t k] by (auto simp: insert_row_def)
  show "table_ok t \<Longrightarrow> table_ok (delete_rows P t)"
    by (simp add: delete_rows_def table_ok_filter)
  show "table_ok t \<Longrightarrow> map_of (delete_rows P t) k =
      (case map_of t k of None \<Rightarrow> None | Some r \<Rightarrow> if P k r then None else Some r)"
    by (rule map_of_delete_rows)
qed

lemma insert_rows_add_all: "insert_rows rs t = tbl.add_all rs t"
  by (induction rs t rule: insert_rows.induct) (auto simp: bind_res_def split: sum.splits)

lemmas insert_rows_find = tbl.add_all_find [folded insert_rows_add_all]
lemmas insert_rows_total = tbl.add_all_total [folded insert_rows_add_all]

lemma put_row_append: "\<forall>x \<in> set t. fst x < k \<Longrightarrow> put_row k r t = t @ [(k, r)]"
  by (induction t) (auto split: if_splits)

lemma last_delete_rows:
  assumes "t \<noteq> []" and "\<not> P (fst (last t)) (snd (last t))"
  shows "delete_rows P t \<noteq> []" and "last (delete_rows P t) = last t"
proof -
  obtain front a b where t: "t = front @ [(a, b)]"
    using assms(1) by (cases t rule: rev_cases) auto
  with assms(2) show "delete_rows P t \<noteq> []" and "last (delete_rows P t) = last t"
    by (simp_all add: delete_rows_def)
qed

subsection \<open>Reading\<close>

lemma table_row_iff: "table_ok t \<Longrightarrow> (k, r) \<in> set t \<longleftrightarrow> map_of t k = Some r"
  by (simp add: table_ok_distinct map_of_eq_Some_iff)

lemma select_rows_ok: "table_ok t \<Longrightarrow> table_ok (select_rows P t)"
  by (simp add: select_rows_def table_ok_filter)

lemma in_select_rows: "(k, r) \<in> set (select_rows P t) \<longleftrightarrow> (k, r) \<in> set t \<and> P k r"
  by (simp add: select_rows_def)

lemma select_key:
  assumes "table_ok t"
  shows "select_rows (\<lambda>k' r. k' = k) t = (case map_of t k of None \<Rightarrow> [] | Some r \<Rightarrow> [(k, r)])"
  using table_ok_distinct [OF assms] unfolding select_rows_def
proof (induction t)
  case (Cons a t)
  then show ?case
    by (cases a) (auto simp: filter_empty_conv rev_image_eqI split: option.splits)
qed simp

text \<open>The first and the last row carry the smallest and the largest key.\<close>

lemma table_ok_hd_least: "table_ok t \<Longrightarrow> (k, r) \<in> set t \<Longrightarrow> fst (hd t) \<le> k"
  unfolding table_ok_def by (cases t) (auto simp: image_iff intro: less_imp_le)

lemma table_ok_last_greatest:
  assumes "table_ok t" and "(k, r) \<in> set t"
  shows "k \<le> fst (last t)"
proof -
  from assms have "sorted (map fst t)" by (simp add: table_ok_def strict_sorted_iff)
  moreover from assms(2) have "k \<in> set (map fst t)" by force
  ultimately have "k \<le> last (map fst t)" by (rule sorted_le_last)
  with assms(2) show ?thesis by (metis last_map list.set_cases list.distinct(1))
qed

lemma filter_key_eq:
  assumes "table_ok t" and "t \<noteq> []"
  shows "select_rows (\<lambda>k r. k = fst (hd t)) t = [hd t]"
    and "select_rows (\<lambda>k r. k = fst (last t)) t = [last t]"
proof -
  have "map_of t (fst (hd t)) = Some (snd (hd t))" "map_of t (fst (last t)) = Some (snd (last t))"
    using assms by (simp_all add: table_row_iff [symmetric])
  then show "select_rows (\<lambda>k r. k = fst (hd t)) t = [hd t]"
    and "select_rows (\<lambda>k r. k = fst (last t)) t = [last t]"
    using select_key [OF assms(1)] by simp_all
qed

end
