(* ===== verification/Protocol.thy ===== *)
theory Protocol
  imports Cursors LedgerBuckets
begin

text \<open>
  Request validation shared by the endpoints: \<^verbatim>\<open>protocol/format.go\<close>,
  \<^verbatim>\<open>protocol/get_ledgers.go\<close>, \<^verbatim>\<open>protocol/get_transactions.go\<close>, and the text form of
  ledger entry changes in \<^verbatim>\<open>protocol/simulate_transaction.go\<close>. A Go \<^verbatim>\<open>error\<close> result is an
  optional message, \<open>None\<close> standing for nil. Go's \<^verbatim>\<open>uint\<close> values are only compared and are
  natural numbers. \<^verbatim>\<open>json.RawMessage\<close> values are strings, and the value handed to a custom
  \<^verbatim>\<open>UnmarshalJSON\<close> is seen as far as a decoder with a string target can tell it apart.
\<close>

subsection \<open>JSON values with a string target\<close>

datatype json = JNull | JString string | JOther

text \<open>\<^verbatim>\<open>json.Unmarshal(data, &s)\<close>: null leaves the empty string in place.\<close>

fun json_to_string :: "json \<Rightarrow> string res" where
  "json_to_string JNull = Inr ''''"
| "json_to_string (JString s) = Inr s"
| "json_to_string JOther = Inl (Err ''json: cannot unmarshal value into Go value of type string'')"

subsection \<open>Errors\<close>

text \<open>\<^verbatim>\<open>errors.Join\<close> of two optional errors.\<close>

fun errors_Join :: "string option \<Rightarrow> string option \<Rightarrow> string option" where
  "errors_Join None e = e"
| "errors_Join (Some m) None = Some m"
| "errors_Join (Some m) (Some n) = Some (m @ [CHR 0x0A] @ n)"

lemma errors_Join_None [simp]: "errors_Join a b = None \<longleftrightarrow> a = None \<and> b = None"
  by (cases "(a, b)" rule: errors_Join.cases) auto

definition show_u32 :: "u32 \<Rightarrow> string" where
  "show_u32 x = show_nat (unat x)"

subsection \<open>format.go\<close>

text \<open>A single quote.\<close>

definition sq :: string where
  "sq = [CHR 0x27]"

text \<open>The quotes of \<^verbatim>\<open>%q\<close>, which the model puts around text that needs no escapes.\<close>

definition dq :: string where
  "dq = [CHR 0x22]"

definition FormatBase64 :: string where
  "FormatBase64 = ''base64''"

definition FormatJSON :: string where
  "FormatJSON = ''json''"

definition errInvalidFormat :: string where
  "errInvalidFormat =
     ''expected '' @ Join '', '' [FormatBase64, FormatJSON] @ '' for optional '' @
     sq @ ''xdrFormat'' @ sq"

definition IsValidFormat :: "string \<Rightarrow> string option" where
  "IsValidFormat format =
     (if format = '''' then None
      else if format = FormatJSON then None
      else if format = FormatBase64 then None
      else Some (''got '' @ sq @ format @ sq @ '': '' @ errInvalidFormat))"

lemma IsValidFormat_None:
  "IsValidFormat f = None \<longleftrightarrow> f \<in> {'''', FormatJSON, FormatBase64}"
  by (simp add: IsValidFormat_def)

subsection \<open>get\_ledgers.go and get\_transactions.go\<close>

record LedgerPaginationOptions =
  lp_Cursor :: string
  lp_Limit :: nat

record GetLedgersRequest =
  glr_StartLedger :: u32
  glr_Pagination :: "LedgerPaginationOptions option"
  glr_Format :: string

record GetTransactionsRequest =
  gtr_StartLedger :: u32
  gtr_Pagination :: "LedgerPaginationOptions option"
  gtr_Format :: string

record protocol_LedgerInfo =
  pli_Hash :: string
  pli_Sequence :: u32
  pli_LedgerCloseTime :: i64
  pli_LedgerHeader :: string
  pli_LedgerHeaderJSON :: string
  pli_LedgerMetadata :: string
  pli_LedgerMetadataJSON :: string

record GetLedgersResponse =
  glp_Ledgers :: "protocol_LedgerInfo list"
  glp_LatestLedger :: u32
  glp_LatestLedgerCloseTime :: i64
  glp_OldestLedger :: u32
  glp_OldestLedgerCloseTime :: i64
  glp_Cursor :: string

record TransactionDetails =
  td_Status :: string
  td_TransactionHash :: string
  td_ApplicationOrder :: int
  td_FeeBump :: bool
  td_EnvelopeXDR :: string
  td_EnvelopeJSON :: string
  td_ResultXDR :: string
  td_ResultJSON :: string
  td_ResultMetaXDR :: string
  td_ResultMetaJSON :: string
  td_DiagnosticEventsXDR :: "string list"
  td_DiagnosticEventsJSON :: "string list"
  td_Ledger :: u32

record TransactionInfo =
  ti_Details :: TransactionDetails
  ti_LedgerCloseTime :: i64

record GetTransactionsResponse =
  gtp_Transactions :: "TransactionInfo list"
  gtp_LatestLedger :: u32
  gtp_LatestLedgerCloseTime :: i64
  gtp_OldestLedger :: u32
  gtp_OldestLedgerCloseTime :: i64
  gtp_Cursor :: string

definition zero_TransactionDetails :: TransactionDetails where
  "zero_TransactionDetails =
     \<lparr>td_Status = '''', td_TransactionHash = '''', td_ApplicationOrder = 0, td_FeeBump = False,
      td_EnvelopeXDR = '''', td_EnvelopeJSON = '''', td_ResultXDR = '''', td_ResultJSON = '''',
      td_ResultMetaXDR = '''', td_ResultMetaJSON = '''', td_DiagnosticEventsXDR = [],
      td_DiagnosticEventsJSON = [], td_Ledger = 0\<rparr>"

definition TransactionStatusSuccess :: string where
  "TransactionStatusSuccess = ''SUCCESS''"

definition TransactionStatusNotFound :: string where
  "TransactionStatusNotFound = ''NOT_FOUND''"

definition TransactionStatusFailed :: string where
  "TransactionStatusFailed = ''FAILED''"

definition IsLedgerWithinRange :: "u32 \<Rightarrow> LedgerSeqRange \<Rightarrow> bool" where
  "IsLedgerWithinRange startLedger ledgerRange \<longleftrightarrow>
     startLedger \<ge> lsr_FirstLedger ledgerRange \<and> startLedger \<le> lsr_LastLedger ledgerRange"

definition ValidatePagination ::
  "u32 \<Rightarrow> LedgerPaginationOptions option \<Rightarrow> nat \<Rightarrow> LedgerSeqRange \<Rightarrow> string option" where
  "ValidatePagination startLedger pagination maxLimit ledgerRange =
     (let errBadPage =
            ''start ledger ('' @ show_u32 startLedger @ '') must be between the oldest ledger: '' @
            show_u32 (lsr_FirstLedger ledgerRange) @ '' and the latest ledger: '' @
            show_u32 (lsr_LastLedger ledgerRange) @ '' for this rpc instance''
      in case pagination of
           Some p \<Rightarrow>
             if lp_Cursor p \<noteq> '''' \<and> startLedger \<noteq> 0 then
               Some (''startLedger ('' @ show_u32 startLedger @ '') and cursor ('' @ lp_Cursor p @
                     '') cannot both be set'')
             else if lp_Cursor p = '''' \<and> \<not> IsLedgerWithinRange startLedger ledgerRange then
               Some errBadPage
             else if lp_Limit p > maxLimit then
               Some (''limit must not exceed '' @ show_nat maxLimit)
             else None
         | None \<Rightarrow>
             if \<not> IsLedgerWithinRange startLedger ledgerRange then Some errBadPage else None)"

definition GetLedgersRequest_Validate ::
  "GetLedgersRequest \<Rightarrow> nat \<Rightarrow> LedgerSeqRange \<Rightarrow> string option" where
  "GetLedgersRequest_Validate req maxLimit ledgerRange =
     errors_Join
       (ValidatePagination (glr_StartLedger req) (glr_Pagination req) maxLimit ledgerRange)
       (IsValidFormat (glr_Format req))"

definition GetTransactionsRequest_IsValid ::
  "GetTransactionsRequest \<Rightarrow> nat \<Rightarrow> LedgerSeqRange \<Rightarrow> string option" where
  "GetTransactionsRequest_IsValid req maxLimit ledgerRange =
     errors_Join
       (ValidatePagination (gtr_StartLedger req) (gtr_Pagination req) maxLimit ledgerRange)
       (IsValidFormat (gtr_Format req))"

text \<open>What a page request asks for, as the comment on \<^verbatim>\<open>ValidatePagination\<close> states it.\<close>

definition page_ok :: "u32 \<Rightarrow> LedgerPaginationOptions option \<Rightarrow> nat \<Rightarrow> LedgerSeqRange \<Rightarrow> bool" where
  "page_ok startLedger pagination maxLimit ledgerRange \<longleftrightarrow>
     (case pagination of
        Some p \<Rightarrow>
          (lp_Cursor p \<noteq> '''' \<longrightarrow> startLedger = 0) \<and> lp_Limit p \<le> maxLimit \<and>
          (lp_Cursor p = '''' \<longrightarrow> IsLedgerWithinRange startLedger ledgerRange)
      | None \<Rightarrow> IsLedgerWithinRange startLedger ledgerRange)"

lemma ValidatePagination_None:
  "ValidatePagination s p m r = None \<longleftrightarrow> page_ok s p m r"
  by (auto simp: ValidatePagination_def page_ok_def Let_def split: option.splits if_splits)

lemma GetLedgersRequest_Validate_None:
  "GetLedgersRequest_Validate req m r = None \<longleftrightarrow>
     page_ok (glr_StartLedger req) (glr_Pagination req) m r \<and>
     IsValidFormat (glr_Format req) = None"
  by (simp add: GetLedgersRequest_Validate_def ValidatePagination_None)

lemma GetTransactionsRequest_IsValid_None:
  "GetTransactionsRequest_IsValid req m r = None \<longleftrightarrow>
     page_ok (gtr_StartLedger req) (gtr_Pagination req) m r \<and>
     IsValidFormat (gtr_Format req) = None"
  by (simp add: GetTransactionsRequest_IsValid_def ValidatePagination_None)

subsection \<open>Ledger entry change types\<close>

text \<open>
  \<^verbatim>\<open>LedgerEntryChangeType\<close> is an \<^verbatim>\<open>int\<close>; a map lookup that misses yields the empty string.
\<close>

definition LedgerEntryChangeTypeCreated :: int where
  "LedgerEntryChangeTypeCreated = 1"

definition LedgerEntryChangeTypeUpdated :: int where
  "LedgerEntryChangeTypeUpdated = 2"

definition LedgerEntryChangeTypeDeleted :: int where
  "LedgerEntryChangeTypeDeleted = 3"

lemmas change_type_defs = LedgerEntryChangeTypeCreated_def LedgerEntryChangeTypeUpdated_def
  LedgerEntryChangeTypeDeleted_def

definition LedgerEntryChangeTypeName :: "int \<Rightarrow> string option" where
  "LedgerEntryChangeTypeName =
     [LedgerEntryChangeTypeCreated \<mapsto> ''created'', LedgerEntryChangeTypeUpdated \<mapsto> ''updated'',
      LedgerEntryChangeTypeDeleted \<mapsto> ''deleted'']"

definition LedgerEntryChangeTypeValue :: "string \<Rightarrow> int option" where
  "LedgerEntryChangeTypeValue =
     [''created'' \<mapsto> LedgerEntryChangeTypeCreated, ''updated'' \<mapsto> LedgerEntryChangeTypeUpdated,
      ''deleted'' \<mapsto> LedgerEntryChangeTypeDeleted]"

definition ChangeType_String :: "int \<Rightarrow> string" where
  "ChangeType_String l = (case LedgerEntryChangeTypeName l of Some s \<Rightarrow> s | None \<Rightarrow> '''')"

definition ChangeType_MarshalJSON :: "int \<Rightarrow> json" where
  "ChangeType_MarshalJSON l = JString (ChangeType_String l)"

definition to_lower_char :: "char \<Rightarrow> char" where
  "to_lower_char c =
     (let n = of_char c :: nat in if 65 \<le> n \<and> n \<le> 90 then char_of (n + 32) else c)"

definition is_space :: "char \<Rightarrow> bool" where
  "is_space c \<longleftrightarrow> (of_char c :: nat) \<in> {9, 10, 11, 12, 13, 32}"

text \<open>\<^verbatim>\<open>strings.TrimSpace(strings.ToLower(s))\<close> on ASCII text.\<close>

definition trim_lower :: "string \<Rightarrow> string" where
  "trim_lower s =
     rev (dropWhile is_space (rev (dropWhile is_space (map to_lower_char s))))"

definition ChangeType_Parse :: "string \<Rightarrow> int res" where
  "ChangeType_Parse s =
     (case LedgerEntryChangeTypeValue (trim_lower s) of
        Some v \<Rightarrow> Inr v
      | None \<Rightarrow> Inl (Err (dq @ trim_lower s @ dq @ '' is not a valid ledger entry change type'')))"

definition ChangeType_UnmarshalJSON :: "json \<Rightarrow> int res" where
  "ChangeType_UnmarshalJSON data = bind_res (json_to_string data) ChangeType_Parse"

text \<open>Marshalling a ledger entry change type and unmarshalling it gives the type back for
  the three types the code names, and every other number marshals to the empty string, which
  does not parse.\<close>

theorem change_type_round_trip:
  "ChangeType_UnmarshalJSON (ChangeType_MarshalJSON l) =
     (if l \<in> {1, 2, 3} then Inr l
      else Inl (Err (dq @ dq @ '' is not a valid ledger entry change type'')))"
proof -
  have [simp]: "trim_lower ''created'' = ''created''" "trim_lower ''updated'' = ''updated''"
    "trim_lower ''deleted'' = ''deleted''" "trim_lower '''' = ''''"
    by code_simp+
  show ?thesis
    by (simp add: ChangeType_UnmarshalJSON_def ChangeType_MarshalJSON_def ChangeType_String_def
        LedgerEntryChangeTypeName_def ChangeType_Parse_def LedgerEntryChangeTypeValue_def
        change_type_defs)
qed

subsection \<open>Responses of the other endpoints\<close>

record ResourceConfig =
  rc_InstructionLeeway :: u64

definition DefaultResourceConfig :: ResourceConfig where
  "DefaultResourceConfig = \<lparr>rc_InstructionLeeway = 0\<rparr>"

record SimulateTransactionRequest =
  str_Transaction :: string
  str_ResourceConfig :: "ResourceConfig option"
  str_AuthMode :: string
  str_Format :: string

record SimulateHostFunctionResult =
  shf_AuthXDR :: "string list option"
  shf_AuthJSON :: "string list"
  shf_ReturnValueXDR :: "string option"
  shf_ReturnValueJSON :: string

record RestorePreamble =
  rp_TransactionDataXDR :: string
  rp_TransactionDataJSON :: string
  rp_MinResourceFee :: i64

record LedgerEntryChange =
  lec_Type :: int
  lec_KeyXDR :: string
  lec_KeyJSON :: string
  lec_BeforeXDR :: "string option"
  lec_BeforeJSON :: string
  lec_AfterXDR :: "string option"
  lec_AfterJSON :: string

record SimulateTransactionResponse =
  st_Error :: string
  st_TransactionDataXDR :: string
  st_TransactionDataJSON :: string
  st_EventsXDR :: "string list"
  st_EventsJSON :: "string list"
  st_MinResourceFee :: i64
  st_Results :: "SimulateHostFunctionResult list"
  st_RestorePreamble :: "RestorePreamble option"
  st_StateChanges :: "LedgerEntryChange list"
  st_LatestLedger :: u32

record GetTransactionRequest =
  gt_Hash :: string
  gt_Format :: string

record GetTransactionResponse =
  gtx_LatestLedger :: u32
  gtx_LatestLedgerCloseTime :: i64
  gtx_OldestLedger :: u32
  gtx_OldestLedgerCloseTime :: i64
  gtx_Details :: TransactionDetails
  gtx_LedgerCloseTime :: i64

record GetHealthResponse =
  gh_Status :: string
  gh_LatestLedger :: u32
  gh_OldestLedger :: u32
  gh_LedgerRetentionWindow :: u32

record GetLedgerEntriesRequest =
  gle_Keys :: "string list"
  gle_Format :: string

record LedgerEntryResult =
  ler_KeyXDR :: string
  ler_KeyJSON :: string
  ler_DataXDR :: string
  ler_DataJSON :: string
  ler_LastModifiedLedger :: u32
  ler_LiveUntilLedgerSeq :: "u32 option"

record GetLedgerEntriesResponse =
  glep_Entries :: "LedgerEntryResult list"
  glep_LatestLedger :: u32

record GetLatestLedgerResponse =
  gll_Hash :: string
  gll_ProtocolVersion :: u32
  gll_Sequence :: u32

record GetNetworkResponse =
  gn_FriendbotURL :: string
  gn_Passphrase :: string
  gn_ProtocolVersion :: int

record SendTransactionRequest =
  snr_Transaction :: string
  snr_Format :: string

record SendTransactionResponse =
  sn_ErrorResultXDR :: string
  sn_ErrorResultJSON :: string
  sn_DiagnosticEventsXDR :: "string list"
  sn_DiagnosticEventsJSON :: "string list"
  sn_Status :: string
  sn_Hash :: string
  sn_LatestLedger :: u32
  sn_LatestLedgerCloseTime :: i64

record GetVersionInfoResponse =
  gv_Version :: string
  gv_CommitHash :: string
  gv_BuildTimestamp :: string
  gv_CaptiveCoreVersion :: string
  gv_ProtocolVersion :: u32

subsection \<open>Cursors in JSON\<close>

text \<open>\<^verbatim>\<open>Cursor.MarshalJSON\<close> and \<^verbatim>\<open>Cursor.UnmarshalJSON\<close>; the latter leaves the cursor alone when it fails.\<close>

definition Cursor_MarshalJSON :: "toid_pkg \<Rightarrow> Cursor \<Rightarrow> json option" where
  "Cursor_MarshalJSON T c = map_option JString (Cursor_String T c)"

definition Cursor_UnmarshalJSON :: "toid_pkg \<Rightarrow> json \<Rightarrow> Cursor \<Rightarrow> go_error option \<times> Cursor" where
  "Cursor_UnmarshalJSON T b c =
     (case bind_res (json_to_string b) (ParseCursor T) of
        Inl err \<Rightarrow> (Some err, c)
      | Inr parsed \<Rightarrow> (None, parsed))"

text \<open>C19: A cursor whose fields fit a total-order identifier is marshalled without a panic into a JSON
  string of thirty bytes, and unmarshalling it overwrites any cursor with the original one; an
  error of unmarshalling leaves the cursor as it was, and null is such an error.\<close>

theorem cursor_json_round_trip:
  assumes "toid_spec T" and "valid_cursor c"
  shows "(\<exists>s. Cursor_MarshalJSON T c = Some (JString s) \<and> length s = 30 \<and>
      Cursor_UnmarshalJSON T (JString s) old = (None, c)) \<and>
    (Cursor_UnmarshalJSON T j old = (Some e, new) \<longrightarrow> new = old) \<and>
    (\<exists>e'. Cursor_UnmarshalJSON T JNull old = (Some e', old))"
proof -
  obtain s where "Cursor_String T c = Some s" "length s = 30" "ParseCursor T s = Inr c"
    using cursor_round_trip [OF assms] by blast
  then have "Cursor_MarshalJSON T c = Some (JString s) \<and> length s = 30 \<and> Cursor_UnmarshalJSON T (JString s) old = (None, c)"
    by (simp add: Cursor_MarshalJSON_def Cursor_UnmarshalJSON_def)
  moreover have "Cursor_UnmarshalJSON T j old = (Some e, new) \<longrightarrow> new = old"
    by (auto simp: Cursor_UnmarshalJSON_def split: sum.splits)
  moreover have "\<exists>e'. Cursor_UnmarshalJSON T JNull old = (Some e', old)"
    by (simp add: Cursor_UnmarshalJSON_def ParseCursor_def SplitN2_def)
  ultimately show ?thesis by blast
qed

theorem cursor_json_round_trip_witness:
  "\<exists>s. Cursor_MarshalJSON toid_layout example_cursor = Some (JString s) \<and>
     Cursor_UnmarshalJSON toid_layout (JString s) MinCursor = (None, example_cursor)"
  using cursor_json_round_trip [OF toid_layout_spec example_cursor_valid, of MinCursor] by blast

end
