(* ===== verification/EventFilters.thy ===== *)
theory EventFilters
  imports Protocol LedgerMeta
begin

text \<open>
  \<^verbatim>\<open>protocol/get_events.go\<close>: the filters of a getEvents request, their validation and their
  matching. \<^verbatim>\<open>strkey\<close> and the parts of \<^verbatim>\<open>xdr.ScVal\<close> the file calls are parameters. A match
  returns a Boolean or panics, because \<^verbatim>\<open>SegmentFilter.Matches\<close> panics on a segment that
  is neither a wildcard nor a value; the main results are that a validated request never
  panics and that the matching loops decide a declarative reading of the filters.
\<close>

subsection \<open>Packages\<close>

record strkey_pkg =
  sk_Decode :: "string \<Rightarrow> bytes res"
    \<comment> \<open>\<^verbatim>\<open>strkey.Decode(strkey.VersionByteContract, id)\<close>\<close>
  sk_MustEncode :: "bytes \<Rightarrow> string res"
    \<comment> \<open>\<^verbatim>\<open>strkey.MustEncode(strkey.VersionByteContract, b)\<close>, which may panic\<close>
  sk_Encode :: "bytes \<Rightarrow> string res"
    \<comment> \<open>\<^verbatim>\<open>strkey.Encode(strkey.VersionByteContract, b)\<close>\<close>

record 'v scval_pkg =
  sv_Equals :: "'v \<Rightarrow> 'v \<Rightarrow> bool"
  sv_MarshalBase64 :: "'v \<Rightarrow> string res"
  sv_UnmarshalBase64 :: "string \<Rightarrow> 'v res"
  sv_MarshalBinary :: "'v \<Rightarrow> bytes res"

subsection \<open>Constants and data\<close>

definition MaxFiltersLimit :: nat where
  "MaxFiltersLimit = 5"

definition MaxTopicsLimit :: nat where
  "MaxTopicsLimit = 5"

definition MaxContractIDsLimit :: nat where
  "MaxContractIDsLimit = 5"

definition MinTopicCount :: nat where
  "MinTopicCount = 1"

definition MaxTopicCount :: nat where
  "MaxTopicCount = 4"

definition WildCardExactOne :: string where
  "WildCardExactOne = ''*''"

definition WildCardZeroOrMore :: string where
  "WildCardZeroOrMore = ''**''"

lemmas limit_defs = MaxFiltersLimit_def MaxTopicsLimit_def MaxContractIDsLimit_def
  MinTopicCount_def MaxTopicCount_def
lemmas wildcard_defs = WildCardExactOne_def WildCardZeroOrMore_def

record EventInfo =
  ei_EventType :: string
  ei_Ledger :: int
  ei_LedgerClosedAt :: string
  ei_ContractID :: string
  ei_ID :: string
  ei_OpIndex :: u32
  ei_TxIndex :: u32
  ei_InSuccessfulContractCall :: bool
  ei_TransactionHash :: string
  ei_TopicXDR :: "string list"
  ei_TopicJSON :: "string list"
  ei_ValueXDR :: string
  ei_ValueJSON :: string

definition EventTypeSystem :: string where
  "EventTypeSystem = ''system''"

definition EventTypeContract :: string where
  "EventTypeContract = ''contract''"

definition EventTypeDiagnostic :: string where
  "EventTypeDiagnostic = ''diagnostic''"

lemmas event_name_defs = EventTypeSystem_def EventTypeContract_def EventTypeDiagnostic_def

definition GetEventTypeFromEventTypeXDR :: "int \<Rightarrow> string option" where
  "GetEventTypeFromEventTypeXDR =
     [ContractEventTypeSystem \<mapsto> EventTypeSystem, ContractEventTypeContract \<mapsto> EventTypeContract,
      ContractEventTypeDiagnostic \<mapsto> EventTypeDiagnostic]"

definition GetEventTypeXDRFromEventType :: "string \<Rightarrow> int option" where
  "GetEventTypeXDRFromEventType =
     [EventTypeSystem \<mapsto> ContractEventTypeSystem, EventTypeContract \<mapsto> ContractEventTypeContract,
      EventTypeDiagnostic \<mapsto> ContractEventTypeDiagnostic]"

text \<open>
  \<^verbatim>\<open>EventTypeSet\<close> is a map whose values are ignored: the list of its distinct keys in the
  order an iteration visits them.
\<close>

type_synonym EventTypeSet = "string list"

record 'v SegmentFilter =
  sf_Wildcard :: "string option"
  sf_ScVal :: "'v option"

type_synonym 'v TopicFilter = "'v SegmentFilter list"

record 'v EventFilter =
  ef_EventType :: EventTypeSet
  ef_ContractIDs :: "string list"
  ef_Topics :: "'v TopicFilter list"

record PaginationOptions =
  po_Cursor :: "Cursor option"
  po_Limit :: nat

record 'v GetEventsRequest =
  ger_StartLedger :: u32
  ger_EndLedger :: u32
  ger_Filters :: "'v EventFilter list"
  ger_Pagination :: "PaginationOptions option"
  ger_Format :: string

record GetEventsResponse =
  gep_Events :: "EventInfo list"
  gep_Cursor :: string
  gep_LatestLedger :: u32
  gep_OldestLedger :: u32
  gep_LatestLedgerCloseTime :: i64
  gep_OldestLedgerCloseTime :: i64

subsection \<open>Event type sets\<close>

definition EventTypeSet_valid :: "EventTypeSet \<Rightarrow> string option" where
  "EventTypeSet_valid e =
     (if list_all (\<lambda>key. key \<in> {EventTypeSystem, EventTypeContract, EventTypeDiagnostic}) e
      then None
      else Some (''if set, type must be either '' @ sq @ ''system'' @ sq @ '', '' @ sq @
                 ''contract'' @ sq @ '' or '' @ sq @ ''diagnostic'' @ sq))"

text \<open>Empty input data is \<open>None\<close>; inserting a key twice keeps one.\<close>

definition EventTypeSet_UnmarshalJSON :: "json option \<Rightarrow> EventTypeSet res" where
  "EventTypeSet_UnmarshalJSON data =
     (case data of
        None \<Rightarrow> Inr []
      | Some j \<Rightarrow> bind_res (json_to_string j)
          (\<lambda>joined. if joined = '''' then Inr [] else Inr (remdups (Split CHR '','' joined))))"

definition EventTypeSet_MarshalJSON :: "EventTypeSet \<Rightarrow> json" where
  "EventTypeSet_MarshalJSON e = JString (Join '','' e)"

definition EventTypeSet_Keys :: "EventTypeSet \<Rightarrow> string list" where
  "EventTypeSet_Keys e = e"

text \<open>A type without a name is looked up as the empty string.\<close>

definition EventTypeSet_matches :: "EventTypeSet \<Rightarrow> 'v ContractEvent \<Rightarrow> bool" where
  "EventTypeSet_matches e event \<longleftrightarrow>
     (if e = [] then True
      else (case GetEventTypeFromEventTypeXDR (ce_Type event) of Some n \<Rightarrow> n | None \<Rightarrow> '''')
             \<in> set e)"

subsection \<open>Segments and topics\<close>

definition isValidWildCard :: "string \<Rightarrow> bool" where
  "isValidWildCard wildcard \<longleftrightarrow> wildcard = WildCardExactOne \<or> wildcard = WildCardZeroOrMore"

definition SegmentFilter_Matches :: "'v scval_pkg \<Rightarrow> 'v SegmentFilter \<Rightarrow> 'v \<Rightarrow> bool res" where
  "SegmentFilter_Matches X s segment =
     (case sf_Wildcard s of
        Some w \<Rightarrow>
          if isValidWildCard w then Inr True
          else (case sf_ScVal s of Some v \<Rightarrow> Inr (sv_Equals X v segment)
                | None \<Rightarrow> Inl (Panic ''invalid segmentFilter''))
      | None \<Rightarrow>
          (case sf_ScVal s of Some v \<Rightarrow> Inr (sv_Equals X v segment)
           | None \<Rightarrow> Inl (Panic ''invalid segmentFilter'')))"

definition SegmentFilter_Valid :: "'v SegmentFilter \<Rightarrow> string option" where
  "SegmentFilter_Valid s =
     (if sf_Wildcard s \<noteq> None \<and> sf_ScVal s \<noteq> None then
        Some ''cannot set both wildcard and scval''
      else if sf_Wildcard s = None \<and> sf_ScVal s = None then
        Some ''must set either wildcard or scval''
      else (case sf_Wildcard s of
              Some w \<Rightarrow> if \<not> isValidWildCard w
                then Some (''wildcard must be '' @ sq @ ''*'' @ sq @ '' or '' @ sq @ ''**'' @ sq)
                else None
            | None \<Rightarrow> None))"

definition SegmentFilter_UnmarshalJSON :: "'v scval_pkg \<Rightarrow> json \<Rightarrow> 'v SegmentFilter res" where
  "SegmentFilter_UnmarshalJSON X p =
     bind_res (json_to_string p) (\<lambda>tmp.
       if isValidWildCard tmp then Inr \<lparr>sf_Wildcard = Some tmp, sf_ScVal = None\<rparr>
       else bind_res (sv_UnmarshalBase64 X tmp)
              (\<lambda>out. Inr \<lparr>sf_Wildcard = None, sf_ScVal = Some out\<rparr>))"

text \<open>The last branch is unreachable after \<open>SegmentFilter_Valid\<close>: Go would dereference nil.\<close>

definition SegmentFilter_MarshalJSON :: "'v scval_pkg \<Rightarrow> 'v SegmentFilter \<Rightarrow> json res" where
  "SegmentFilter_MarshalJSON X s =
     (case SegmentFilter_Valid s of
        Some e \<Rightarrow> Inl (Err e)
      | None \<Rightarrow>
          (case sf_Wildcard s of
             Some w \<Rightarrow> Inr (JString w)
           | None \<Rightarrow>
               (case sf_ScVal s of
                  Some v \<Rightarrow> bind_res (sv_MarshalBase64 X v) (\<lambda>scv. Inr (JString scv))
                | None \<Rightarrow> Inl (Panic ''nil pointer dereference''))))"

definition hasTrailingZeroOrMoreWildcard :: "'v TopicFilter \<Rightarrow> bool" where
  "hasTrailingZeroOrMoreWildcard t \<longleftrightarrow>
     (if t = [] then False else sf_Wildcard (last t) = Some WildCardZeroOrMore)"

text \<open>The loops that report the first bad element, with its one-based position.\<close>

fun misplaced_segment :: "nat \<Rightarrow> 'v SegmentFilter list \<Rightarrow> string option" where
  "misplaced_segment i [] = None"
| "misplaced_segment i (s # ss) =
     (if sf_Wildcard s = Some WildCardZeroOrMore then
        Some (''segment '' @ show_nat (i + 1) @ '' invalid: wildcard '' @ sq @ ''**'' @ sq @
              '' is only allowed as the last segment'')
      else misplaced_segment (Suc i) ss)"

fun first_invalid :: "string \<Rightarrow> ('a \<Rightarrow> string option) \<Rightarrow> nat \<Rightarrow> 'a list \<Rightarrow> string option" where
  "first_invalid what valid i [] = None"
| "first_invalid what valid i (x # xs) =
     (case valid x of
        Some err \<Rightarrow> Some (what @ '' '' @ show_nat (i + 1) @ '' invalid: '' @ err)
      | None \<Rightarrow> first_invalid what valid (Suc i) xs)"

definition TopicFilter_Valid :: "'v TopicFilter \<Rightarrow> string option" where
  "TopicFilter_Valid t =
     (if length t < MinTopicCount then
        Some (''topic must have at least '' @ show_nat MinTopicCount @ '' segment'')
      else
        let topics = (if hasTrailingZeroOrMoreWildcard t then take (length t - 1) t else t) in
        case misplaced_segment 0 topics of
          Some e \<Rightarrow> Some e
        | None \<Rightarrow>
            if length topics > MaxTopicCount then
              Some (''topic cannot have more than '' @ show_nat MaxTopicCount @ '' segments'')
            else first_invalid ''segment'' SegmentFilter_Valid 0 topics)"

text \<open>The loop over the segments; reading \<^verbatim>\<open>event[i]\<close> past the end panics.\<close>

fun match_segments :: "'v scval_pkg \<Rightarrow> 'v SegmentFilter list \<Rightarrow> 'v list \<Rightarrow> bool res" where
  "match_segments X [] event = Inr True"
| "match_segments X (s # ss) [] = Inl (Panic ''index out of range'')"
| "match_segments X (s # ss) (v # vs) =
     bind_res (SegmentFilter_Matches X s v)
       (\<lambda>ok. if \<not> ok then Inr False else match_segments X ss vs)"

definition TopicFilter_Matches :: "'v scval_pkg \<Rightarrow> 'v TopicFilter \<Rightarrow> 'v list \<Rightarrow> bool res" where
  "TopicFilter_Matches X t event =
     (if hasTrailingZeroOrMoreWildcard t then
        if length event < length t - 1 then Inr False
        else match_segments X (take (length t - 1) t) event
      else if length event \<noteq> length t then Inr False
      else match_segments X t event)"

subsection \<open>Event filters and requests\<close>

text \<open>A loop that stops at the first element for which the body answers true.\<close>

fun any_match :: "('a \<Rightarrow> bool res) \<Rightarrow> 'a list \<Rightarrow> bool res" where
  "any_match f [] = Inr False"
| "any_match f (x # xs) = bind_res (f x) (\<lambda>ok. if ok then Inr True else any_match f xs)"

fun bad_contract_id :: "strkey_pkg \<Rightarrow> nat \<Rightarrow> string list \<Rightarrow> string option" where
  "bad_contract_id K i [] = None"
| "bad_contract_id K i (x # xs) =
     (case sk_Decode K x of
        Inl _ \<Rightarrow> Some (''contract ID '' @ show_nat (i + 1) @ '' invalid'')
      | Inr _ \<Rightarrow> bad_contract_id K (Suc i) xs)"

definition EventFilter_Valid :: "strkey_pkg \<Rightarrow> 'v EventFilter \<Rightarrow> string option" where
  "EventFilter_Valid K e =
     (case EventTypeSet_valid (ef_EventType e) of
        Some err \<Rightarrow> Some (''filter type invalid: '' @ err)
      | None \<Rightarrow>
          if length (ef_ContractIDs e) > MaxContractIDsLimit then
            Some ''maximum 5 contract IDs per filter''
          else if length (ef_Topics e) > MaxTopicsLimit then
            Some ''maximum 5 topics per filter''
          else (case bad_contract_id K 0 (ef_ContractIDs e) of
                  Some err \<Rightarrow> Some err
                | None \<Rightarrow> first_invalid ''topic'' TopicFilter_Valid 0 (ef_Topics e)))"

definition matchesContractIDs ::
  "strkey_pkg \<Rightarrow> 'v EventFilter \<Rightarrow> 'v ContractEvent \<Rightarrow> bool res" where
  "matchesContractIDs K e event =
     (if ef_ContractIDs e = [] then Inr True
      else (case ce_ContractId event of
              None \<Rightarrow> Inr False
            | Some c \<Rightarrow> bind_res (sk_MustEncode K c)
                (\<lambda>needle. Inr (needle \<in> set (ef_ContractIDs e)))))"

definition matchesTopics ::
  "'v scval_pkg \<Rightarrow> 'v EventFilter \<Rightarrow> 'v ContractEvent \<Rightarrow> bool res" where
  "matchesTopics X e event =
     (if ef_Topics e = [] then Inr True
      else (case ce_Body event of
              None \<Rightarrow> Inr False
            | Some v0 \<Rightarrow> any_match (\<lambda>t. TopicFilter_Matches X t (v0_Topics v0)) (ef_Topics e)))"

text \<open>Go's conjunction evaluates from the left and stops at the first false operand.\<close>

definition EventFilter_Matches ::
  "strkey_pkg \<Rightarrow> 'v scval_pkg \<Rightarrow> 'v EventFilter \<Rightarrow> 'v DiagnosticEvent \<Rightarrow> bool res" where
  "EventFilter_Matches K X e event =
     (if \<not> EventTypeSet_matches (ef_EventType e) (de_Event event) then Inr False
      else bind_res (matchesContractIDs K e (de_Event event)) (\<lambda>ok.
        if \<not> ok then Inr False else matchesTopics X e (de_Event event)))"

definition GetEventsRequest_Valid ::
  "strkey_pkg \<Rightarrow> 'v GetEventsRequest \<Rightarrow> nat \<Rightarrow> string option" where
  "GetEventsRequest_Valid K g maxLimit =
     (case IsValidFormat (ger_Format g) of
        Some err \<Rightarrow> Some err
      | None \<Rightarrow>
          if (\<exists>p \<in> set_option (ger_Pagination g). po_Cursor p \<noteq> None) \<and>
             (ger_StartLedger g \<noteq> 0 \<or> ger_EndLedger g \<noteq> 0) then
            Some ''ledger ranges and cursor cannot both be set''
          else if \<not> (\<exists>p \<in> set_option (ger_Pagination g). po_Cursor p \<noteq> None) \<and>
             ger_StartLedger g \<le> 0 then
            Some ''startLedger must be positive''
          else if \<exists>p \<in> set_option (ger_Pagination g). po_Limit p > maxLimit then
            Some (''limit must not exceed '' @ show_nat maxLimit)
          else if length (ger_Filters g) > MaxFiltersLimit then
            Some ''maximum 5 filters per request''
          else first_invalid ''filter'' (EventFilter_Valid K) 0 (ger_Filters g))"

definition GetEventsRequest_Matches ::
  "strkey_pkg \<Rightarrow> 'v scval_pkg \<Rightarrow> 'v GetEventsRequest \<Rightarrow> 'v DiagnosticEvent \<Rightarrow> bool res" where
  "GetEventsRequest_Matches K X g event =
     (if ger_Filters g = [] then Inr True
      else any_match (\<lambda>filter. EventFilter_Matches K X filter event) (ger_Filters g))"

subsection \<open>What the filters mean\<close>

text \<open>
  The topic patterns as a language: a star stands for one topic, a value for an equal
  topic, and a double star, which can only close a pattern, for any rest.
\<close>

inductive topic_lang :: "('v \<Rightarrow> 'v \<Rightarrow> bool) \<Rightarrow> 'v TopicFilter \<Rightarrow> 'v list \<Rightarrow> bool"
  for eq :: "'v \<Rightarrow> 'v \<Rightarrow> bool" where
  empty: "topic_lang eq [] []"
| rest: "topic_lang eq [\<lparr>sf_Wildcard = Some ''**'', sf_ScVal = None\<rparr>] vs"
| one: "topic_lang eq t vs \<Longrightarrow>
    topic_lang eq (\<lparr>sf_Wildcard = Some ''*'', sf_ScVal = None\<rparr> # t) (v # vs)"
| val: "eq u v \<Longrightarrow> topic_lang eq t vs \<Longrightarrow>
    topic_lang eq (\<lparr>sf_Wildcard = None, sf_ScVal = Some u\<rparr> # t) (v # vs)"

inductive_simps topic_lang_Nil: "topic_lang eq [] vs"
inductive_simps topic_lang_Cons: "topic_lang eq (s # t) vs"

definition filter_lang ::
  "strkey_pkg \<Rightarrow> 'v scval_pkg \<Rightarrow> 'v EventFilter \<Rightarrow> 'v ContractEvent \<Rightarrow> bool" where
  "filter_lang K X f ev \<longleftrightarrow>
     (ef_EventType f = [] \<or>
        (\<exists>n \<in> set (ef_EventType f). GetEventTypeXDRFromEventType n = Some (ce_Type ev))) \<and>
     (ef_ContractIDs f = [] \<or>
        (\<exists>c. ce_ContractId ev = Some c \<and>
             (\<exists>id \<in> set (ef_ContractIDs f). sk_MustEncode K c = Inr id))) \<and>
     (ef_Topics f = [] \<or>
        (\<exists>v0. ce_Body ev = Some v0 \<and>
              (\<exists>t \<in> set (ef_Topics f). topic_lang (sv_Equals X) t (v0_Topics v0))))"

definition request_lang ::
  "strkey_pkg \<Rightarrow> 'v scval_pkg \<Rightarrow> 'v GetEventsRequest \<Rightarrow> 'v ContractEvent \<Rightarrow> bool" where
  "request_lang K X g ev \<longleftrightarrow> ger_Filters g = [] \<or> (\<exists>f \<in> set (ger_Filters g). filter_lang K X f ev)"

text \<open>
  What the code relies on of \<^verbatim>\<open>strkey\<close>: the 32 bytes of a contract id have a text form,
  decoding undoes it, and only a text form of 32 bytes decodes.
\<close>

definition strkey_spec :: "strkey_pkg \<Rightarrow> bool" where
  "strkey_spec K \<longleftrightarrow>
     (\<forall>b. length b = 32 \<longrightarrow>
        (\<exists>s. sk_MustEncode K b = Inr s \<and> sk_Encode K b = Inr s \<and> sk_Decode K s = Inr b)) \<and>
     (\<forall>s b. sk_Decode K s = Inr b \<longrightarrow> length b = 32 \<and> sk_Encode K b = Inr s)"

definition event_ids_ok :: "'v ContractEvent \<Rightarrow> bool" where
  "event_ids_ok ev \<longleftrightarrow> (\<forall>c. ce_ContractId ev = Some c \<longrightarrow> length c = 32)"

subsection \<open>Validation\<close>

lemma first_invalid_None:
  "first_invalid what valid i xs = None \<longleftrightarrow> (\<forall>x \<in> set xs. valid x = None)"
  by (induction xs arbitrary: i) (auto split: option.splits)

lemma misplaced_segment_None:
  "misplaced_segment i ss = None \<longleftrightarrow> (\<forall>s \<in> set ss. sf_Wildcard s \<noteq> Some WildCardZeroOrMore)"
  by (induction ss arbitrary: i) auto

lemma bad_contract_id_None:
  "bad_contract_id K i ids = None \<longleftrightarrow> (\<forall>s \<in> set ids. \<exists>b. sk_Decode K s = Inr b)"
  by (induction ids arbitrary: i) (auto split: sum.splits)

lemma SegmentFilter_Valid_None:
  "SegmentFilter_Valid s = None \<longleftrightarrow>
     (s = \<lparr>sf_Wildcard = Some ''*'', sf_ScVal = None\<rparr> \<or>
      s = \<lparr>sf_Wildcard = Some ''**'', sf_ScVal = None\<rparr> \<or>
      (\<exists>v. s = \<lparr>sf_Wildcard = None, sf_ScVal = Some v\<rparr>))"
  by (cases s) (auto simp: SegmentFilter_Valid_def isValidWildCard_def wildcard_defs
      split: option.splits if_splits)

definition plain_segment :: "'v SegmentFilter \<Rightarrow> bool" where
  "plain_segment s \<longleftrightarrow> SegmentFilter_Valid s = None \<and> sf_Wildcard s \<noteq> Some WildCardZeroOrMore"

lemma plain_segment_iff:
  "plain_segment s \<longleftrightarrow>
     s = \<lparr>sf_Wildcard = Some ''*'', sf_ScVal = None\<rparr> \<or>
     (\<exists>v. s = \<lparr>sf_Wildcard = None, sf_ScVal = Some v\<rparr>)"
  by (auto simp: plain_segment_def SegmentFilter_Valid_None wildcard_defs)

text \<open>A valid topic filter is one to four plain segments, or up to four followed by the
  double star, whose own \<^verbatim>\<open>ScVal\<close> field the code does not look at.\<close>

lemma TopicFilter_Valid_None:
  "TopicFilter_Valid t = None \<longleftrightarrow>
     (\<exists>topics. list_all plain_segment topics \<and> length topics \<le> MaxTopicCount \<and>
        (t = topics \<and> t \<noteq> [] \<or>
         (\<exists>s. sf_Wildcard s = Some WildCardZeroOrMore \<and> t = topics @ [s])))"
proof (cases "t = []")
  case True
  then show ?thesis by (simp add: TopicFilter_Valid_def limit_defs)
next
  case False
  show ?thesis
  proof (cases "hasTrailingZeroOrMoreWildcard t")
    case True
    with False have w: "sf_Wildcard (last t) = Some WildCardZeroOrMore"
      by (simp add: hasTrailingZeroOrMoreWildcard_def)
    have split: "t = butlast t @ [last t]" using False by simp
    have "TopicFilter_Valid t = None \<longleftrightarrow>
        list_all plain_segment (butlast t) \<and> length (butlast t) \<le> MaxTopicCount"
      using False True
      by (auto simp: TopicFilter_Valid_def Let_def misplaced_segment_None first_invalid_None
          plain_segment_def list_all_iff butlast_conv_take MinTopicCount_def Suc_le_eq)
    also have "\<dots> \<longleftrightarrow> (\<exists>topics. list_all plain_segment topics \<and> length topics \<le> MaxTopicCount \<and>
        (\<exists>s. sf_Wildcard s = Some WildCardZeroOrMore \<and> t = topics @ [s]))"
      using w split by (metis butlast_snoc)
    also have "\<dots> \<longleftrightarrow> (\<exists>topics. list_all plain_segment topics \<and> length topics \<le> MaxTopicCount \<and>
        (t = topics \<and> t \<noteq> [] \<or> (\<exists>s. sf_Wildcard s = Some WildCardZeroOrMore \<and> t = topics @ [s])))"
      using w False last_in_set [OF False] by (auto simp: plain_segment_def list_all_iff)
    finally show ?thesis .
  next
    case nt: False
    with False have "sf_Wildcard (last t) \<noteq> Some WildCardZeroOrMore"
      by (simp add: hasTrailingZeroOrMoreWildcard_def)
    then have no: "\<not> (\<exists>topics s. sf_Wildcard s = Some WildCardZeroOrMore \<and> t = topics @ [s])"
      by auto
    have "TopicFilter_Valid t = None \<longleftrightarrow>
        list_all plain_segment t \<and> length t \<le> MaxTopicCount"
      using False nt
      by (auto simp: TopicFilter_Valid_def Let_def misplaced_segment_None first_invalid_None
          plain_segment_def list_all_iff MinTopicCount_def Suc_le_eq)
    with no False show ?thesis by blast
  qed
qed

lemma EventTypeSet_valid_None:
  "EventTypeSet_valid e = None \<longleftrightarrow>
     set e \<subseteq> {EventTypeSystem, EventTypeContract, EventTypeDiagnostic}"
  by (auto simp: EventTypeSet_valid_def list_all_iff split: if_splits)

lemma EventFilter_Valid_None:
  "EventFilter_Valid K f = None \<longleftrightarrow>
     set (ef_EventType f) \<subseteq> {EventTypeSystem, EventTypeContract, EventTypeDiagnostic} \<and>
     length (ef_ContractIDs f) \<le> MaxContractIDsLimit \<and> length (ef_Topics f) \<le> MaxTopicsLimit \<and>
     (\<forall>id \<in> set (ef_ContractIDs f). \<exists>b. sk_Decode K id = Inr b) \<and>
     (\<forall>t \<in> set (ef_Topics f). TopicFilter_Valid t = None)"
  unfolding EventTypeSet_valid_None [symmetric] bad_contract_id_None [symmetric, of _ _ 0]
    first_invalid_None [symmetric, of _ _ "''topic''" 0]
  by (auto simp: EventFilter_Valid_def split: option.splits)

lemma GetEventsRequest_Valid_None:
  "GetEventsRequest_Valid K g maxLimit = None \<longleftrightarrow>
     IsValidFormat (ger_Format g) = None \<and>
     (if \<exists>p. ger_Pagination g = Some p \<and> po_Cursor p \<noteq> None
      then ger_StartLedger g = 0 \<and> ger_EndLedger g = 0 else ger_StartLedger g > 0) \<and>
     (\<forall>p. ger_Pagination g = Some p \<longrightarrow> po_Limit p \<le> maxLimit) \<and>
     length (ger_Filters g) \<le> MaxFiltersLimit \<and>
     (\<forall>f \<in> set (ger_Filters g). EventFilter_Valid K f = None)"
  unfolding first_invalid_None [symmetric, of _ _ "''filter''" 0]
  by (auto simp: GetEventsRequest_Valid_def word_gt_0 not_le split: option.splits)

subsection \<open>Matching\<close>

lemma SegmentFilter_Matches_plain:
  assumes "plain_segment s"
  shows "SegmentFilter_Matches X s v =
    Inr (case sf_ScVal s of None \<Rightarrow> True | Some u \<Rightarrow> sv_Equals X u v)"
  using assms
  by (auto simp: plain_segment_iff SegmentFilter_Matches_def isValidWildCard_def wildcard_defs)

lemma match_segments_exact:
  assumes "list_all plain_segment ss" and "length vs = length ss"
  shows "match_segments X ss vs = Inr (topic_lang (sv_Equals X) ss vs)"
  using assms(2,1)
  by (induction vs ss rule: list_induct2)
    (auto simp: topic_lang_Nil topic_lang_Cons plain_segment_iff
      SegmentFilter_Matches_def isValidWildCard_def wildcard_defs)

lemma match_segments_prefix:
  assumes "list_all plain_segment ss" and "length ss \<le> length vs"
  shows "match_segments X ss vs = Inr (topic_lang (sv_Equals X)
    (ss @ [\<lparr>sf_Wildcard = Some ''**'', sf_ScVal = None\<rparr>]) vs)"
  using assms
proof (induction ss arbitrary: vs)
  case Nil
  then show ?case by (simp add: topic_lang.rest)
next
  case (Cons s ss)
  then obtain v vs' where "vs = v # vs'" by (cases vs) auto
  with Cons show ?case
    by (auto simp: topic_lang_Cons [of _ s] plain_segment_iff
        SegmentFilter_Matches_def isValidWildCard_def wildcard_defs)
qed

lemma topic_lang_length:
  "topic_lang eq t vs \<Longrightarrow> list_all plain_segment t \<Longrightarrow> length vs = length t"
  by (induction rule: topic_lang.induct) (auto simp: plain_segment_def wildcard_defs)

lemma topic_lang_length_rest:
  assumes "topic_lang eq t vs" and "t = ss @ [s]"
  shows "length ss \<le> length vs"
  using assms
proof (induction arbitrary: ss rule: topic_lang.induct)
  case (one t vs v)
  then show ?case by (cases ss) auto
next
  case (val u v t vs)
  then show ?case by (cases ss) auto
qed auto

text \<open>The segment that closes a pattern is compared only by its wildcard; requests are built
  by \<^verbatim>\<open>UnmarshalJSON\<close>, which never sets both fields.\<close>

definition decoded_topic :: "'v TopicFilter \<Rightarrow> bool" where
  "decoded_topic t \<longleftrightarrow> list_all (\<lambda>s. sf_Wildcard s = None \<or> sf_ScVal s = None) t"

lemma TopicFilter_Matches_lang:
  assumes "TopicFilter_Valid t = None" and "decoded_topic t"
  shows "TopicFilter_Matches X t vs = Inr (topic_lang (sv_Equals X) t vs)"
proof -
  from assms(1) obtain topics where
    plain: "list_all plain_segment topics" and
    t: "t = topics \<and> t \<noteq> [] \<or> (\<exists>s. sf_Wildcard s = Some WildCardZeroOrMore \<and> t = topics @ [s])"
    by (auto simp: TopicFilter_Valid_None)
  from t consider (exact) "t = topics" "t \<noteq> []"
    | (rest) s where "sf_Wildcard s = Some WildCardZeroOrMore" "t = topics @ [s]" by blast
  then show ?thesis
  proof cases
    case exact
    with plain have "sf_Wildcard (last t) \<noteq> Some WildCardZeroOrMore"
      by (simp add: list_all_iff plain_segment_def)
    then have "\<not> hasTrailingZeroOrMoreWildcard t"
      by (simp add: hasTrailingZeroOrMoreWildcard_def)
    with exact plain show ?thesis
      by (auto simp: TopicFilter_Matches_def match_segments_exact dest: topic_lang_length)
  next
    case rest
    with assms(2) have s: "s = \<lparr>sf_Wildcard = Some ''**'', sf_ScVal = None\<rparr>"
      by (cases s) (simp add: decoded_topic_def wildcard_defs)
    have "hasTrailingZeroOrMoreWildcard t"
      using rest by (simp add: hasTrailingZeroOrMoreWildcard_def)
    with rest plain s show ?thesis
      by (auto simp: TopicFilter_Matches_def match_segments_prefix
          dest: topic_lang_length_rest [OF _ refl])
  qed
qed

lemma any_match_total:
  assumes "\<And>x. x \<in> set xs \<Longrightarrow> f x = Inr (P x)"
  shows "any_match f xs = Inr (\<exists>x \<in> set xs. P x)"
  using assms by (induction xs) auto

lemma event_type_names_inverse:
  "n \<noteq> '''' \<Longrightarrow>
    (case GetEventTypeFromEventTypeXDR ty of Some m \<Rightarrow> m | None \<Rightarrow> '''') = n \<longleftrightarrow>
    GetEventTypeXDRFromEventType n = Some ty"
  by (auto simp: GetEventTypeFromEventTypeXDR_def GetEventTypeXDRFromEventType_def
      event_type_defs event_name_defs)

lemma EventTypeSet_matches_iff:
  assumes "EventTypeSet_valid e = None"
  shows "EventTypeSet_matches e ev \<longleftrightarrow>
    e = [] \<or> (\<exists>n \<in> set e. GetEventTypeXDRFromEventType n = Some (ce_Type ev))"
proof -
  have "n \<noteq> ''''" if "n \<in> set e" for n
    using that assms by (auto simp: EventTypeSet_valid_None event_name_defs)
  then show ?thesis
    by (auto simp: EventTypeSet_matches_def event_type_names_inverse [symmetric])
qed

definition decoded_request :: "'v GetEventsRequest \<Rightarrow> bool" where
  "decoded_request g \<longleftrightarrow> (\<forall>f \<in> set (ger_Filters g). \<forall>t \<in> set (ef_Topics f). decoded_topic t)"

lemma EventFilter_Matches_lang:
  assumes "EventFilter_Valid K f = None" and "\<forall>t \<in> set (ef_Topics f). decoded_topic t"
    and "strkey_spec K" and "event_ids_ok (de_Event ev)"
  shows "EventFilter_Matches K X f ev = Inr (filter_lang K X f (de_Event ev))"
proof -
  let ?ev = "de_Event ev"
  have types: "EventTypeSet_matches (ef_EventType f) ?ev \<longleftrightarrow> ef_EventType f = [] \<or>
      (\<exists>n \<in> set (ef_EventType f). GetEventTypeXDRFromEventType n = Some (ce_Type ?ev))"
    using assms(1) by (simp add: EventTypeSet_matches_iff EventFilter_Valid_None EventTypeSet_valid_None)
  have ids: "matchesContractIDs K f ?ev = Inr (ef_ContractIDs f = [] \<or>
        (\<exists>c. ce_ContractId ?ev = Some c \<and>
             (\<exists>id \<in> set (ef_ContractIDs f). sk_MustEncode K c = Inr id)))"
  proof (cases "ce_ContractId ?ev")
    case (Some c)
    with assms(3,4) obtain s where "sk_MustEncode K c = Inr s"
      unfolding strkey_spec_def event_ids_ok_def by blast
    with Some show ?thesis by (auto simp: matchesContractIDs_def)
  qed (simp add: matchesContractIDs_def)
  have topics: "matchesTopics X f ?ev = Inr (ef_Topics f = [] \<or>
        (\<exists>v0. ce_Body ?ev = Some v0 \<and>
              (\<exists>t \<in> set (ef_Topics f). topic_lang (sv_Equals X) t (v0_Topics v0))))"
  proof (cases "ce_Body ?ev")
    case (Some v0)
    have "any_match (\<lambda>t. TopicFilter_Matches X t (v0_Topics v0)) (ef_Topics f) =
        Inr (\<exists>t \<in> set (ef_Topics f). topic_lang (sv_Equals X) t (v0_Topics v0))"
      using assms(1,2)
      by (intro any_match_total) (simp add: TopicFilter_Matches_lang EventFilter_Valid_None)
    with Some show ?thesis by (simp add: matchesTopics_def)
  qed (simp add: matchesTopics_def)
  show ?thesis
    by (simp add: EventFilter_Matches_def types ids topics filter_lang_def)
qed

subsection \<open>Properties\<close>

lemma request_matches_lang:
  assumes "GetEventsRequest_Valid K g maxLimit = None" and "decoded_request g"
    and "strkey_spec K" and "event_ids_ok (de_Event ev)"
  shows "GetEventsRequest_Matches K X g ev = Inr (request_lang K X g (de_Event ev))"
proof -
  have "EventFilter_Matches K X f ev = Inr (filter_lang K X f (de_Event ev))"
    if "f \<in> set (ger_Filters g)" for f
    using assms that
    by (intro EventFilter_Matches_lang) (auto simp: GetEventsRequest_Valid_None decoded_request_def)
  then have "any_match (\<lambda>f. EventFilter_Matches K X f ev) (ger_Filters g) =
      Inr (\<exists>f \<in> set (ger_Filters g). filter_lang K X f (de_Event ev))"
    by (rule any_match_total)
  then show ?thesis by (simp add: GetEventsRequest_Matches_def request_lang_def)
qed

text \<open>C10: On a validated request, as the JSON decoder builds it, matching never panics and
  decides the declarative reading: some filter accepts the event's type, its contract id and its
  topics, where a star is one topic and a final double star is any rest.\<close>

theorem request_match_correct:
  assumes "GetEventsRequest_Valid K g maxLimit = None" and "decoded_request g"
    and "strkey_spec K" and "event_ids_ok (de_Event ev)"
  shows "GetEventsRequest_Matches K X g ev = Inr (request_lang K X g (de_Event ev))"
  using assms by (rule request_matches_lang)

text \<open>A contract id written as itself is the simplest text form the specification allows.\<close>

definition plain_strkey :: strkey_pkg where
  "plain_strkey =
     \<lparr>sk_Decode = (\<lambda>s. if length s = 32 then Inr s else Inl (Err ''invalid length'')),
      sk_MustEncode = (\<lambda>b. if length b = 32 then Inr b else Inl (Panic ''invalid length'')),
      sk_Encode = (\<lambda>b. if length b = 32 then Inr b else Inl (Err ''invalid length''))\<rparr>"

lemma plain_strkey_spec: "strkey_spec plain_strkey"
  by (simp add: strkey_spec_def plain_strkey_def)

definition int_scvals :: "int scval_pkg" where
  "int_scvals =
     \<lparr>sv_Equals = (=), sv_MarshalBase64 = (\<lambda>v. Inr (itoa v)), sv_UnmarshalBase64 = ParseInt 64,
      sv_MarshalBinary = (\<lambda>v. Inr (itoa v))\<rparr>"

definition example_request :: "int GetEventsRequest" where
  "example_request =
     \<lparr>ger_StartLedger = 5, ger_EndLedger = 0,
      ger_Filters =
        [\<lparr>ef_EventType = [''contract''], ef_ContractIDs = [replicate 32 CHR ''C''],
          ef_Topics = [[\<lparr>sf_Wildcard = None, sf_ScVal = Some 7\<rparr>,
                        \<lparr>sf_Wildcard = Some ''*'', sf_ScVal = None\<rparr>,
                        \<lparr>sf_Wildcard = Some ''**'', sf_ScVal = None\<rparr>]]\<rparr>],
      ger_Pagination = None, ger_Format = ''''\<rparr>"

definition example_event :: "int DiagnosticEvent" where
  "example_event =
     \<lparr>de_InSuccessfulContractCall = True,
      de_Event = \<lparr>ce_ContractId = Some (replicate 32 CHR ''C''), ce_Type = 1,
                  ce_Body = Some \<lparr>v0_Topics = [7, 8], v0_Data = 0\<rparr>\<rparr>\<rparr>"

lemma example_request_valid: "GetEventsRequest_Valid plain_strkey example_request 100 = None"
  by code_simp

lemma example_request_decoded: "decoded_request example_request"
  by (simp add: decoded_request_def decoded_topic_def example_request_def)

theorem request_match_correct_witness:
  "GetEventsRequest_Matches plain_strkey int_scvals example_request example_event =
     Inr (request_lang plain_strkey int_scvals example_request (de_Event example_event)) \<and>
   request_lang plain_strkey int_scvals example_request (de_Event example_event)"
proof -
  have "event_ids_ok (de_Event example_event)"
    by (simp add: event_ids_ok_def example_event_def)
  note m = request_match_correct [OF example_request_valid example_request_decoded
      plain_strkey_spec this, of int_scvals]
  have "GetEventsRequest_Matches plain_strkey int_scvals example_request example_event = Inr True"
    by code_simp
  with m show ?thesis by simp
qed

text \<open>A segment filter that passes validation survives marshalling to JSON and back, when
  base64 text of a value decodes to that value and is never a wildcard.\<close>

theorem segment_json_round_trip:
  assumes "SegmentFilter_Valid s = None"
    and "\<And>v. sf_ScVal s = Some v \<Longrightarrow> \<exists>b. sv_MarshalBase64 X v = Inr b \<and>
           \<not> isValidWildCard b \<and> sv_UnmarshalBase64 X b = Inr v"
  shows "bind_res (SegmentFilter_MarshalJSON X s) (SegmentFilter_UnmarshalJSON X) = Inr s"
proof -
  from assms(1) consider "s = \<lparr>sf_Wildcard = Some ''*'', sf_ScVal = None\<rparr>"
    | "s = \<lparr>sf_Wildcard = Some ''**'', sf_ScVal = None\<rparr>"
    | v where "s = \<lparr>sf_Wildcard = None, sf_ScVal = Some v\<rparr>"
    by (auto simp: SegmentFilter_Valid_None)
  then show ?thesis
    using assms
    by cases (auto simp: SegmentFilter_MarshalJSON_def SegmentFilter_UnmarshalJSON_def
        isValidWildCard_def wildcard_defs)
qed

theorem segment_json_round_trip_witness:
  "bind_res (SegmentFilter_MarshalJSON int_scvals \<lparr>sf_Wildcard = None, sf_ScVal = Some 7\<rparr>)
     (SegmentFilter_UnmarshalJSON int_scvals) = Inr \<lparr>sf_Wildcard = None, sf_ScVal = Some 7\<rparr>"
proof (rule segment_json_round_trip)
  show "SegmentFilter_Valid \<lparr>sf_Wildcard = None, sf_ScVal = Some (7::int)\<rparr> = None"
    by code_simp
next
  fix v :: int
  assume "sf_ScVal \<lparr>sf_Wildcard = None, sf_ScVal = Some 7\<rparr> = Some v"
  then have v: "v = 7" by simp
  have "itoa 7 = ''7''" by code_simp
  then have "sv_MarshalBase64 int_scvals 7 = Inr ''7'' \<and> \<not> isValidWildCard ''7'' \<and>
      sv_UnmarshalBase64 int_scvals ''7'' = Inr 7"
    using ParseInt_sprintf0 [of 7 64 0]
    by (simp add: int_scvals_def itoa_def isValidWildCard_def wildcard_defs)
  with v show "\<exists>b. sv_MarshalBase64 int_scvals v = Inr b \<and> \<not> isValidWildCard b \<and>
      sv_UnmarshalBase64 int_scvals b = Inr v" by blast
qed

end
