(* ===== verification/Store.thy ===== *)
theory Store
  imports SqlTables EventFilters
begin

text \<open>
  The tables of the SQLite store and the statements on them: \<^verbatim>\<open>db/ledger.go\<close>,
  \<^verbatim>\<open>db/transaction.go\<close> and \<^verbatim>\<open>db/event.go\<close>, over the schema of \<^verbatim>\<open>db/sqlmigrations\<close>. The engine
  is a parameter: any statement may fail with an error the engine chooses, and a query
  without \<^verbatim>\<open>ORDER BY\<close> may return its rows in any order the engine chooses. A write returns
  the error, if any, beside the tables it leaves, since rows inserted before a failure stay
  in the open transaction until it is rolled back.
\<close>

subsection \<open>The engine\<close>

datatype stmt =
    SelectLedger u32 | SelectOldestLedger | SelectLedgerBounds | SelectLedgerBatch u32 u32
  | StreamLedgers | StreamRange u32 u32 | ScanLedger u32
  | InsertLedgerRow u32 | DeleteLedgers u32
  | InsertTransactionRows u32 | DeleteTransactions u32 | TruncateTransactions
  | SelectTransaction bytes
  | InsertEventRows u32 u32 | DeleteEvents string | SelectEvents string string | ScanEvent string
  | SelectMeta string | ReplaceMeta string
  | BeginTx | CommitTx | RollbackTx | Checkpoint

record engine =
  eng_fault :: "stmt \<Rightarrow> go_error option"
  eng_order :: "nat \<Rightarrow> nat list"

definition exec_stmt :: "engine \<Rightarrow> stmt \<Rightarrow> 'a res \<Rightarrow> 'a res" where
  "exec_stmt E s r = (case eng_fault E s of Some e \<Rightarrow> Inl e | None \<Rightarrow> r)"

text \<open>The order of \<^verbatim>\<open>n\<close> rows that no \<^verbatim>\<open>ORDER BY\<close> fixes, as positions in key order.\<close>

definition unordered :: "engine \<Rightarrow> 'a list \<Rightarrow> 'a list" where
  "unordered E xs = map (\<lambda>i. xs ! i) (eng_order E (length xs))"

definition engine_permutes :: "engine \<Rightarrow> bool" where
  "engine_permutes E \<longleftrightarrow> (\<forall>n. mset (eng_order E n) = mset [0..<n])"

definition no_faults :: "engine \<Rightarrow> bool" where
  "no_faults E \<longleftrightarrow> (\<forall>s. eng_fault E s = None)"

text \<open>A write: apply the statement, or report its failure and leave the tables alone.\<close>

definition exec_write :: "engine \<Rightarrow> stmt \<Rightarrow> ('t \<Rightarrow> 't res) \<Rightarrow> 't \<Rightarrow> go_error option \<times> 't" where
  "exec_write E s f t =
     (case exec_stmt E s (f t) of Inl e \<Rightarrow> (Some e, t) | Inr t' \<Rightarrow> (None, t'))"

subsection \<open>Schema\<close>

record event_row =
  er_contract_id :: "bytes option"
  er_event_type :: int
  er_event_data :: bytes
  er_ledger_close_time :: i64
  er_transaction_hash :: bytes
  er_topics :: "bytes option list"

record tx_row =
  tr_ledger_sequence :: u32
  tr_application_order :: int

record 'v tables =
  ledger_close_meta :: "(u32, 'v LedgerCloseMeta) table"
  transactions :: "(bytes, tx_row) table"
  events :: "(string, event_row) table"
  metadata :: "(string, string) table"

definition empty_tables :: "'v tables" where
  "empty_tables = \<lparr>ledger_close_meta = [], transactions = [], events = [], metadata = []\<rparr>"

definition couldnt :: "string \<Rightarrow> string" where
  "couldnt what = ''couldn'' @ sq @ ''t '' @ what"

definition ErrEmptyDB :: go_error where
  "ErrEmptyDB = Err ''DB is empty''"

definition ErrNoTransaction :: go_error where
  "ErrNoTransaction = Err ''no transaction with this hash exists''"

subsection \<open>ledger.go: reading\<close>

definition getLedgerFromDB ::
  "engine \<Rightarrow> u32 \<Rightarrow> 'v tables \<Rightarrow> ('v LedgerCloseMeta option) res" where
  "getLedgerFromDB E sequence t =
     bind_res (exec_stmt E (SelectLedger sequence)
         (Inr (map snd (select_rows (\<lambda>k r. k = sequence) (ledger_close_meta t)))))
       (\<lambda>results. case results of
          [] \<Rightarrow> Inr None
        | [x] \<Rightarrow> Inr (Some x)
        | _ \<Rightarrow> Inl (Err (''multiple lcm entries ('' @ show_nat (length results) @
              '') for sequence '' @ show_u32 sequence @ '' in table ledger_close_meta'')))"

definition ledger_info :: "'v LedgerCloseMeta \<Rightarrow> LedgerInfo" where
  "ledger_info m = \<lparr>li_Sequence = lcm_LedgerSequence m, li_CloseTime = lcm_LedgerCloseTime m\<rparr>"

text \<open>\<^verbatim>\<open>SELECT MIN(sequence)\<close>, \<^verbatim>\<open>MAX(sequence)\<close>: NULL, equal to no key, on an empty table.\<close>

definition min_key :: "('k::linorder, 'r) table \<Rightarrow> 'k option" where
  "min_key t = (if t = [] then None else Some (Min (set (map fst t))))"

definition max_key :: "('k::linorder, 'r) table \<Rightarrow> 'k option" where
  "max_key t = (if t = [] then None else Some (Max (set (map fst t))))"

definition getLedgerRangeWithCache ::
  "engine \<Rightarrow> u32 \<Rightarrow> i64 \<Rightarrow> 'v tables \<Rightarrow> LedgerRange res" where
  "getLedgerRangeWithCache E latestSeq latestTime t =
     (let tbl = ledger_close_meta t in
      bind_res (map_err (wrap_err (couldnt ''query ledger range: ''))
          (exec_stmt E SelectOldestLedger
            (Inr (map snd (select_rows (\<lambda>k r. Some k = min_key tbl) tbl)))))
        (\<lambda>metas. case metas of
           [] \<Rightarrow> Inl ErrEmptyDB
         | m # _ \<Rightarrow> Inr \<lparr>lr_FirstLedger = ledger_info m,
             lr_LastLedger = \<lparr>li_Sequence = latestSeq, li_CloseTime = latestTime\<rparr>\<rparr>))"

definition getLedgerRangeWithoutCache :: "engine \<Rightarrow> 'v tables \<Rightarrow> LedgerRange res" where
  "getLedgerRangeWithoutCache E t =
     (let tbl = ledger_close_meta t in
      bind_res (map_err (wrap_err (couldnt ''query ledger range: ''))
          (exec_stmt E SelectLedgerBounds
            (Inr (map snd (select_rows
               (\<lambda>k r. Some k = min_key tbl \<or> Some k = max_key tbl) tbl)))))
        (\<lambda>metas. case metas of
           [] \<Rightarrow> Inl ErrEmptyDB
         | m # _ \<Rightarrow> Inr \<lparr>lr_FirstLedger = ledger_info m,
             lr_LastLedger = ledger_info (last metas)\<rparr>))"

definition BatchGetLedgers ::
  "engine \<Rightarrow> u32 \<Rightarrow> u32 \<Rightarrow> 'v tables \<Rightarrow> ('v LedgerCloseMeta list) res" where
  "BatchGetLedgers E start end t =
     (if start > end then Inl (Err ''batch size must be greater than zero'')
      else exec_stmt E (SelectLedgerBatch start end)
        (Inr (unordered E (map snd
           (select_rows (\<lambda>k r. k \<ge> start \<and> k \<le> end) (ledger_close_meta t))))))"

text \<open>
  The streaming loops. The callback threads a state of its own and may return an error, which
  stops the stream.
\<close>

fun stream_rows ::
  "engine \<Rightarrow> ('v LedgerCloseMeta \<Rightarrow> 's \<Rightarrow> go_error option \<times> 's) \<Rightarrow>
   (u32 \<times> 'v LedgerCloseMeta) list \<Rightarrow> 's \<Rightarrow> go_error option \<times> 's" where
  "stream_rows E f [] s = (None, s)"
| "stream_rows E f ((k, closeMeta) # rows) s =
     (case eng_fault E (ScanLedger k) of
        Some err \<Rightarrow> (Some err, s)
      | None \<Rightarrow> (case f closeMeta s of
                   (Some err, s') \<Rightarrow> (Some err, s')
                 | (None, s') \<Rightarrow> stream_rows E f rows s'))"

definition StreamAllLedgers ::
  "engine \<Rightarrow> ('v LedgerCloseMeta \<Rightarrow> 's \<Rightarrow> go_error option \<times> 's) \<Rightarrow> 'v tables \<Rightarrow> 's \<Rightarrow>
   go_error option \<times> 's" where
  "StreamAllLedgers E f t s =
     (case eng_fault E StreamLedgers of
        Some err \<Rightarrow> (Some err, s)
      | None \<Rightarrow> stream_rows E f (ledger_close_meta t) s)"

definition StreamLedgerRange ::
  "engine \<Rightarrow> u32 \<Rightarrow> u32 \<Rightarrow> ('v LedgerCloseMeta \<Rightarrow> 's \<Rightarrow> go_error option \<times> 's) \<Rightarrow> 'v tables \<Rightarrow> 's \<Rightarrow>
   go_error option \<times> 's" where
  "StreamLedgerRange E startLedger endLedger f t s =
     (case eng_fault E (StreamRange startLedger endLedger) of
        Some err \<Rightarrow> (Some err, s)
      | None \<Rightarrow> stream_rows E f
          (select_rows (\<lambda>k r. k \<ge> startLedger \<and> k \<le> endLedger) (ledger_close_meta t)) s)"

subsection \<open>ledger.go: writing\<close>

definition InsertLedger ::
  "engine \<Rightarrow> 'v LedgerCloseMeta \<Rightarrow> 'v tables \<Rightarrow> go_error option \<times> 'v tables" where
  "InsertLedger E ledger t =
     exec_write E (InsertLedgerRow (lcm_LedgerSequence ledger))
       (\<lambda>t. bind_res (insert_row (lcm_LedgerSequence ledger) ledger (ledger_close_meta t))
              (\<lambda>tbl. Inr (t\<lparr>ledger_close_meta := tbl\<rparr>))) t"

definition trimLedgers ::
  "engine \<Rightarrow> u32 \<Rightarrow> u32 \<Rightarrow> 'v tables \<Rightarrow> go_error option \<times> 'v tables" where
  "trimLedgers E latestLedgerSeq retentionWindow t =
     (if latestLedgerSeq + 1 \<le> retentionWindow then (None, t)
      else let cutoff = latestLedgerSeq + 1 - retentionWindow in
        exec_write E (DeleteLedgers cutoff)
          (\<lambda>t. Inr (t\<lparr>ledger_close_meta :=
                        delete_rows (\<lambda>k r. k < cutoff) (ledger_close_meta t)\<rparr>)) t)"

subsection \<open>transaction.go: writing\<close>

text \<open>The handlers keep a passphrase and, when opened for writing, a statement cache.\<close>

record transactionHandler =
  th_stmtCache :: bool
  th_passphrase :: string

text \<open>
  The loop over \<^verbatim>\<open>txCount\<close> reads that fills the Go map from hashes to transactions; reading
  past the end answers \<^verbatim>\<open>io.EOF\<close>.
\<close>

fun read_lookups ::
  "nat \<Rightarrow> nat \<Rightarrow> 'v LedgerTransaction res list \<Rightarrow> (bytes \<rightharpoonup> 'v LedgerTransaction) \<times> bytes list \<Rightarrow>
   ((bytes \<rightharpoonup> 'v LedgerTransaction) \<times> bytes list) res" where
  "read_lookups i 0 reads m = Inr m"
| "read_lookups i (Suc n) reads (m, keys) =
     (case reads of
        [] \<Rightarrow> Inl (Err (''failed reading tx '' @ show_nat i @ '': EOF''))
      | Inl e # _ \<Rightarrow> Inl (wrap_err (''failed reading tx '' @ show_nat i @ '': '') e)
      | Inr tx # reads' \<Rightarrow>
          let (m1, keys1) = (if tx_IsFeeBump tx
                then (m(tx_InnerHash tx \<mapsto> tx), List.insert (tx_InnerHash tx) keys)
                else (m, keys));
              m2 = m1(tx_TransactionHash tx \<mapsto> tx);
              keys2 = List.insert (tx_TransactionHash tx) keys1
          in read_lookups (Suc i) n reads' (m2, keys2))"

definition lookup_rows ::
  "u32 \<Rightarrow> (bytes \<rightharpoonup> 'v LedgerTransaction) \<times> bytes list \<Rightarrow> (bytes \<times> tx_row) list" where
  "lookup_rows sequence mk =
     map (\<lambda>h. (h, \<lparr>tr_ledger_sequence = sequence,
                   tr_application_order = uint (tx_Index (the (fst mk h)))\<rparr>)) (snd mk)"

definition InsertTransactions ::
  "engine \<Rightarrow> transactionHandler \<Rightarrow> 'v LedgerCloseMeta \<Rightarrow> 'v tables \<Rightarrow>
   go_error option \<times> 'v tables" where
  "InsertTransactions E txn meta t =
     (let txCount = lcm_CountTransactions meta in
      if \<not> th_stmtCache txn then
        (Some (Err ''TransactionWriter incorrectly initialized without stmtCache''), t)
      else if txCount = 0 then (None, t)
      else case lcm_Reader meta (th_passphrase txn) of
          Inl e \<Rightarrow> (Some (wrap_err (''failed to open transaction reader for ledger '' @
                     show_u32 (lcm_LedgerSequence meta) @ '': '') e), t)
        | Inr reads \<Rightarrow>
            (case read_lookups 0 txCount reads (Map.empty, []) of
               Inl e \<Rightarrow> (Some e, t)
             | Inr txs \<Rightarrow>
                 exec_write E (InsertTransactionRows (lcm_LedgerSequence meta))
                   (\<lambda>t. bind_res
                      (insert_rows (lookup_rows (lcm_LedgerSequence meta) txs) (transactions t))
                      (\<lambda>tbl. Inr (t\<lparr>transactions := tbl\<rparr>))) t))"

definition trimTransactions ::
  "engine \<Rightarrow> u32 \<Rightarrow> u32 \<Rightarrow> 'v tables \<Rightarrow> go_error option \<times> 'v tables" where
  "trimTransactions E latestLedgerSeq retentionWindow t =
     (if latestLedgerSeq + 1 \<le> retentionWindow then (None, t)
      else let cutoff = latestLedgerSeq + 1 - retentionWindow in
        exec_write E (DeleteTransactions cutoff)
          (\<lambda>t. Inr (t\<lparr>transactions :=
             delete_rows (\<lambda>k r. tr_ledger_sequence r < cutoff) (transactions t)\<rparr>)) t)"

subsection \<open>event.go: writing\<close>

record eventHandler =
  eh_stmtCache :: bool
  eh_passphrase :: string

record 'v event_pkg =
  ev_MarshalBinary :: "'v DiagnosticEvent \<Rightarrow> bytes res"
  ev_SafeUnmarshal :: "bytes \<Rightarrow> 'v DiagnosticEvent res"

definition into_diagnostic :: "'v ContractEvent \<Rightarrow> 'v DiagnosticEvent" where
  "into_diagnostic e = \<lparr>de_InSuccessfulContractCall = True, de_Event = e\<rparr>"

definition transactionEventsIntoDiagnosticEvents ::
  "'v TransactionEvents \<Rightarrow> 'v DiagnosticEvent list" where
  "transactionEventsIntoDiagnosticEvents allEvents =
     (if te_DiagnosticEvents allEvents = []
      then map into_diagnostic (concat (te_OperationEvents allEvents))
      else te_DiagnosticEvents allEvents)
     @ map into_diagnostic (te_TransactionEvents allEvents)"

text \<open>The packages an event writer or reader calls.\<close>

record 'v pkgs =
  pk_toid :: toid_pkg
  pk_strkey :: strkey_pkg
  pk_scval :: "'v scval_pkg"
  pk_event :: "'v event_pkg"

definition topic_columns :: "'v scval_pkg \<Rightarrow> 'v list \<Rightarrow> (bytes option list) res" where
  "topic_columns X topics =
     bind_res (traverse (sv_MarshalBinary X) (take MaxTopicCount topics))
       (\<lambda>segs. Inr (map Some segs @ replicate (MaxTopicCount - length segs) None))"

definition event_to_row ::
  "'v pkgs \<Rightarrow> 'v LedgerCloseMeta \<Rightarrow> 'v LedgerTransaction \<Rightarrow> nat \<times> 'v DiagnosticEvent \<Rightarrow>
   (string \<times> event_row) res" where
  "event_to_row P meta tx ie =
     (case ie of (index, e) \<Rightarrow>
      let c = Cursor (lcm_LedgerSequence meta) (tx_Index tx) 0 (of_nat index) in
      case Cursor_String (pk_toid P) c of
        None \<Rightarrow> Inl (Panic ''toid'')
      | Some eid \<Rightarrow>
          bind_res (ev_MarshalBinary (pk_event P) e) (\<lambda>eventBlob.
            case ce_Body (de_Event e) of
              None \<Rightarrow> Inl (Err ''unknown event version'')
            | Some v0 \<Rightarrow>
                bind_res (topic_columns (pk_scval P) (v0_Topics v0)) (\<lambda>topicList.
                  Inr (eid, \<lparr>er_contract_id = ce_ContractId (de_Event e),
                            er_event_type = ce_Type (de_Event e),
                            er_event_data = eventBlob,
                            er_ledger_close_time = lcm_LedgerCloseTime meta,
                            er_transaction_hash = tx_TransactionHash tx,
                            er_topics = topicList\<rparr>))))"

fun insert_tx_events ::
  "engine \<Rightarrow> 'v pkgs \<Rightarrow> 'v LedgerCloseMeta \<Rightarrow> 'v LedgerTransaction res list \<Rightarrow> 'v tables \<Rightarrow>
   go_error option \<times> 'v tables" where
  "insert_tx_events E P meta [] t = (None, t)"
| "insert_tx_events E P meta (Inl e # reads) t = (Some e, t)"
| "insert_tx_events E P meta (Inr tx # reads) t =
     (if \<not> tx_Successful tx then insert_tx_events E P meta reads t
      else case tx_GetTransactionEvents tx of
        Inl e \<Rightarrow> (Some e, t)
      | Inr allEvents \<Rightarrow>
          let diagEvents = transactionEventsIntoDiagnosticEvents allEvents in
          if diagEvents = [] then insert_tx_events E P meta reads t
          else case traverse (event_to_row P meta tx) (enumerate 0 diagEvents) of
            Inl e \<Rightarrow> (Some e, t)
          | Inr rows \<Rightarrow>
              (case exec_write E (InsertEventRows (lcm_LedgerSequence meta) (tx_Index tx))
                  (\<lambda>t. bind_res (insert_rows rows (events t))
                         (\<lambda>tbl. Inr (t\<lparr>events := tbl\<rparr>))) t of
                 (Some e, t') \<Rightarrow> (Some e, t')
               | (None, t') \<Rightarrow> insert_tx_events E P meta reads t'))"

definition InsertEvents ::
  "engine \<Rightarrow> 'v pkgs \<Rightarrow> eventHandler \<Rightarrow> 'v LedgerCloseMeta \<Rightarrow> 'v tables \<Rightarrow>
   go_error option \<times> 'v tables" where
  "InsertEvents E P eh meta t =
     (if \<not> eh_stmtCache eh then
        (Some (Err ''EventWriter incorrectly initialized without stmtCache''), t)
      else if lcm_CountTransactions meta = 0 then (None, t)
      else case lcm_Reader meta (eh_passphrase eh) of
          Inl e \<Rightarrow> (Some (join_err e (Some (Err (''failed to open transaction reader for ledger '' @
                     show_u32 (lcm_LedgerSequence meta))))), t)
        | Inr reads \<Rightarrow> insert_tx_events E P meta reads t)"

definition trimEvents ::
  "engine \<Rightarrow> toid_pkg \<Rightarrow> u32 \<Rightarrow> u32 \<Rightarrow> 'v tables \<Rightarrow> go_error option \<times> 'v tables" where
  "trimEvents E T latestLedgerSeq retentionWindow t =
     (if latestLedgerSeq + 1 \<le> retentionWindow then (None, t)
      else let cutoff = latestLedgerSeq + 1 - retentionWindow in
        case Cursor_String T (Cursor cutoff 0 0 0) of
          None \<Rightarrow> (Some (Panic ''toid''), t)
        | Some eid \<Rightarrow>
            exec_write E (DeleteEvents eid)
              (\<lambda>t. Inr (t\<lparr>events := delete_rows (\<lambda>k r. k < eid) (events t)\<rparr>)) t)"

subsection \<open>transaction.go: reading\<close>

record Transaction =
  t_TransactionHash :: string
  t_Result :: bytes
  t_Meta :: bytes
  t_Envelope :: bytes
  t_Events :: "bytes list"
  t_FeeBump :: bool
  t_ApplicationOrder :: int
  t_Successful :: bool
  t_Ledger :: LedgerInfo

definition getTransactionByHash ::
  "engine \<Rightarrow> transactionHandler \<Rightarrow> bytes \<Rightarrow> 'v tables \<Rightarrow>
   ('v LedgerCloseMeta \<times> 'v LedgerTransaction) res" where
  "getTransactionByHash E txn hash t =
     bind_res (map_err (wrap_err (''db read failed for txhash '' @ hex_encode hash @ '': ''))
         (exec_stmt E (SelectTransaction hash)
           (Inr (take 1 (concat (map
              (\<lambda>(h, r). map (\<lambda>(k, m). (tr_application_order r, m))
                 (select_rows (\<lambda>k m. k = tr_ledger_sequence r) (ledger_close_meta t)))
              (select_rows (\<lambda>h r. h = hash) (transactions t))))))))
       (\<lambda>rows. case rows of
          [] \<Rightarrow> Inl ErrNoTransaction
        | (txIndex, m) # _ \<Rightarrow>
            bind_res (map_err (wrap_err ''failed to create ledger reader: '')
                (lcm_Reader m (th_passphrase txn))) (\<lambda>_.
            bind_res (map_err (wrap_err (''failed to index to tx '' @ itoa txIndex @ '' in ledger '' @
                  show_u32 (lcm_LedgerSequence m) @ '' (txhash='' @ hex_encode hash @ ''): ''))
                (lcm_Seek m (th_passphrase txn) (txIndex - 1))) (\<lambda>reads.
            case reads of
              [] \<Rightarrow> Inl (Err ''EOF'')
            | r # _ \<Rightarrow> bind_res r (\<lambda>tx. Inr (m, tx)))))"

text \<open>\<^verbatim>\<open>int32(ingestTx.Index)\<close> reads the index as a signed number.\<close>

definition ParseTransaction ::
  "'v event_pkg \<Rightarrow> 'v LedgerCloseMeta \<Rightarrow> 'v LedgerTransaction \<Rightarrow> Transaction res" where
  "ParseTransaction V meta ingestTx =
     bind_res (map_err (wrap_err (couldnt ''encode transaction Result: '')) (tx_ResultXDR ingestTx))
       (\<lambda>result.
     bind_res (map_err (wrap_err (couldnt ''encode transaction UnsafeMeta: '')) (tx_MetaXDR ingestTx))
       (\<lambda>metaBytes.
     bind_res (map_err (wrap_err (couldnt ''encode transaction Envelope: ''))
         (tx_EnvelopeXDR ingestTx)) (\<lambda>envelope.
     bind_res (map_err (wrap_err (couldnt ''encode transaction Events: ''))
         (tx_GetTransactionEvents ingestTx)) (\<lambda>allEvents.
     bind_res (traverse
         (\<lambda>(i, event). map_err (wrap_err (couldnt ''encode transaction DiagnosticEvent '' @
              show_nat i @ '': '')) (ev_MarshalBinary V event))
         (enumerate 0 (transactionEventsIntoDiagnosticEvents allEvents)))
       (\<lambda>eventBytes.
     Inr \<lparr>t_TransactionHash = hex_encode (tx_TransactionHash ingestTx), t_Result = result,
          t_Meta = metaBytes, t_Envelope = envelope, t_Events = eventBytes,
          t_FeeBump = tx_IsFeeBump ingestTx, t_ApplicationOrder = sint (tx_Index ingestTx),
          t_Successful = tx_Successful ingestTx, t_Ledger = ledger_info meta\<rparr>)))))"

definition GetTransaction ::
  "engine \<Rightarrow> 'v event_pkg \<Rightarrow> transactionHandler \<Rightarrow> bytes \<Rightarrow> 'v tables \<Rightarrow> Transaction res" where
  "GetTransaction E V txn hash t =
     bind_res (getTransactionByHash E txn hash t) (\<lambda>(m, ingestTx). ParseTransaction V m ingestTx)"

subsection \<open>event.go: reading\<close>

text \<open>The conditions of the query; a topic position without a column is an SQL error.\<close>

definition topic_condition :: "(bytes list option) list \<Rightarrow> event_row \<Rightarrow> bool" where
  "topic_condition topics r \<longleftrightarrow>
     (\<forall>x \<in> set topics. x = None) \<or>
     (\<exists>i < length topics. case topics ! i of
        None \<Rightarrow> False
      | Some ts \<Rightarrow> (case er_topics r ! i of None \<Rightarrow> False | Some b \<Rightarrow> b \<in> set ts))"

definition event_query ::
  "string \<Rightarrow> string \<Rightarrow> bytes list \<Rightarrow> (bytes list option) list \<Rightarrow> int list \<Rightarrow> string \<Rightarrow> event_row \<Rightarrow> bool"
where
  "event_query start end contractIDs topics eventTypes eid r \<longleftrightarrow>
     eid \<ge> start \<and> eid < end \<and>
     (contractIDs = [] \<or> (\<exists>c \<in> set contractIDs. er_contract_id r = Some c)) \<and>
     (eventTypes = [] \<or> er_event_type r \<in> set eventTypes) \<and>
     topic_condition topics r"

text \<open>\<^verbatim>\<open>xdr.Hash(transactionHash)\<close> panics on a slice shorter than the array.\<close>

definition to_hash :: "bytes \<Rightarrow> bytes res" where
  "to_hash b = (if length b < 32 then Inl (Panic ''cannot convert slice to array'')
                else Inr (take 32 b))"

fun scan_events ::
  "engine \<Rightarrow> 'v pkgs \<Rightarrow> ('v DiagnosticEvent \<Rightarrow> Cursor \<Rightarrow> i64 \<Rightarrow> bytes \<Rightarrow> 's \<Rightarrow> bool \<times> 's) \<Rightarrow>
   (string \<times> event_row) list \<Rightarrow> 's \<Rightarrow> go_error option \<times> 's" where
  "scan_events E P f [] s = (None, s)"
| "scan_events E P f ((eid, row) # rows) s =
     (case eng_fault E (ScanEvent eid) of
        Some err \<Rightarrow> (Some (wrap_err ''failed to scan row: '' err), s)
      | None \<Rightarrow>
        (case ParseCursor (pk_toid P) eid of
           Inl err \<Rightarrow> (Some (join_err err (Some (Err ''failed to parse cursor''))), s)
         | Inr cur \<Rightarrow>
           (case ev_SafeUnmarshal (pk_event P) (er_event_data row) of
              Inl err \<Rightarrow> (Some (join_err err (Some (Err ''failed to decode event''))), s)
            | Inr eventXDR \<Rightarrow>
              (case to_hash (er_transaction_hash row) of
                 Inl err \<Rightarrow> (Some err, s)
               | Inr txHash \<Rightarrow>
                 (case f eventXDR cur (er_ledger_close_time row) txHash s of
                    (False, s') \<Rightarrow> (None, s')
                  | (True, s') \<Rightarrow> scan_events E P f rows s')))))"

definition GetEvents ::
  "engine \<Rightarrow> 'v pkgs \<Rightarrow> CursorRange \<Rightarrow> bytes list \<Rightarrow> (bytes list option) list \<Rightarrow> int list \<Rightarrow>
   ('v DiagnosticEvent \<Rightarrow> Cursor \<Rightarrow> i64 \<Rightarrow> bytes \<Rightarrow> 's \<Rightarrow> bool \<times> 's) \<Rightarrow> 'v tables \<Rightarrow> 's \<Rightarrow>
   go_error option \<times> 's" where
  "GetEvents E P cursorRange contractIDs topics eventTypes f t s =
     (case (Cursor_String (pk_toid P) (cr_Start cursorRange),
            Cursor_String (pk_toid P) (cr_End cursorRange)) of
        (Some start, Some end) \<Rightarrow>
          (case traverse (sk_Encode (pk_strkey P)) contractIDs of
             Inl err \<Rightarrow> (Some (join_err err (Some (Err ''failed to encode contract id''))), s)
           | Inr _ \<Rightarrow>
               (case exec_stmt E (SelectEvents start end)
                   (if \<exists>x \<in> set (drop MaxTopicCount topics). x \<noteq> None
                    then Inl (Err ''no such column'')
                    else Inr (select_rows (event_query start end contractIDs topics eventTypes)
                                (events t))) of
                  Inl err \<Rightarrow> (Some (join_err err
                      (Some (Err ''db read failed for requested parameter''))), s)
                | Inr rows \<Rightarrow> scan_events E P f rows s))
      | _ \<Rightarrow> (Some (Panic ''toid''), s))"

end
