(* ===== verification/StoreLaws.thy ===== *)
theory StoreLaws
  imports Store
begin

text \<open>
  What the statements of \<open>Store\<close> guarantee: the invariant of the tables, the retention
  contract that the three trims share (a locale, interpreted for ledgers, transactions and
  events), insert and lookup of ledgers and transactions, and the order in which events are
  read back.
\<close>

subsection \<open>Invariant\<close>

definition ledgers_ok :: "(u32, 'v LedgerCloseMeta) table \<Rightarrow> bool" where
  "ledgers_ok tbl \<longleftrightarrow> table_ok tbl \<and> (\<forall>(k, m) \<in> set tbl. lcm_LedgerSequence m = k)"

definition events_ok :: "(string, event_row) table \<Rightarrow> bool" where
  "events_ok tbl \<longleftrightarrow> table_ok tbl \<and> (\<forall>(k, r) \<in> set tbl. \<exists>c. valid_cursor c \<and> k = cursor_text c)"

definition store_ok :: "'v tables \<Rightarrow> bool" where
  "store_ok t \<longleftrightarrow> ledgers_ok (ledger_close_meta t) \<and> table_ok (transactions t) \<and>
     events_ok (events t) \<and> table_ok (metadata t)"

lemma ledgers_ok_last:
  assumes "ledgers_ok tbl" and "tbl \<noteq> []"
  shows "fst (last tbl) = lcm_LedgerSequence (snd (last tbl))"
proof -
  obtain k m where km: "last tbl = (k, m)" by fastforce
  with last_in_set [OF assms(2)] assms(1) show ?thesis by (auto simp: ledgers_ok_def)
qed

lemma events_ok_key:
  "events_ok tbl \<Longrightarrow> (k, r) \<in> set tbl \<Longrightarrow> \<exists>c. valid_cursor c \<and> k = cursor_text c"
  by (auto simp: events_ok_def)

lemma empty_tables_ok: "store_ok empty_tables"
  by (simp add: store_ok_def empty_tables_def ledgers_ok_def events_ok_def table_ok_def)

lemma in_put_row:
  assumes "table_ok t" and "map_of t k = None"
  shows "set (put_row k r t) = insert (k, r) (set t)"
proof -
  have "table_ok (put_row k r t)" using assms(1) by (rule put_row_ok)
  then show ?thesis
    using assms by (auto simp: table_row_iff map_of_put_row split: if_splits)
qed

lemma exec_write_cases:
  assumes "exec_write E s f t = (e, t')"
  obtains (fault) err where "e = Some err" "t' = t"
        | (ok) "e = None" "f t = Inr t'" "eng_fault E s = None"
  using assms by (auto simp: exec_write_def exec_stmt_def split: sum.splits option.splits)

lemma exec_write_no_fault:
  "eng_fault E s = None \<Longrightarrow>
    exec_write E s f t = (case f t of Inl e \<Rightarrow> (Some e, t) | Inr t' \<Rightarrow> (None, t'))"
  by (simp add: exec_write_def exec_stmt_def)

lemma insert_rows_events_ok:
  assumes "events_ok t" and "insert_rows rs t = Inr t'"
    and "\<And>k r. (k, r) \<in> set rs \<Longrightarrow> \<exists>c. valid_cursor c \<and> k = cursor_text c"
  shows "events_ok t'"
  using assms
proof (induction rs arbitrary: t)
  case (Cons kr rs)
  obtain k r where kr: "kr = (k, r)" by fastforce
  with Cons.prems(2) have "map_of t k = None" and rest: "insert_rows rs (put_row k r t) = Inr t'"
    by (auto simp: bind_res_Inr_iff insert_row_Inr)
  moreover have "table_ok t" using Cons.prems(1) by (simp add: events_ok_def)
  ultimately have "events_ok (put_row k r t)"
    using Cons.prems(1,3) by (auto simp: events_ok_def put_row_ok in_put_row kr)
  then show ?case
    using rest Cons.prems(3) by (rule Cons.IH) auto
qed simp

lemma insert_rows_set:
  assumes "table_ok t" and "insert_rows rs t = Inr t'"
  shows "set t' = set t \<union> set rs"
  using assms
proof (induction rs arbitrary: t)
  case (Cons kr rs)
  obtain k r where kr: "kr = (k, r)" by fastforce
  with Cons.prems(2) have "map_of t k = None" and rest: "insert_rows rs (put_row k r t) = Inr t'"
    by (auto simp: bind_res_Inr_iff insert_row_Inr)
  with Cons.IH [OF put_row_ok [OF Cons.prems(1)] rest] Cons.prems(1) kr show ?case
    by (auto simp: in_put_row)
qed simp

subsection \<open>Retention\<close>

text \<open>The sequence numbers a retention window of \<open>w\<close> ledgers ending at \<open>l\<close> keeps.\<close>

definition in_window :: "u32 \<Rightarrow> u32 \<Rightarrow> u32 \<Rightarrow> bool" where
  "in_window l w s \<longleftrightarrow> unat l + 1 \<le> unat s + unat w"

locale retained =
  fixes inv :: "'t \<Rightarrow> bool"
    and seqs :: "'t \<Rightarrow> u32 set"
    and trim :: "u32 \<Rightarrow> u32 \<Rightarrow> 't \<Rightarrow> go_error option \<times> 't"
  assumes trim_inv: "inv t \<Longrightarrow> inv (snd (trim l w t))"
    and trim_exact: "inv t \<Longrightarrow> unat l + 1 < 2 ^ 31 \<Longrightarrow> trim l w t = (None, t') \<Longrightarrow>
      seqs t' = {s \<in> seqs t. in_window l w s}"
    and trim_failed: "trim l w t = (Some e, t') \<Longrightarrow> t' = t"
begin

text \<open>A table that only holds ledgers up to the latest one holds at most the window after.\<close>

lemma trim_bounded:
  assumes "inv t" and "unat l + 1 < 2 ^ 31" and "trim l w t = (None, t')"
    and "\<forall>s \<in> seqs t. s \<le> l"
  shows "seqs t' \<subseteq> {s. unat l + 1 - unat w \<le> unat s \<and> unat s \<le> unat l}"
    and "card (seqs t') \<le> unat w"
proof -
  have *: "seqs t' = {s \<in> seqs t. in_window l w s}"
    by (rule trim_exact [OF assms(1-3)])
  with assms(4) show sub: "seqs t' \<subseteq> {s. unat l + 1 - unat w \<le> unat s \<and> unat s \<le> unat l}"
    by (auto simp: in_window_def word_le_nat_alt)
  then have "unat ` seqs t' \<subseteq> {unat l + 1 - unat w ..< unat l + 1}" by auto
  then have "card (unat ` seqs t') \<le> unat l + 1 - (unat l + 1 - unat w)"
    by (metis card_atLeastLessThan card_mono finite_atLeastLessThan)
  also have "\<dots> \<le> unat w" by simp
  finally show "card (seqs t') \<le> unat w"
    by (metis card_image inj_on_subset inj_unsigned subset_UNIV)
qed

text \<open>What the window covers is never removed.\<close>

lemma trim_keeps:
  assumes "inv t" and "unat l + 1 < 2 ^ 31" and "trim l w t = (None, t')"
    and "s \<in> seqs t" and "in_window l w s"
  shows "s \<in> seqs t'"
  using trim_exact [OF assms(1-3)] assms(4,5) by simp

end

lemma cutoff_iff:
  assumes "unat l + 1 < 2 ^ 32" and "\<not> l + 1 \<le> (w :: u32)"
  shows "s < l + 1 - w \<longleftrightarrow> \<not> in_window l w s" and "unat (l + 1 - w) = unat l + 1 - unat w"
proof -
  have l1: "unat (l + 1) = unat l + 1" using assms(1) by (simp add: unat_Suc_u32)
  have "w < l + 1" using assms(2) by simp
  then have "unat (l + 1 - w) = unat (l + 1) - unat w"
    by (metis less_imp_le unat_sub)
  then show c: "unat (l + 1 - w) = unat l + 1 - unat w" by (simp add: l1)
  from \<open>w < l + 1\<close> have "unat w < unat l + 1" by (metis l1 word_less_nat_alt)
  with c show "s < l + 1 - w \<longleftrightarrow> \<not> in_window l w s"
    by (auto simp: word_less_nat_alt in_window_def)
qed

lemma no_cutoff:
  assumes "unat l + 1 < 2 ^ 32" and "l + 1 \<le> (w :: u32)"
  shows "in_window l w s"
proof -
  have "unat l + 1 \<le> unat w"
    using assms by (simp add: word_le_nat_alt unat_Suc_u32)
  then show ?thesis by (simp add: in_window_def)
qed

definition ledger_seqs :: "'v tables \<Rightarrow> u32 set" where
  "ledger_seqs t = fst ` set (ledger_close_meta t)"

definition tx_seqs :: "'v tables \<Rightarrow> u32 set" where
  "tx_seqs t = (\<lambda>(h, r). tr_ledger_sequence r) ` set (transactions t)"

definition event_seqs :: "'v tables \<Rightarrow> u32 set" where
  "event_seqs t = {c_Ledger c | c. valid_cursor c \<and> cursor_text c \<in> fst ` set (events t)}"

lemma ledgers_ok_delete: "ledgers_ok tbl \<Longrightarrow> ledgers_ok (delete_rows P tbl)"
  by (auto simp: ledgers_ok_def delete_rows_def table_ok_filter)

lemma events_ok_delete: "events_ok tbl \<Longrightarrow> events_ok (delete_rows P tbl)"
  by (auto simp: events_ok_def delete_rows_def table_ok_filter)

lemma trimLedgers_cases:
  assumes "trimLedgers E l w t = (e, t')"
  obtains (fault) err where "e = Some err" "t' = t" "\<not> l + 1 \<le> w"
        | (young) "e = None" "t' = t" "l + 1 \<le> w"
        | (cut) "e = None" "\<not> l + 1 \<le> w"
            "t' = t\<lparr>ledger_close_meta := delete_rows (\<lambda>k r. k < l + 1 - w) (ledger_close_meta t)\<rparr>"
  using assms
  by (auto simp: trimLedgers_def Let_def split: if_splits elim!: exec_write_cases)

lemma trimTransactions_cases:
  assumes "trimTransactions E l w t = (e, t')"
  obtains (fault) err where "e = Some err" "t' = t" "\<not> l + 1 \<le> w"
        | (young) "e = None" "t' = t" "l + 1 \<le> w"
        | (cut) "e = None" "\<not> l + 1 \<le> w"
            "t' = t\<lparr>transactions :=
               delete_rows (\<lambda>k r. tr_ledger_sequence r < l + 1 - w) (transactions t)\<rparr>"
  using assms
  by (auto simp: trimTransactions_def Let_def split: if_splits elim!: exec_write_cases)

lemma trimEvents_cases:
  assumes "trimEvents E T l w t = (e, t')"
  obtains (fault) err where "e = Some err" "t' = t" "\<not> l + 1 \<le> w"
        | (young) "e = None" "t' = t" "l + 1 \<le> w"
        | (cut) eid where "e = None" "\<not> l + 1 \<le> w"
            "Cursor_String T (Cursor (l + 1 - w) 0 0 0) = Some eid"
            "t' = t\<lparr>events := delete_rows (\<lambda>k r. k < eid) (events t)\<rparr>"
  using assms
  by (auto simp: trimEvents_def Let_def split: if_splits option.splits elim!: exec_write_cases)

interpretation ledger_ret: retained
  "\<lambda>t. ledgers_ok (ledger_close_meta t)" ledger_seqs "trimLedgers E" for E
proof (unfold_locales)
  fix t t' :: "'v tables" and l w e
  show "ledgers_ok (ledger_close_meta (snd (trimLedgers E l w t)))"
    if "ledgers_ok (ledger_close_meta t)"
    using that
    by (cases "trimLedgers E l w t") (auto elim!: trimLedgers_cases simp: ledgers_ok_delete)
  show "t' = t" if "trimLedgers E l w t = (Some e, t')"
    using that by (auto elim!: trimLedgers_cases)
  show "ledger_seqs t' = {s \<in> ledger_seqs t. in_window l w s}"
    if "ledgers_ok (ledger_close_meta t)" and l: "unat l + 1 < 2 ^ 31"
      and "trimLedgers E l w t = (None, t')"
    using that(3)
  proof (cases rule: trimLedgers_cases)
    case cut
    with l show ?thesis
      by (auto simp: ledger_seqs_def delete_rows_def cutoff_iff image_iff)
  qed (use l no_cutoff in auto)
qed

interpretation tx_ret: retained
  "\<lambda>t. table_ok (transactions t)" tx_seqs "trimTransactions E" for E
proof (unfold_locales)
  fix t t' :: "'v tables" and l w e
  show "table_ok (transactions (snd (trimTransactions E l w t)))"
    if "table_ok (transactions t)"
    using that
    by (cases "trimTransactions E l w t")
      (auto elim!: trimTransactions_cases simp: delete_rows_def table_ok_filter)
  show "t' = t" if "trimTransactions E l w t = (Some e, t')"
    using that by (auto elim!: trimTransactions_cases)
  show "tx_seqs t' = {s \<in> tx_seqs t. in_window l w s}"
    if "table_ok (transactions t)" and l: "unat l + 1 < 2 ^ 31"
      and "trimTransactions E l w t = (None, t')"
    using that(3)
  proof (cases rule: trimTransactions_cases)
    case cut
    with l show ?thesis
      by (force simp: tx_seqs_def delete_rows_def cutoff_iff)
  qed (use l no_cutoff in auto)
qed

text \<open>The events are cut by the text of their ids, which is their cursor order.\<close>

lemma first_cursor_of_ledger:
  "c < Cursor s 0 0 0 \<longleftrightarrow> c_Ledger c < s"
  by (auto simp: cursor_order)

lemma valid_ledger_cursor:
  assumes "unat s < 2 ^ 31"
  shows "valid_cursor (Cursor s 0 0 0)"
proof -
  have "uint s = int (unat s)" by simp
  also have "\<dots> < int (2 ^ 31)" using assms by (rule of_nat_less_iff [THEN iffD2])
  finally show ?thesis by (simp add: valid_cursor_def)
qed

lemma event_cut_iff:
  assumes "toid_spec T" and "unat l + 1 < 2 ^ 31" and "\<not> l + 1 \<le> w"
    and "Cursor_String T (Cursor (l + 1 - w) 0 0 0) = Some eid" and "valid_cursor c"
  shows "cursor_text c < eid \<longleftrightarrow> \<not> in_window l w (c_Ledger c)"
proof -
  have cut: "unat (l + 1 - w) = unat l + 1 - unat w"
    using assms(2,3) by (simp add: cutoff_iff(2))
  have "valid_cursor (Cursor (l + 1 - w) 0 0 0)"
    using assms(2) cut by (intro valid_ledger_cursor) simp
  then have "cursor_text c < eid \<longleftrightarrow> c < Cursor (l + 1 - w) 0 0 0"
    using assms by (simp add: Cursor_String_valid cursor_text_less_iff [symmetric])
  then show ?thesis
    using assms(2,3) by (simp add: first_cursor_of_ledger cutoff_iff(1))
qed

interpretation event_ret: retained
  "\<lambda>t. toid_spec T \<and> events_ok (events t)" event_seqs "trimEvents E T" for E T
proof (unfold_locales)
  fix t t' :: "'v tables" and l w e
  show "toid_spec T \<and> events_ok (events (snd (trimEvents E T l w t)))"
    if "toid_spec T \<and> events_ok (events t)"
    using that
    by (cases "trimEvents E T l w t") (auto elim!: trimEvents_cases simp: events_ok_delete)
  show "t' = t" if "trimEvents E T l w t = (Some e, t')"
    using that by (auto elim!: trimEvents_cases)
  show "event_seqs t' = {s \<in> event_seqs t. in_window l w s}"
    if ok: "toid_spec T \<and> events_ok (events t)" and l: "unat l + 1 < 2 ^ 31"
      and "trimEvents E T l w t = (None, t')"
    using that(3)
  proof (cases rule: trimEvents_cases)
    case (cut eid)
    with ok l have *: "cursor_text c < eid \<longleftrightarrow> \<not> in_window l w (c_Ledger c)" if "valid_cursor c" for c
      using event_cut_iff that by blast
    have "fst ` set (events t') = {k \<in> fst ` set (events t). \<not> k < eid}"
      using cut(4) by (auto simp: delete_rows_def image_iff)
    then show ?thesis
      using * by (auto simp: event_seqs_def)
  qed (use l no_cutoff in auto)
qed

subsection \<open>Ledgers\<close>

lemma exec_stmt_ok: "eng_fault E s = None \<Longrightarrow> exec_stmt E s r = r"
  by (simp add: exec_stmt_def)

lemma getLedgerFromDB_lookup:
  assumes "table_ok (ledger_close_meta t)" and "eng_fault E (SelectLedger k) = None"
  shows "getLedgerFromDB E k t = Inr (map_of (ledger_close_meta t) k)"
  using select_key [OF assms(1), of k] assms(2)
  by (simp add: getLedgerFromDB_def exec_stmt_ok split: option.splits)

lemma min_key_hd:
  assumes "table_ok tbl" and "tbl \<noteq> []"
  shows "min_key tbl = Some (fst (hd tbl))"
proof -
  have "Min (fst ` set tbl) = fst (hd tbl)"
    using assms table_ok_hd_least [OF assms(1)] by (intro Min_eqI) auto
  with assms(2) show ?thesis by (simp add: min_key_def)
qed

lemma max_key_last:
  assumes "table_ok tbl" and "tbl \<noteq> []"
  shows "max_key tbl = Some (fst (last tbl))"
proof -
  have "Max (fst ` set tbl) = fst (last tbl)"
    using assms table_ok_last_greatest [OF assms(1)] by (intro Max_eqI) auto
  with assms(2) show ?thesis by (simp add: max_key_def)
qed

lemma select_bounds:
  assumes "table_ok tbl" and "tbl \<noteq> []"
  defines "rows \<equiv> select_rows (\<lambda>k r. k = fst (hd tbl) \<or> k = fst (last tbl)) tbl"
  shows "rows \<noteq> []" and "hd rows = hd tbl" and "last rows = last tbl"
proof -
  obtain a rest where t: "tbl = a # rest" using assms(2) by (cases tbl) auto
  show "rows \<noteq> []" and "hd rows = hd tbl"
    by (simp_all add: rows_def select_rows_def t split: prod.splits)
  obtain b front where t': "tbl = front @ [b]" using assms(2) by (cases tbl rule: rev_cases) auto
  show "last rows = last tbl"
    by (simp add: rows_def select_rows_def t' split: prod.splits)
qed

lemma range_without_cache:
  assumes "table_ok (ledger_close_meta t)" and "ledger_close_meta t \<noteq> []"
    and "eng_fault E SelectLedgerBounds = None"
  shows "getLedgerRangeWithoutCache E t =
    Inr \<lparr>lr_FirstLedger = ledger_info (snd (hd (ledger_close_meta t))),
         lr_LastLedger = ledger_info (snd (last (ledger_close_meta t)))\<rparr>"
proof -
  let ?tbl = "ledger_close_meta t"
  let ?rows = "select_rows (\<lambda>k r. k = fst (hd ?tbl) \<or> k = fst (last ?tbl)) ?tbl"
  note b = select_bounds [OF assms(1,2)]
  obtain m ms where m: "map snd ?rows = m # ms" using b(1) by (cases ?rows) auto
  have "hd (map snd ?rows) = snd (hd ?rows)" and "last (map snd ?rows) = snd (last ?rows)"
    using b(1) by (simp_all add: hd_map last_map)
  with m have "m = snd (hd ?rows)" and "last (m # ms) = snd (last ?rows)" by simp_all
  with m b assms(3) show ?thesis
    by (simp add: getLedgerRangeWithoutCache_def Let_def exec_stmt_ok
        min_key_hd [OF assms(1,2)] max_key_last [OF assms(1,2)])
qed

lemma range_with_cache:
  assumes "table_ok (ledger_close_meta t)" and "ledger_close_meta t \<noteq> []"
    and "eng_fault E SelectOldestLedger = None"
  shows "getLedgerRangeWithCache E s c t =
    Inr \<lparr>lr_FirstLedger = ledger_info (snd (hd (ledger_close_meta t))),
         lr_LastLedger = \<lparr>li_Sequence = s, li_CloseTime = c\<rparr>\<rparr>"
  using filter_key_eq(1) [OF assms(1,2)] assms(3)
  by (simp add: getLedgerRangeWithCache_def Let_def exec_stmt_ok min_key_hd [OF assms(1,2)])

lemma range_empty:
  assumes "ledger_close_meta t = []"
  shows "eng_fault E SelectOldestLedger = None \<Longrightarrow> getLedgerRangeWithCache E s c t = Inl ErrEmptyDB"
    and "eng_fault E SelectLedgerBounds = None \<Longrightarrow> getLedgerRangeWithoutCache E t = Inl ErrEmptyDB"
  using assms
  by (simp_all add: getLedgerRangeWithCache_def getLedgerRangeWithoutCache_def exec_stmt_ok
      select_rows_def)

lemma BatchGetLedgers_rows:
  assumes "engine_permutes E" and "eng_fault E (SelectLedgerBatch a b) = None" and "a \<le> b"
  shows "\<exists>ms. BatchGetLedgers E a b t = Inr ms \<and>
    mset ms = mset (map snd (select_rows (\<lambda>k r. k \<ge> a \<and> k \<le> b) (ledger_close_meta t)))"
proof -
  let ?xs = "map snd (select_rows (\<lambda>k r. k \<ge> a \<and> k \<le> b) (ledger_close_meta t))"
  have "mset (unordered E ?xs) = image_mset (\<lambda>i. ?xs ! i) (mset (eng_order E (length ?xs)))"
    by (simp add: unordered_def)
  also have "\<dots> = mset (map (\<lambda>i. ?xs ! i) [0..<length ?xs])"
    using assms(1) by (simp only: engine_permutes_def mset_map)
  also have "\<dots> = mset ?xs" by (simp only: map_nth)
  finally show ?thesis
    using assms(2,3) by (simp add: BatchGetLedgers_def exec_stmt_ok)
qed

lemma InsertLedger_ok:
  assumes "ledgers_ok (ledger_close_meta t)" and "InsertLedger E m t = (None, t')"
  shows "map_of (ledger_close_meta t) (lcm_LedgerSequence m) = None"
    and "t' = t\<lparr>ledger_close_meta := put_row (lcm_LedgerSequence m) m (ledger_close_meta t)\<rparr>"
    and "ledgers_ok (ledger_close_meta t')"
    and "ledger_seqs t' = insert (lcm_LedgerSequence m) (ledger_seqs t)"
proof -
  from assms(2) show new: "map_of (ledger_close_meta t) (lcm_LedgerSequence m) = None"
    and t': "t' = t\<lparr>ledger_close_meta := put_row (lcm_LedgerSequence m) m (ledger_close_meta t)\<rparr>"
    unfolding InsertLedger_def
    by (auto elim!: exec_write_cases simp: bind_res_Inr_iff insert_row_Inr)
  show "ledgers_ok (ledger_close_meta t')"
    using assms(1) new by (auto simp: t' ledgers_ok_def put_row_ok in_put_row)
  show "ledger_seqs t' = insert (lcm_LedgerSequence m) (ledger_seqs t)"
    by (simp add: t' ledger_seqs_def set_put_row_fst)
qed

lemma InsertLedger_failed: "InsertLedger E m t = (Some e, t') \<Longrightarrow> t' = t"
  by (auto simp: InsertLedger_def elim!: exec_write_cases)

subsection \<open>Transactions\<close>

definition tx_hashes :: "'v LedgerTransaction \<Rightarrow> bytes list" where
  "tx_hashes tx = (if tx_IsFeeBump tx then [tx_InnerHash tx] else []) @ [tx_TransactionHash tx]"

definition all_hashes :: "'v LedgerTransaction list \<Rightarrow> bytes list" where
  "all_hashes txs = concat (map tx_hashes txs)"

lemma all_hashes_Cons [simp]: "all_hashes (tx # txs) = tx_hashes tx @ all_hashes txs"
  by (simp add: all_hashes_def)

text \<open>Every hash of a block of transactions leads to its transaction, both hashes of a fee
  bump included.\<close>

lemma read_lookups_all:
  assumes "distinct keys" and "distinct (all_hashes txs)"
    and "\<forall>h \<in> set keys. h \<notin> set (all_hashes txs)"
  shows "\<exists>m' keys'. read_lookups i (length txs) (map Inr txs) (m, keys) = Inr (m', keys') \<and>
    distinct keys' \<and> set keys' = set keys \<union> set (all_hashes txs) \<and>
    (\<forall>tx \<in> set txs. \<forall>h \<in> set (tx_hashes tx). m' h = Some tx) \<and>
    (\<forall>h. h \<notin> set (all_hashes txs) \<longrightarrow> m' h = m h)"
  using assms
proof (induction txs arbitrary: i m keys)
  case Nil
  then show ?case by (simp add: all_hashes_def)
next
  case (Cons tx txs)
  define m2 where "m2 = (if tx_IsFeeBump tx then m(tx_InnerHash tx \<mapsto> tx) else m)
    (tx_TransactionHash tx \<mapsto> tx)"
  define k2 where "k2 = List.insert (tx_TransactionHash tx)
    (if tx_IsFeeBump tx then List.insert (tx_InnerHash tx) keys else keys)"
  have step: "read_lookups i (length (tx # txs)) (map Inr (tx # txs)) (m, keys) =
      read_lookups (Suc i) (length txs) (map Inr txs) (m2, k2)"
    by (simp add: m2_def k2_def)
  have keys2: "set k2 = set keys \<union> set (tx_hashes tx)" and d: "distinct k2"
    using Cons.prems(1) by (auto simp: tx_hashes_def k2_def)
  have m2: "m2 h = (if h \<in> set (tx_hashes tx) then Some tx else m h)" for h
    by (simp add: m2_def tx_hashes_def)
  have disj: "\<forall>h \<in> set k2. h \<notin> set (all_hashes txs)" and d': "distinct (all_hashes txs)"
    using Cons.prems(2,3) keys2 by auto
  from Cons.IH [OF d d' disj, of "Suc i" m2] obtain m' keys' where
    IH: "read_lookups (Suc i) (length txs) (map Inr txs) (m2, k2) = Inr (m', keys')"
      "distinct keys'" "set keys' = set k2 \<union> set (all_hashes txs)"
      "\<forall>tx \<in> set txs. \<forall>h \<in> set (tx_hashes tx). m' h = Some tx"
      "\<forall>h. h \<notin> set (all_hashes txs) \<longrightarrow> m' h = m2 h"
    by blast
  have "m' h = Some tx" if "h \<in> set (tx_hashes tx)" for h
    using that Cons.prems(2) IH(5) m2 by auto
  with IH step keys2 m2 show ?case by auto
qed

lemma InsertTransactions_unfold:
  assumes "reads_txs (th_passphrase txn) m txs" and "th_stmtCache txn" and "txs \<noteq> []"
    and "distinct (all_hashes txs)"
  shows "\<exists>look keys.
    InsertTransactions E txn m t =
       exec_write E (InsertTransactionRows (lcm_LedgerSequence m))
         (\<lambda>t. bind_res (insert_rows (lookup_rows (lcm_LedgerSequence m) (look, keys)) (transactions t))
            (\<lambda>tbl. Inr (t\<lparr>transactions := tbl\<rparr>))) t \<and>
    distinct keys \<and> set keys = set (all_hashes txs) \<and>
    (\<forall>tx \<in> set txs. \<forall>h \<in> set (tx_hashes tx). look h = Some tx)"
proof -
  from read_lookups_all [of "[]" txs 0 Map.empty] assms(4) obtain look keys where
    *: "read_lookups 0 (length txs) (map Inr txs) (Map.empty, []) = Inr (look, keys)"
      "distinct keys" "set keys = set (all_hashes txs)"
      "\<forall>tx \<in> set txs. \<forall>h \<in> set (tx_hashes tx). look h = Some tx"
    by auto
  show ?thesis
    using assms * by (intro exI [of _ look] exI [of _ keys])
      (simp add: InsertTransactions_def reads_txs_def)
qed

lemma lookup_rows_keys: "map fst (lookup_rows s (m, keys)) = keys"
  by (simp add: lookup_rows_def comp_def)

lemma map_of_lookup_rows:
  "map_of (lookup_rows s (m, keys)) h = (if h \<in> set keys
     then Some \<lparr>tr_ledger_sequence = s, tr_application_order = uint (tx_Index (the (m h)))\<rparr>
     else None)"
  by (induction keys) (auto simp: lookup_rows_def)

lemma InsertTransactions_ok:
  assumes "reads_txs (th_passphrase txn) m txs" and "th_stmtCache txn"
    and "distinct (all_hashes txs)" and "table_ok (transactions t)"
    and "InsertTransactions E txn m t = (None, t')"
  shows "table_ok (transactions t')"
    and "\<And>tx h. tx \<in> set txs \<Longrightarrow> h \<in> set (tx_hashes tx) \<Longrightarrow>
      map_of (transactions t') h = Some \<lparr>tr_ledger_sequence = lcm_LedgerSequence m,
        tr_application_order = uint (tx_Index tx)\<rparr>"
    and "\<And>h. h \<notin> set (all_hashes txs) \<Longrightarrow> map_of (transactions t') h = map_of (transactions t) h"
    and "\<exists>tbl. t' = t\<lparr>transactions := tbl\<rparr>"
proof -
  let ?s = "lcm_LedgerSequence m"
  have main: "table_ok (transactions t') \<and>
    (\<forall>tx \<in> set txs. \<forall>h \<in> set (tx_hashes tx). map_of (transactions t') h =
       Some \<lparr>tr_ledger_sequence = ?s, tr_application_order = uint (tx_Index tx)\<rparr>) \<and>
    (\<forall>h. h \<notin> set (all_hashes txs) \<longrightarrow> map_of (transactions t') h = map_of (transactions t) h) \<and>
    (\<exists>tbl. t' = t\<lparr>transactions := tbl\<rparr>)"
  proof (cases "txs = []")
    case True
    with assms have "t' = t" by (simp add: InsertTransactions_def reads_txs_def)
    moreover have "\<exists>tbl. t = t\<lparr>transactions := tbl\<rparr>"
      by (rule exI [of _ "transactions t"]) simp
    ultimately show ?thesis using True assms(4) by (auto simp: all_hashes_def)
  next
    case False
    from InsertTransactions_unfold [OF assms(1,2) False assms(3), of E t]
    obtain look keys where
      ex: "InsertTransactions E txn m t =
        exec_write E (InsertTransactionRows ?s)
          (\<lambda>t. bind_res (insert_rows (lookup_rows ?s (look, keys)) (transactions t))
             (\<lambda>tbl. Inr (t\<lparr>transactions := tbl\<rparr>))) t"
      and d: "distinct keys" and ks: "set keys = set (all_hashes txs)"
      and look: "\<forall>tx \<in> set txs. \<forall>h \<in> set (tx_hashes tx). look h = Some tx"
      by (elim exE conjE)
    from assms(5) obtain tbl where
      rows: "insert_rows (lookup_rows ?s (look, keys)) (transactions t) = Inr tbl"
      and t': "t' = t\<lparr>transactions := tbl\<rparr>"
      unfolding ex by (auto elim!: exec_write_cases simp: bind_res_Inr_iff)
    note f = insert_rows_find [OF assms(4) rows]
    have "map_of (transactions t') h = (if h \<in> set keys
        then Some \<lparr>tr_ledger_sequence = ?s, tr_application_order = uint (tx_Index (the (look h)))\<rparr>
        else map_of (transactions t) h)" for h
      using f by (simp add: t' map_add_def map_of_lookup_rows)
    with f look ks show ?thesis by (auto simp: t' all_hashes_def)
  qed
  then show "table_ok (transactions t')"
    and "\<And>tx h. tx \<in> set txs \<Longrightarrow> h \<in> set (tx_hashes tx) \<Longrightarrow>
      map_of (transactions t') h = Some \<lparr>tr_ledger_sequence = lcm_LedgerSequence m,
        tr_application_order = uint (tx_Index tx)\<rparr>"
    and "\<And>h. h \<notin> set (all_hashes txs) \<Longrightarrow> map_of (transactions t') h = map_of (transactions t) h"
    and "\<exists>tbl. t' = t\<lparr>transactions := tbl\<rparr>" by blast+
qed

lemma InsertTransactions_succeeds:
  assumes "reads_txs (th_passphrase txn) m txs" and "th_stmtCache txn"
    and "distinct (all_hashes txs)" and "table_ok (transactions t)"
    and "eng_fault E (InsertTransactionRows (lcm_LedgerSequence m)) = None"
    and "\<forall>h \<in> set (all_hashes txs). map_of (transactions t) h = None"
  shows "\<exists>t'. InsertTransactions E txn m t = (None, t')"
proof (cases "txs = []")
  case True
  with assms show ?thesis by (simp add: InsertTransactions_def reads_txs_def)
next
  case False
  let ?s = "lcm_LedgerSequence m"
  from InsertTransactions_unfold [OF assms(1,2) False assms(3), of E t]
  obtain look keys where
    ex: "InsertTransactions E txn m t =
      exec_write E (InsertTransactionRows ?s)
        (\<lambda>t. bind_res (insert_rows (lookup_rows ?s (look, keys)) (transactions t))
           (\<lambda>tbl. Inr (t\<lparr>transactions := tbl\<rparr>))) t"
    and d: "distinct keys" and ks: "set keys = set (all_hashes txs)"
    and "\<forall>tx \<in> set txs. \<forall>h \<in> set (tx_hashes tx). look h = Some tx"
    by (elim exE conjE)
  have "\<exists>tbl. insert_rows (lookup_rows ?s (look, keys)) (transactions t) = Inr tbl"
  proof (rule insert_rows_total [OF assms(4)])
    show "distinct (map fst (lookup_rows ?s (look, keys)))" using d by (simp add: lookup_rows_keys)
    show "map_of (transactions t) h = None"
      if "h \<in> fst ` set (lookup_rows ?s (look, keys))" for h
      using that assms(6) ks by (auto simp: lookup_rows_def)
  qed
  with assms(5) show ?thesis by (auto simp: ex exec_write_no_fault)
qed

lemma InsertLedger_succeeds:
  assumes "eng_fault E (InsertLedgerRow (lcm_LedgerSequence m)) = None"
    and "map_of (ledger_close_meta t) (lcm_LedgerSequence m) = None"
  shows "InsertLedger E m t =
    (None, t\<lparr>ledger_close_meta := put_row (lcm_LedgerSequence m) m (ledger_close_meta t)\<rparr>)"
  using assms by (simp add: InsertLedger_def exec_write_no_fault bind_res_def insert_row_def
      map_of_eq_None_iff)

lemma getTransactionByHash_found:
  assumes "table_ok (ledger_close_meta t)" and "table_ok (transactions t)"
    and "eng_fault E (SelectTransaction h) = None"
    and "map_of (ledger_close_meta t) s = Some m"
    and "map_of (transactions t) h = Some \<lparr>tr_ledger_sequence = s,
       tr_application_order = uint (tx_Index (txs ! i))\<rparr>"
    and "reads_txs (th_passphrase txn) m txs" and "i < length txs" and "length txs < 2 ^ 32"
  shows "getTransactionByHash E txn h t = Inr (m, txs ! i)"
proof -
  have "tx_Index (txs ! i) = of_nat (Suc i)" and
    seek: "lcm_Seek m (th_passphrase txn) (int i) = Inr (map Inr (drop i txs))"
    using assms(6,7) by (simp_all add: reads_txs_def)
  moreover have "uint (of_nat (Suc i) :: u32) = int (Suc i)"
    using assms(7,8) unat_of_nat_u32 [of "Suc i"] by (metis Suc_lessI order.strict_trans uint_nat)
  ultimately have idx: "uint (tx_Index (txs ! i)) = int i + 1" by simp
  have "drop i txs = txs ! i # drop (Suc i) txs" using assms(7) by (simp add: Cons_nth_drop_Suc)
  then show ?thesis
    using assms(1-6) seek
    by (simp add: getTransactionByHash_def exec_stmt_ok select_key idx reads_txs_def)
qed

lemma getTransactionByHash_missing:
  assumes "table_ok (transactions t)" and "eng_fault E (SelectTransaction h) = None"
    and "map_of (transactions t) h = None"
  shows "getTransactionByHash E txn h t = Inl ErrNoTransaction"
  using assms by (simp add: getTransactionByHash_def exec_stmt_ok select_key)

subsection \<open>Events: writing\<close>

definition event_cursor :: "'v LedgerCloseMeta \<Rightarrow> 'v LedgerTransaction \<Rightarrow> nat \<Rightarrow> Cursor" where
  "event_cursor m tx i = Cursor (lcm_LedgerSequence m) (tx_Index tx) 0 (of_nat i)"

text \<open>The bounds under which a cursor of the ledger fits a total-order identifier.\<close>

definition ledger_fits :: "'v LedgerCloseMeta \<Rightarrow> 'v LedgerTransaction res list \<Rightarrow> bool" where
  "ledger_fits m reads \<longleftrightarrow> uint (lcm_LedgerSequence m) < 2 ^ 31 \<and>
     (\<forall>tx. Inr tx \<in> set reads \<longrightarrow> uint (tx_Index tx) < 2 ^ 20)"

lemma event_cursor_valid:
  "ledger_fits m reads \<Longrightarrow> Inr tx \<in> set reads \<Longrightarrow> valid_cursor (event_cursor m tx i)"
  by (simp add: ledger_fits_def event_cursor_def valid_cursor_def)

lemma event_to_row_key:
  assumes "toid_spec (pk_toid P)" and "valid_cursor (event_cursor m tx i)"
    and "event_to_row P m tx (i, e) = Inr (k, r)"
  shows "k = cursor_text (event_cursor m tx i)"
  using assms
  by (auto simp: event_to_row_def Let_def event_cursor_def [symmetric] Cursor_String_valid
      bind_res_Inr_iff split: option.splits)

lemma event_rows_keys:
  assumes "toid_spec (pk_toid P)" and "\<And>i. valid_cursor (event_cursor m tx i)"
    and "traverse (event_to_row P m tx) (enumerate n es) = Inr rows"
  shows "map fst rows = map (\<lambda>i. cursor_text (event_cursor m tx i)) [n ..< n + length es]"
  using assms(3)
proof (induction es arbitrary: n rows)
  case (Cons e es)
  from Cons.prems obtain k r rest where
    row: "event_to_row P m tx (n, e) = Inr (k, r)" and
    rest: "traverse (event_to_row P m tx) (enumerate (Suc n) es) = Inr rest" and
    rows: "rows = (k, r) # rest"
    by (auto split: sum.splits)
  have "k = cursor_text (event_cursor m tx n)"
    using event_to_row_key [OF assms(1) assms(2) row] .
  with Cons.IH [OF rest] show ?case
    by (simp add: rows upt_conv_Cons del: upt_Suc)
qed simp

text \<open>The three ways one transaction can go.\<close>

lemma insert_tx_events_Inr:
  obtains (skip) "insert_tx_events E P m (Inr tx # reads) t = insert_tx_events E P m reads t"
    | (error) err where "insert_tx_events E P m (Inr tx # reads) t = (Some err, t)"
    | (rows) es rows where
        "traverse (event_to_row P m tx) (enumerate 0 es) = Inr rows"
        "insert_tx_events E P m (Inr tx # reads) t =
          (case exec_write E (InsertEventRows (lcm_LedgerSequence m) (tx_Index tx))
              (\<lambda>t. bind_res (insert_rows rows (events t)) (\<lambda>tbl. Inr (t\<lparr>events := tbl\<rparr>))) t of
             (Some e, t') \<Rightarrow> (Some e, t') | (None, t') \<Rightarrow> insert_tx_events E P m reads t')"
  by (cases "tx_GetTransactionEvents tx") (fastforce simp: Let_def split: sum.splits if_splits)+

declare insert_tx_events.simps(3) [simp del]

text \<open>Whatever fails on the way, the ids stay texts of valid cursors.\<close>

lemma insert_tx_events_ok:
  assumes "toid_spec (pk_toid P)" and "ledger_fits m reads" and "events_ok (events t)"
    and "insert_tx_events E P m reads t = (e, t')"
  shows "events_ok (events t') \<and> event_seqs t' \<subseteq> insert (lcm_LedgerSequence m) (event_seqs t)"
  using assms(2-4)
proof (induction reads arbitrary: t)
  case Nil
  then show ?case by auto
next
  case (Cons r reads)
  have fits: "ledger_fits m reads" using Cons.prems(1) by (auto simp: ledger_fits_def)
  show ?case
  proof (cases r)
    case (Inl err)
    with Cons.prems show ?thesis by auto
  next
    case (Inr tx)
    note v = event_cursor_valid [OF Cons.prems(1), of tx]
    show ?thesis
    proof (cases rule: insert_tx_events_Inr [of E P m tx reads t])
      case skip
      with Cons.IH [OF fits Cons.prems(2)] Cons.prems(3) Inr show ?thesis by simp
    next
      case error
      with Cons.prems Inr show ?thesis by auto
    next
      case (rows es rows)
      let ?f = "\<lambda>t. bind_res (insert_rows rows (events t)) (\<lambda>tbl. Inr (t\<lparr>events := tbl\<rparr>))"
      let ?s = "InsertEventRows (lcm_LedgerSequence m) (tx_Index tx)"
      obtain e1 t1 where ex: "exec_write E ?s ?f t = (e1, t1)" by fastforce
      then show ?thesis
      proof (cases rule: exec_write_cases)
        case fault
        with rows(2) ex Cons.prems Inr show ?thesis by auto
      next
        case ok
        then obtain tbl where tbl: "insert_rows rows (events t) = Inr tbl" "t1 = t\<lparr>events := tbl\<rparr>"
          by (auto simp: bind_res_Inr_iff)
        have keys: "\<exists>c. valid_cursor c \<and> k = cursor_text c \<and> c_Ledger c = lcm_LedgerSequence m"
          if "(k, r') \<in> set rows" for k r'
        proof -
          have "k \<in> set (map fst rows)" using that by force
          then obtain i where "k = cursor_text (event_cursor m tx i)"
            unfolding event_rows_keys [OF assms(1) v rows(1), simplified Inr, simplified] by auto
          moreover have "c_Ledger (event_cursor m tx i) = lcm_LedgerSequence m"
            by (simp add: event_cursor_def)
          ultimately show ?thesis using v [of i] Inr by auto
        qed
        have ev: "events_ok (events t1)"
          using insert_rows_events_ok [OF Cons.prems(2) tbl(1)] keys by (auto simp: tbl(2))
        have "event_seqs t1 \<subseteq> insert (lcm_LedgerSequence m) (event_seqs t)"
        proof
          fix x
          assume "x \<in> event_seqs t1"
          then obtain c r' where c: "x = c_Ledger c" "valid_cursor c" "(cursor_text c, r') \<in> set tbl"
            by (auto simp: event_seqs_def tbl(2))
          then consider "(cursor_text c, r') \<in> set (events t)" | "(cursor_text c, r') \<in> set rows"
            using insert_rows_set [OF _ tbl(1)] Cons.prems(2) by (auto simp: events_ok_def)
          then show "x \<in> insert (lcm_LedgerSequence m) (event_seqs t)"
            using c keys [of "cursor_text c" r']
            by cases (force simp: event_seqs_def, auto simp: cursor_text_eq_iff)
        qed
        moreover have "insert_tx_events E P m reads t1 = (e, t')"
          using rows(2) ex ok Cons.prems(3) Inr by simp
        ultimately show ?thesis
          using Cons.IH [OF fits ev] by blast
      qed
    qed
  qed
qed

subsection \<open>Events: reading\<close>

definition cursor_of :: "toid_pkg \<Rightarrow> string \<Rightarrow> Cursor" where
  "cursor_of T k = (case ParseCursor T k of Inl _ \<Rightarrow> MinCursor | Inr c \<Rightarrow> c)"

lemma cursor_of_text: "toid_spec T \<Longrightarrow> valid_cursor c \<Longrightarrow> cursor_of T (cursor_text c) = c"
  by (simp add: cursor_of_def ParseCursor_text)

text \<open>The rows can be decoded: what the writer promises of every row it inserts.\<close>

definition row_decodes :: "'v event_pkg \<Rightarrow> event_row \<Rightarrow> bool" where
  "row_decodes V r \<longleftrightarrow>
     (\<exists>e. ev_SafeUnmarshal V (er_event_data r) = Inr e) \<and> length (er_transaction_hash r) = 32"

type_synonym 'v scanned = "'v DiagnosticEvent \<times> Cursor \<times> i64 \<times> bytes"

definition decode_row :: "'v pkgs \<Rightarrow> string \<times> event_row \<Rightarrow> 'v scanned" where
  "decode_row P kr = (case kr of (k, r) \<Rightarrow>
     (projr (ev_SafeUnmarshal (pk_event P) (er_event_data r)), cursor_of (pk_toid P) k,
      er_ledger_close_time r, er_transaction_hash r))"

text \<open>The reading loop without its error paths: call the function until it answers false.\<close>

fun scan_list ::
  "('v DiagnosticEvent \<Rightarrow> Cursor \<Rightarrow> i64 \<Rightarrow> bytes \<Rightarrow> 's \<Rightarrow> bool \<times> 's) \<Rightarrow> 'v scanned list \<Rightarrow> 's \<Rightarrow> 's"
where
  "scan_list f [] s = s"
| "scan_list f ((e, c, tm, h) # xs) s =
     (case f e c tm h s of (False, s') \<Rightarrow> s' | (True, s') \<Rightarrow> scan_list f xs s')"

lemma scan_events_list:
  assumes "toid_spec (pk_toid P)" and "\<And>k. eng_fault E (ScanEvent k) = None"
    and "\<forall>(k, r) \<in> set rows. (\<exists>c. valid_cursor c \<and> k = cursor_text c) \<and>
      row_decodes (pk_event P) r"
  shows "scan_events E P f rows s = (None, scan_list f (map (decode_row P) rows) s)"
  using assms(3)
proof (induction rows arbitrary: s)
  case (Cons kr rows)
  obtain k r where kr: "kr = (k, r)" by fastforce
  with Cons.prems obtain c e where c: "valid_cursor c" "k = cursor_text c"
    and e: "ev_SafeUnmarshal (pk_event P) (er_event_data r) = Inr e"
    and h: "length (er_transaction_hash r) = 32"
    by (auto simp: row_decodes_def)
  have "ParseCursor (pk_toid P) k = Inr c"
    using c assms(1) by (simp add: ParseCursor_text)
  then show ?case
    using Cons e h assms(2)
    by (simp add: kr to_hash_def decode_row_def cursor_of_def split: prod.splits bool.splits)
qed simp

definition columns_match ::
  "bytes list \<Rightarrow> (bytes list option) list \<Rightarrow> int list \<Rightarrow> event_row \<Rightarrow> bool" where
  "columns_match contractIDs topics eventTypes r \<longleftrightarrow>
     (contractIDs = [] \<or> (\<exists>c \<in> set contractIDs. er_contract_id r = Some c)) \<and>
     (eventTypes = [] \<or> er_event_type r \<in> set eventTypes) \<and> topic_condition topics r"

text \<open>The rows a query by cursor range selects.\<close>

definition rows_between ::
  "toid_pkg \<Rightarrow> CursorRange \<Rightarrow> (event_row \<Rightarrow> bool) \<Rightarrow> (string, event_row) table \<Rightarrow>
   (string \<times> event_row) list" where
  "rows_between T rng Q tbl =
     filter (\<lambda>(k, r). cr_Start rng \<le> cursor_of T k \<and> cursor_of T k < cr_End rng \<and> Q r) tbl"

definition range_valid :: "CursorRange \<Rightarrow> bool" where
  "range_valid rng \<longleftrightarrow> valid_cursor (cr_Start rng) \<and> valid_cursor (cr_End rng)"

lemma select_events_between:
  assumes "toid_spec T" and "events_ok tbl" and "range_valid rng"
  shows "select_rows (event_query (cursor_text (cr_Start rng)) (cursor_text (cr_End rng))
      ids topics types) tbl = rows_between T rng (columns_match ids topics types) tbl"
  unfolding select_rows_def rows_between_def
proof (rule filter_cong [OF refl])
  fix kr
  assume kr: "kr \<in> set tbl"
  obtain k r where eq: "kr = (k, r)" by fastforce
  with kr assms(2) obtain c where c: "valid_cursor c" "k = cursor_text c"
    by (auto simp: events_ok_def)
  have "cursor_text (cr_Start rng) \<le> k \<longleftrightarrow> cr_Start rng \<le> c"
    using c assms(3)
    by (metis cursor_text_less_iff linorder_not_le range_valid_def)
  moreover have "k < cursor_text (cr_End rng) \<longleftrightarrow> c < cr_End rng"
    using c assms(3) by (simp add: range_valid_def cursor_text_less_iff)
  ultimately show "(case kr of (k, r) \<Rightarrow> event_query (cursor_text (cr_Start rng))
        (cursor_text (cr_End rng)) ids topics types k r) =
      (case kr of (k, r) \<Rightarrow> cr_Start rng \<le> cursor_of T k \<and> cursor_of T k < cr_End rng \<and>
         columns_match ids topics types r)"
    using c assms(1) by (simp add: eq event_query_def columns_match_def cursor_of_text)
qed

lemma events_in_cursor_order:
  assumes "toid_spec T" and "events_ok tbl"
  shows "sorted_wrt (<) (map (\<lambda>(k, r). cursor_of T k) tbl)"
proof -
  have "sorted_wrt (\<lambda>x y. fst x < fst y) tbl"
    using assms(2) by (simp add: events_ok_def table_ok_def sorted_wrt_map)
  moreover have "cursor_of T k < cursor_of T k'"
    if kk: "k < k'" "(k, r) \<in> set tbl" "(k', r') \<in> set tbl" for k k' r r'
  proof -
    from kk(2,3) assms(2) obtain c c' where "valid_cursor c" "k = cursor_text c"
      "valid_cursor c'" "k' = cursor_text c'"
      by (blast dest: events_ok_key)
    with kk(1) assms(1) show ?thesis by (simp add: cursor_of_text cursor_text_less_iff)
  qed
  ultimately have "sorted_wrt (\<lambda>x y. (\<lambda>(k, r). cursor_of T k) x < (\<lambda>(k, r). cursor_of T k) y) tbl"
    by (elim sorted_wrt_mono_rel [rotated]) (auto split: prod.splits)
  then show ?thesis by (simp add: sorted_wrt_map)
qed

lemma GetEvents_scan:
  assumes "toid_spec (pk_toid P)" and "strkey_spec (pk_strkey P)" and "no_faults E"
    and "events_ok (events t)" and "\<forall>(k, r) \<in> set (events t). row_decodes (pk_event P) r"
    and "range_valid rng" and "\<forall>b \<in> set ids. length b = 32" and "length topics \<le> MaxTopicCount"
  shows "GetEvents E P rng ids topics types f t s =
    (None, scan_list f (map (decode_row P)
       (rows_between (pk_toid P) rng (columns_match ids topics types) (events t))) s)"
proof -
  let ?a = "cursor_text (cr_Start rng)" and ?b = "cursor_text (cr_End rng)"
  let ?rows = "rows_between (pk_toid P) rng (columns_match ids topics types) (events t)"
  have enc: "\<exists>bs. traverse (sk_Encode (pk_strkey P)) ids = Inr bs"
  proof -
    have "\<exists>g. \<forall>b \<in> set ids. sk_Encode (pk_strkey P) b = Inr (g b)"
      using assms(2,7) unfolding strkey_spec_def by metis
    then show ?thesis by (metis traverse_total)
  qed
  have "GetEvents E P rng ids topics types f t s = scan_events E P f ?rows s"
    using assms enc select_events_between [OF assms(1,4,6), of ids topics types]
    by (auto simp: GetEvents_def Cursor_String_valid range_valid_def exec_stmt_ok no_faults_def)
  also have "\<dots> = (None, scan_list f (map (decode_row P) ?rows) s)"
    using assms
    by (intro scan_events_list) (auto simp: rows_between_def events_ok_def no_faults_def)
  finally show ?thesis .
qed

subsection \<open>Events: insert, then read\<close>

lemma insert_rows_append:
  assumes "table_ok (t @ rs)"
  shows "insert_rows rs t = Inr (t @ rs)"
  using assms
proof (induction rs arbitrary: t)
  case (Cons kr rs)
  obtain k r where kr: "kr = (k, r)" by fastforce
  have less: "\<forall>x \<in> set t. fst x < k"
    using Cons.prems by (auto simp: table_ok_def kr sorted_wrt_append)
  then have "put_row k r t = t @ [(k, r)]" by (rule put_row_append)
  moreover have "k \<notin> fst ` set t" using less by auto
  ultimately have "insert_row k r t = Inr (t @ [(k, r)])" by (simp add: insert_row_def)
  with Cons.IH [of "t @ [(k, r)]"] Cons.prems show ?case by (simp add: kr)
qed simp

text \<open>A transaction whose events can be stored and read back.\<close>

definition event_storable :: "'v pkgs \<Rightarrow> 'v DiagnosticEvent \<Rightarrow> bool" where
  "event_storable P e \<longleftrightarrow>
     (\<exists>b. ev_MarshalBinary (pk_event P) e = Inr b \<and> ev_SafeUnmarshal (pk_event P) b = Inr e) \<and>
     (\<exists>v0. ce_Body (de_Event e) = Some v0 \<and>
        (\<forall>v \<in> set (v0_Topics v0). \<exists>b. sv_MarshalBinary (pk_scval P) v = Inr b))"

definition tx_diag_events :: "'v LedgerTransaction \<Rightarrow> 'v DiagnosticEvent list" where
  "tx_diag_events tx = (case tx_GetTransactionEvents tx of
     Inl _ \<Rightarrow> [] | Inr te \<Rightarrow> transactionEventsIntoDiagnosticEvents te)"

definition tx_storable :: "'v pkgs \<Rightarrow> 'v LedgerTransaction \<Rightarrow> bool" where
  "tx_storable P tx \<longleftrightarrow> tx_Successful tx \<longrightarrow>
     (\<exists>te. tx_GetTransactionEvents tx = Inr te) \<and> length (tx_TransactionHash tx) = 32 \<and>
     length (tx_diag_events tx) < 2 ^ 32 \<and> list_all (event_storable P) (tx_diag_events tx)"

definition tx_scanned ::
  "'v LedgerCloseMeta \<Rightarrow> 'v LedgerTransaction \<Rightarrow> 'v scanned list" where
  "tx_scanned m tx = (if tx_Successful tx
     then map (\<lambda>(i, e). (e, event_cursor m tx i, lcm_LedgerCloseTime m, tx_TransactionHash tx))
            (enumerate 0 (tx_diag_events tx))
     else [])"

lemma event_to_row_total:
  assumes "toid_spec (pk_toid P)" and "valid_cursor (event_cursor m tx i)"
    and "event_storable P e" and "length (tx_TransactionHash tx) = 32"
  shows "\<exists>k r. event_to_row P m tx (i, e) = Inr (k, r) \<and> row_decodes (pk_event P) r \<and>
    decode_row P (k, r) = (e, event_cursor m tx i, lcm_LedgerCloseTime m, tx_TransactionHash tx)"
proof -
  from assms(3) obtain b v0 where b: "ev_MarshalBinary (pk_event P) e = Inr b"
      "ev_SafeUnmarshal (pk_event P) b = Inr e" and v0: "ce_Body (de_Event e) = Some v0"
    and tops: "\<forall>v \<in> set (v0_Topics v0). \<exists>b. sv_MarshalBinary (pk_scval P) v = Inr b"
    by (auto simp: event_storable_def)
  obtain g where "\<forall>v \<in> set (take MaxTopicCount (v0_Topics v0)).
      sv_MarshalBinary (pk_scval P) v = Inr (g v)"
    using tops by (metis in_set_takeD)
  then have "traverse (sv_MarshalBinary (pk_scval P)) (take MaxTopicCount (v0_Topics v0)) =
      Inr (map g (take MaxTopicCount (v0_Topics v0)))"
    by (intro traverse_total) blast
  then obtain cols where "topic_columns (pk_scval P) (v0_Topics v0) = Inr cols"
    by (simp add: topic_columns_def)
  with b v0 assms show ?thesis
    by (simp add: event_to_row_def Let_def event_cursor_def [symmetric] Cursor_String_valid
        row_decodes_def decode_row_def cursor_of_text)
qed

lemma tx_rows_total:
  assumes "toid_spec (pk_toid P)" and "\<And>i. valid_cursor (event_cursor m tx i)"
    and "list_all (event_storable P) es" and "length (tx_TransactionHash tx) = 32"
  shows "\<exists>rows. traverse (event_to_row P m tx) (enumerate n es) = Inr rows \<and>
    (\<forall>(k, r) \<in> set rows. row_decodes (pk_event P) r) \<and>
    map (decode_row P) rows = map (\<lambda>(i, e). (e, event_cursor m tx i, lcm_LedgerCloseTime m,
      tx_TransactionHash tx)) (enumerate n es)"
  using assms(3)
proof (induction es arbitrary: n)
  case (Cons e es)
  from event_to_row_total [OF assms(1,2) _ assms(4), of e n] Cons.prems obtain k r where
    "event_to_row P m tx (n, e) = Inr (k, r)" "row_decodes (pk_event P) r"
    "decode_row P (k, r) = (e, event_cursor m tx n, lcm_LedgerCloseTime m, tx_TransactionHash tx)"
    by auto
  moreover from Cons.IH [of "Suc n"] Cons.prems obtain rows where
    "traverse (event_to_row P m tx) (enumerate (Suc n) es) = Inr rows"
    "\<forall>(k, r) \<in> set rows. row_decodes (pk_event P) r"
    "map (decode_row P) rows = map (\<lambda>(i, e). (e, event_cursor m tx i, lcm_LedgerCloseTime m,
      tx_TransactionHash tx)) (enumerate (Suc n) es)"
    by auto
  ultimately show ?case by (intro exI [of _ "(k, r) # rows"]) simp
qed simp

lemma event_cursor_mono:
  "i < j \<Longrightarrow> j < 2 ^ 32 \<Longrightarrow> event_cursor m tx i < event_cursor m tx j"
  by (simp add: event_cursor_def cursor_order word_less_nat_alt unat_of_nat_u32)

lemma event_cursor_index:
  "tx_Index tx < tx_Index tx' \<Longrightarrow> event_cursor m tx i < event_cursor m tx' j"
  by (simp add: event_cursor_def cursor_order)

lemma event_cursor_0: "event_cursor m tx 0 \<le> event_cursor m tx i"
  by (simp add: event_cursor_def cursor_order)

lemma event_rows_sorted:
  assumes "\<And>i. valid_cursor (event_cursor m tx i)" and "n < 2 ^ 32"
  shows "sorted_wrt (<) (map (\<lambda>i. cursor_text (event_cursor m tx i)) [0 ..< n])"
proof -
  have "sorted_wrt (\<lambda>i j. i < j \<and> j < n) [0..<n]"
    by (rule sorted_wrt_mono_rel [of _ "(<)"]) auto
  then show ?thesis
    unfolding sorted_wrt_map
  proof (rule sorted_wrt_mono_rel [rotated])
    fix i j :: nat
    assume "i < j \<and> j < n"
    then show "cursor_text (event_cursor m tx i) < cursor_text (event_cursor m tx j)"
      using assms by (simp add: cursor_text_less_iff event_cursor_mono)
  qed
qed

lemma append_tx_rows_ok:
  assumes "\<And>i. valid_cursor (event_cursor m tx i)" and "n < 2 ^ 32" and "events_ok tbl"
    and "map fst rows = map (\<lambda>i. cursor_text (event_cursor m tx i)) [0 ..< n]"
    and "\<forall>(k, r) \<in> set tbl. k < cursor_text (event_cursor m tx 0)"
  shows "events_ok (tbl @ rows)"
proof -
  have keys: "\<exists>i < n. k = cursor_text (event_cursor m tx i)" if "(k, r) \<in> set rows" for k r
  proof -
    have "k \<in> set (map fst rows)" using that by force
    then show ?thesis unfolding assms(4) by auto
  qed
  have less: "k < k'" if kk: "(k, r) \<in> set tbl" "(k', r') \<in> set rows" for k r k' r'
  proof -
    from keys [OF kk(2)] obtain i where k': "k' = cursor_text (event_cursor m tx i)" by blast
    have "k < cursor_text (event_cursor m tx 0)" using assms(5) kk(1) by auto
    also have "\<dots> \<le> k'"
      using event_cursor_0 [of m tx i] assms(1)
      by (metis cursor_text_less_iff k' linorder_not_le)
    finally show ?thesis .
  qed
  have "sorted_wrt (<) (map fst rows)"
    unfolding assms(4) by (rule event_rows_sorted [OF assms(1,2)])
  then have "table_ok (tbl @ rows)"
    using assms(3) less by (auto simp: table_ok_def events_ok_def sorted_wrt_append)
  moreover have "\<exists>c. valid_cursor c \<and> k = cursor_text c" if "(k, r) \<in> set (tbl @ rows)" for k r
  proof (cases "(k, r) \<in> set tbl")
    case True
    then show ?thesis by (rule events_ok_key [OF assms(3)])
  next
    case False
    with that keys [of k r] assms(1) show ?thesis by auto
  qed
  ultimately show ?thesis by (auto simp: events_ok_def)
qed

lemma insert_tx_events_append:
  assumes "toid_spec (pk_toid P)" and "no_faults E"
    and "ledger_fits m (map Inr txs)" and "\<forall>tx \<in> set txs. tx_storable P tx"
    and "sorted_wrt (<) (map tx_Index txs)" and "events_ok (events t)"
    and "\<forall>(k, r) \<in> set (events t). \<forall>tx \<in> set txs. k < cursor_text (event_cursor m tx 0)"
  shows "\<exists>rows. insert_tx_events E P m (map Inr txs) t = (None, t\<lparr>events := events t @ rows\<rparr>) \<and>
    events_ok (events t @ rows) \<and> (\<forall>(k, r) \<in> set rows. row_decodes (pk_event P) r) \<and>
    map (decode_row P) rows = concat (map (tx_scanned m) txs)"
  using assms(3-7)
proof (induction txs arbitrary: t)
  case Nil
  then show ?case by simp
next
  case (Cons tx txs)
  have fits: "ledger_fits m (map Inr txs)"
    using Cons.prems(1) by (auto simp: ledger_fits_def)
  have v: "valid_cursor (event_cursor m tx' i)" if "tx' \<in> set (tx # txs)" for tx' i
    using that event_cursor_valid [OF Cons.prems(1), of tx' i] by auto
  have vtx: "valid_cursor (event_cursor m tx i)" for i using v by simp
  show ?case
  proof (cases "tx_Successful tx \<and> tx_diag_events tx \<noteq> []")
    case False
    then have skip: "insert_tx_events E P m (map Inr (tx # txs)) t =
        insert_tx_events E P m (map Inr txs) t" and "tx_scanned m tx = []"
      using Cons.prems(2)
      by (auto simp: insert_tx_events.simps(3) tx_storable_def tx_diag_events_def tx_scanned_def
          split: sum.splits)
    moreover have "\<exists>rows. insert_tx_events E P m (map Inr txs) t =
          (None, t\<lparr>events := events t @ rows\<rparr>) \<and>
        events_ok (events t @ rows) \<and> (\<forall>(k, r) \<in> set rows. row_decodes (pk_event P) r) \<and>
        map (decode_row P) rows = concat (map (tx_scanned m) txs)"
      using Cons.prems fits by (intro Cons.IH) auto
    ultimately show ?thesis by (simp only: skip) simp
  next
    case True
    let ?es = "tx_diag_events tx"
    from True Cons.prems(2) obtain te where te: "tx_GetTransactionEvents tx = Inr te"
      and h: "length (tx_TransactionHash tx) = 32" and n: "length ?es < 2 ^ 32"
      and es: "list_all (event_storable P) ?es"
      by (auto simp: tx_storable_def)
    from tx_rows_total [OF assms(1) vtx es h, of 0] obtain rows where
      rows: "traverse (event_to_row P m tx) (enumerate 0 ?es) = Inr rows" and
      dec: "\<forall>(k, r) \<in> set rows. row_decodes (pk_event P) r" and
      scanned: "map (decode_row P) rows = tx_scanned m tx"
      using True by (auto simp: tx_scanned_def)
    note keys = event_rows_keys [OF assms(1) vtx rows, simplified]
    have ok: "events_ok (events t @ rows)"
      using Cons.prems(5) by (intro append_tx_rows_ok [OF vtx n Cons.prems(4) keys]) auto
    then have ins: "insert_rows rows (events t) = Inr (events t @ rows)"
      by (simp add: events_ok_def insert_rows_append)
    have diag: "transactionEventsIntoDiagnosticEvents te = ?es"
      by (simp add: tx_diag_events_def te)
    define t1 where "t1 = t\<lparr>events := events t @ rows\<rparr>"
    have step: "insert_tx_events E P m (map Inr (tx # txs)) t =
        insert_tx_events E P m (map Inr txs) t1"
      using True te rows ins assms(2)
      by (simp add: insert_tx_events.simps(3) diag exec_write_no_fault no_faults_def t1_def)
    have new: "k < cursor_text (event_cursor m tx' 0)"
      if k: "(k, r) \<in> set rows" and tx': "tx' \<in> set txs" for k r tx'
    proof -
      have "k \<in> set (map fst rows)" using k by force
      then obtain i where "k = cursor_text (event_cursor m tx i)" unfolding keys by auto
      moreover have "tx_Index tx < tx_Index tx'" using Cons.prems(3) tx' by auto
      ultimately show ?thesis
        using v tx' by (simp add: cursor_text_less_iff event_cursor_index)
    qed
    have "\<exists>rest. insert_tx_events E P m (map Inr txs) t1 = (None, t1\<lparr>events := events t1 @ rest\<rparr>) \<and>
        events_ok (events t1 @ rest) \<and> (\<forall>(k, r) \<in> set rest. row_decodes (pk_event P) r) \<and>
        map (decode_row P) rest = concat (map (tx_scanned m) txs)"
      using Cons.prems fits ok new by (intro Cons.IH) (auto simp: t1_def)
    then obtain rest where
      "insert_tx_events E P m (map Inr txs) t1 = (None, t1\<lparr>events := events t1 @ rest\<rparr>)"
      "events_ok (events t1 @ rest)" "\<forall>(k, r) \<in> set rest. row_decodes (pk_event P) r"
      "map (decode_row P) rest = concat (map (tx_scanned m) txs)"
      by blast
    with step dec scanned show ?thesis
      by (intro exI [of _ "rows @ rest"]) (auto simp: t1_def)
  qed
qed

end
