(* ===== verification/StoreProps.thy ===== *)
theory StoreProps
  imports StoreLaws FeeWindow
begin

text \<open>
  The properties of the store's readers and writers: a transaction is found again under each
  of its hashes, the events of a ledger are read back in cursor order and completely, and an
  event query is exactly the cursor range with the column conditions.
\<close>

subsection \<open>Transactions\<close>

text \<open>After a ledger and its transactions are inserted into a store that holds neither the
  ledger nor any of the hashes, both inserts return no error, and looking up any hash of the
  ledger, the outer and the inner hash of a fee bump included, yields the very transaction it
  belongs to; the lookup of a hash the store has never seen answers that there is none.\<close>

theorem transaction_round_trip:
  assumes "store_ok t" and "th_stmtCache txn" and "reads_txs (th_passphrase txn) m txs"
    and "length txs < 2 ^ 32" and "distinct (all_hashes txs)"
    and "lcm_LedgerSequence m \<notin> ledger_seqs t"
    and "\<forall>h \<in> set (all_hashes txs). map_of (transactions t) h = None"
    and "no_faults E"
  shows "\<exists>t1 t2. InsertLedger E m t = (None, t1) \<and> InsertTransactions E txn m t1 = (None, t2) \<and>
    (\<forall>tx \<in> set txs. \<forall>h \<in> set (tx_hashes tx).
       GetTransaction E V txn h t2 = ParseTransaction V m tx) \<and>
    (\<forall>h. h \<notin> set (all_hashes txs) \<and> map_of (transactions t) h = None \<longrightarrow>
       GetTransaction E V txn h t2 = Inl ErrNoTransaction)"
proof -
  let ?s = "lcm_LedgerSequence m"
  have nf: "eng_fault E s = None" for s using assms(8) by (simp add: no_faults_def)
  from assms(1) have lok: "ledgers_ok (ledger_close_meta t)" and tok: "table_ok (transactions t)"
    by (simp_all add: store_ok_def)
  have fresh: "map_of (ledger_close_meta t) ?s = None"
    using assms(6) by (simp add: ledger_seqs_def map_of_eq_None_iff)
  define t1 where "t1 = t\<lparr>ledger_close_meta := put_row ?s m (ledger_close_meta t)\<rparr>"
  have i1: "InsertLedger E m t = (None, t1)"
    unfolding t1_def by (rule InsertLedger_succeeds [OF nf fresh])
  have same: "transactions t1 = transactions t" by (simp add: t1_def)
  obtain t2 where i2: "InsertTransactions E txn m t1 = (None, t2)"
    using InsertTransactions_succeeds [OF assms(3,2,5), of t1 E] tok nf assms(7)
    by (auto simp: same)
  note post = InsertTransactions_ok [OF assms(3,2,5) tok [folded same] i2]
  have lcm2: "ledger_close_meta t2 = put_row ?s m (ledger_close_meta t)"
    using post(4) by (auto simp: t1_def)
  have lk: "table_ok (ledger_close_meta t2)" and row: "map_of (ledger_close_meta t2) ?s = Some m"
    using lok by (simp_all add: lcm2 ledgers_ok_def put_row_ok map_of_put_row)
  have found: "GetTransaction E V txn h t2 = ParseTransaction V m tx"
    if tx: "tx \<in> set txs" and h: "h \<in> set (tx_hashes tx)" for tx h
  proof -
    from tx obtain i where i: "i < length txs" "tx = txs ! i" by (auto simp: in_set_conv_nth)
    from getTransactionByHash_found [OF lk post(1) nf row _ assms(3) i(1) assms(4), of h]
      post(2) [OF tx h] i(2)
    show ?thesis by (simp add: GetTransaction_def)
  qed
  have missing: "GetTransaction E V txn h t2 = Inl ErrNoTransaction"
    if "h \<notin> set (all_hashes txs) \<and> map_of (transactions t) h = None" for h
    using getTransactionByHash_missing [OF post(1) nf] post(3) that
    by (simp add: GetTransaction_def same)
  from i1 i2 found missing show ?thesis by blast
qed

definition calm_engine :: engine where
  "calm_engine = \<lparr>eng_fault = (\<lambda>_. None), eng_order = (\<lambda>n. [0..<n])\<rparr>"

lemma calm_engine_no_faults: "no_faults calm_engine"
  by (simp add: no_faults_def calm_engine_def)

lemma calm_engine_permutes: "engine_permutes calm_engine"
  by (simp add: engine_permutes_def calm_engine_def)

definition example_hash :: bytes where
  "example_hash = replicate 32 CHR ''h''"

definition event_tx :: "int LedgerTransaction" where
  "event_tx = example_tx\<lparr>tx_TransactionHash := example_hash, tx_IsFeeBump := True,
     tx_GetTransactionEvents := Inr \<lparr>te_DiagnosticEvents = [example_event],
       te_OperationEvents = [], te_TransactionEvents = []\<rparr>\<rparr>"

lemma example_reads:
  "reads_txs passphrase (example_ledger s [event_tx]) [event_tx]"
  by (simp add: reads_txs_def example_ledger_def event_tx_def example_tx_def)

definition writing_txs :: transactionHandler where
  "writing_txs = \<lparr>th_stmtCache = True, th_passphrase = ''test''\<rparr>"

definition blob_events :: "int event_pkg" where
  "blob_events = \<lparr>ev_MarshalBinary = (\<lambda>_. Inr ''blob''), ev_SafeUnmarshal = (\<lambda>_. Inr example_event)\<rparr>"

theorem transaction_round_trip_witness:
  "\<exists>t1 t2. InsertLedger calm_engine (example_ledger 5 [event_tx]) empty_tables = (None, t1) \<and>
     InsertTransactions calm_engine writing_txs (example_ledger 5 [event_tx]) t1 = (None, t2) \<and>
     (\<forall>h \<in> {''i1'', example_hash}. GetTransaction calm_engine blob_events writing_txs h t2 =
        ParseTransaction blob_events (example_ledger 5 [event_tx]) event_tx)"
proof -
  have h: "all_hashes [event_tx] = [''i1'', example_hash]" "tx_hashes event_tx = [''i1'', example_hash]"
    by (simp_all add: all_hashes_def tx_hashes_def event_tx_def example_tx_def)
  have d: "distinct (all_hashes [event_tx])"
    by (simp only: h) (simp add: example_hash_def numeral_eq_Suc)
  have c: "th_stmtCache writing_txs" by (simp add: writing_txs_def)
  have l: "length [event_tx] < 2 ^ 32" by simp
  have n: "lcm_LedgerSequence (example_ledger 5 [event_tx]) \<notin> ledger_seqs (empty_tables :: int tables)"
    "\<forall>h \<in> set (all_hashes [event_tx]). map_of (transactions (empty_tables :: int tables)) h = None"
    by (simp_all add: ledger_seqs_def empty_tables_def)
  from transaction_round_trip [OF empty_tables_ok c example_reads l d n calm_engine_no_faults,
      of blob_events] h
  show ?thesis by auto
qed

subsection \<open>Events\<close>

text \<open>Over decodable rows a query of the events table is exact: the callback sees precisely
  the rows whose cursor lies in the half-open range and whose columns satisfy the conditions,
  in strictly ascending cursor order, up to the first row for which it answers false.\<close>

theorem GetEvents_correct:
  assumes "toid_spec (pk_toid P)" and "strkey_spec (pk_strkey P)" and "no_faults E"
    and "events_ok (events t)" and "\<forall>(k, r) \<in> set (events t). row_decodes (pk_event P) r"
    and "range_valid rng" and "\<forall>b \<in> set ids. length b = 32" and "length topics \<le> MaxTopicCount"
  shows "\<exists>rows. GetEvents E P rng ids topics types f t s =
      (None, scan_list f (map (decode_row P) rows) s) \<and>
    set rows = {(k, r) \<in> set (events t). cr_Start rng \<le> cursor_of (pk_toid P) k \<and>
      cursor_of (pk_toid P) k < cr_End rng \<and> columns_match ids topics types r} \<and>
    sorted_wrt (<) (map (\<lambda>(k, r). cursor_of (pk_toid P) k) rows)"
proof (intro exI conjI)
  let ?rows = "rows_between (pk_toid P) rng (columns_match ids topics types) (events t)"
  show "GetEvents E P rng ids topics types f t s =
      (None, scan_list f (map (decode_row P) ?rows) s)"
    by (rule GetEvents_scan [OF assms])
  show "set ?rows = {(k, r) \<in> set (events t). cr_Start rng \<le> cursor_of (pk_toid P) k \<and>
      cursor_of (pk_toid P) k < cr_End rng \<and> columns_match ids topics types r}"
    by (auto simp: rows_between_def)
  show "sorted_wrt (<) (map (\<lambda>(k, r). cursor_of (pk_toid P) k) ?rows)"
    using events_in_cursor_order [OF assms(1,4)]
    by (simp add: rows_between_def sorted_wrt_map sorted_wrt_filter)
qed

definition example_pkgs :: "int pkgs" where
  "example_pkgs = \<lparr>pk_toid = toid_layout, pk_strkey = plain_strkey, pk_scval = int_scvals,
     pk_event = blob_events\<rparr>"

lemma example_pkgs_simps [simp]:
  "pk_toid example_pkgs = toid_layout" "pk_strkey example_pkgs = plain_strkey"
  "pk_scval example_pkgs = int_scvals" "pk_event example_pkgs = blob_events"
  by (simp_all add: example_pkgs_def)

definition example_range :: CursorRange where
  "example_range = \<lparr>cr_Start = Cursor 5 0 0 0, cr_End = Cursor 6 0 0 0\<rparr>"

definition collect_scan ::
  "'v DiagnosticEvent \<Rightarrow> Cursor \<Rightarrow> i64 \<Rightarrow> bytes \<Rightarrow> 'v scanned list \<Rightarrow> bool \<times> 'v scanned list" where
  "collect_scan e c tm h acc = (True, acc @ [(e, c, tm, h)])"

lemma scan_list_collect: "scan_list collect_scan xs acc = acc @ xs"
  by (induction xs arbitrary: acc) (auto simp: collect_scan_def)

definition example_row :: event_row where
  "example_row = \<lparr>er_contract_id = None, er_event_type = 1, er_event_data = ''blob'',
     er_ledger_close_time = 25, er_transaction_hash = example_hash,
     er_topics = [None, None, None, None]\<rparr>"

definition example_tables :: "int tables" where
  "example_tables = empty_tables\<lparr>events := [(cursor_text (Cursor 5 1 0 0), example_row)]\<rparr>"

theorem GetEvents_correct_witness:
  "\<exists>rows. GetEvents calm_engine example_pkgs example_range [] [] [1] collect_scan example_tables [] =
      (None, map (decode_row example_pkgs) rows) \<and>
    (cursor_text (Cursor 5 1 0 0), example_row) \<in> set rows"
proof -
  have v: "valid_cursor (Cursor 5 1 0 0)" by (simp add: valid_cursor_def)
  have r: "range_valid example_range"
    by (simp add: range_valid_def example_range_def valid_cursor_def)
  have e: "events_ok (events example_tables)"
    using v by (auto simp: events_ok_def table_ok_def example_tables_def)
  have d: "\<forall>(k, r) \<in> set (events example_tables). row_decodes (pk_event example_pkgs) r"
    by (simp add: example_tables_def row_decodes_def blob_events_def example_row_def example_hash_def)
  have s: "toid_spec (pk_toid example_pkgs)" "strkey_spec (pk_strkey example_pkgs)"
    by (simp_all add: toid_layout_spec plain_strkey_spec)
  have none: "\<forall>b \<in> set []. length b = 32" "length [] \<le> MaxTopicCount" by simp_all
  have "cursor_of toid_layout (cursor_text (Cursor 5 1 0 0)) = Cursor 5 1 0 0"
    by (rule cursor_of_text [OF toid_layout_spec v])
  moreover have "columns_match [] [] [1] example_row"
    by (simp add: columns_match_def topic_condition_def example_row_def)
  ultimately show ?thesis
    using GetEvents_correct [OF s calm_engine_no_faults e d r none, of "[1]" collect_scan "[]"]
    by (auto simp: scan_list_collect example_tables_def example_range_def cursor_order)
qed

lemma reads_txs_sorted:
  assumes "reads_txs passphrase m txs" and "length txs < 2 ^ 20"
  shows "sorted_wrt (<) (map tx_Index txs)" and "\<forall>tx \<in> set txs. uint (tx_Index tx) < 2 ^ 20"
proof -
  have idx: "unat (tx_Index (txs ! i)) = Suc i" if "i < length txs" for i
    using assms that by (simp add: reads_txs_def unat_of_nat_u32 del: of_nat_Suc)
  show "sorted_wrt (<) (map tx_Index txs)"
    by (auto simp: sorted_wrt_iff_nth_less word_less_nat_alt idx)
  show "\<forall>tx \<in> set txs. uint (tx_Index tx) < 2 ^ 20"
  proof
    fix tx
    assume "tx \<in> set txs"
    then obtain i where "i < length txs" "tx = txs ! i" by (auto simp: in_set_conv_nth)
    with idx assms(2) have "unat (tx_Index tx) < 2 ^ 20" by simp
    then have "int (unat (tx_Index tx)) < int (2 ^ 20)" by (rule of_nat_less_iff [THEN iffD2])
    then show "uint (tx_Index tx) < 2 ^ 20" by simp
  qed
qed

lemma cursors_of_ledger:
  assumes "unat s + 1 < 2 ^ 32"
  shows "Cursor s 0 0 0 \<le> c \<and> c < Cursor (s + 1) 0 0 0 \<longleftrightarrow> c_Ledger c = s"
proof -
  have "Cursor s 0 0 0 \<le> c \<longleftrightarrow> s \<le> c_Ledger c"
    using first_cursor_of_ledger [of c s] by (simp add: not_less [symmetric])
  moreover have "c < Cursor (s + 1) 0 0 0 \<longleftrightarrow> c_Ledger c \<le> s"
    using assms by (simp add: first_cursor_of_ledger word_less_nat_alt word_le_nat_alt
        unat_Suc_u32 less_Suc_eq_le)
  ultimately show ?thesis by auto
qed

lemma rows_between_ledger:
  assumes "unat s + 1 < 2 ^ 32"
    and "\<And>k r. (k, r) \<in> set old \<Longrightarrow> c_Ledger (cursor_of T k) \<noteq> s"
    and "\<And>k r. (k, r) \<in> set new \<Longrightarrow> c_Ledger (cursor_of T k) = s"
  shows "rows_between T \<lparr>cr_Start = Cursor s 0 0 0, cr_End = Cursor (s + 1) 0 0 0\<rparr>
    (columns_match [] [] []) (old @ new) = new"
proof -
  have "rows_between T \<lparr>cr_Start = Cursor s 0 0 0, cr_End = Cursor (s + 1) 0 0 0\<rparr>
      (columns_match [] [] []) (old @ new) = filter (\<lambda>(k, r). c_Ledger (cursor_of T k) = s) (old @ new)"
    using cursors_of_ledger [OF assms(1)]
    by (simp add: rows_between_def columns_match_def topic_condition_def)
  also have "filter (\<lambda>(k, r). c_Ledger (cursor_of T k) = s) old = []"
    using assms(2) by (auto simp: filter_empty_conv)
  moreover have "filter (\<lambda>(k, r). c_Ledger (cursor_of T k) = s) new = new"
    using assms(3) by (auto simp: filter_id_conv)
  ultimately show ?thesis by simp
qed

lemma InsertEvents_appends:
  assumes "toid_spec (pk_toid P)" and "no_faults E"
    and "eh_stmtCache eh" and "reads_txs (eh_passphrase eh) m txs" and "length txs < 2 ^ 20"
    and "unat (lcm_LedgerSequence m) + 1 < 2 ^ 31" and "\<forall>tx \<in> set txs. tx_storable P tx"
    and "events_ok (events t)" and "\<forall>s \<in> event_seqs t. s < lcm_LedgerSequence m"
  shows "\<exists>rows. InsertEvents E P eh m t = (None, t\<lparr>events := events t @ rows\<rparr>) \<and>
    events_ok (events t @ rows) \<and> (\<forall>(k, r) \<in> set rows. row_decodes (pk_event P) r) \<and>
    map (decode_row P) rows = concat (map (tx_scanned m) txs)"
proof -
  let ?s = "lcm_LedgerSequence m"
  have "uint ?s < 2 ^ 31" using assms(6) valid_ledger_cursor [of ?s] by (simp add: valid_cursor_def)
  with reads_txs_sorted [OF assms(4,5)] have fits: "ledger_fits m (map Inr txs)"
    by (auto simp: ledger_fits_def)
  have before: "\<forall>(k, r) \<in> set (events t). \<forall>tx \<in> set txs. k < cursor_text (event_cursor m tx 0)"
  proof (intro ballI, clarify)
    fix k r tx
    assume kr: "(k, r) \<in> set (events t)" and tx: "tx \<in> set txs"
    with events_ok_key [OF assms(8) kr] obtain c where c: "valid_cursor c" "k = cursor_text c"
      by blast
    have "c_Ledger c < ?s" using assms(9) kr c by (force simp: event_seqs_def)
    then have "c < event_cursor m tx 0" by (simp add: event_cursor_def cursor_order)
    then show "k < cursor_text (event_cursor m tx 0)"
      using c event_cursor_valid [OF fits, of tx 0] tx by (simp add: cursor_text_less_iff)
  qed
  have "InsertEvents E P eh m t = insert_tx_events E P m (map Inr txs) t"
    using assms(3,4) by (cases "txs = []") (simp_all add: InsertEvents_def reads_txs_def)
  with insert_tx_events_append [OF assms(1,2) fits assms(7) reads_txs_sorted(1) [OF assms(4,5)]
      assms(8) before]
  show ?thesis by simp
qed

text \<open>C11: Inserting the events of a ledger newer than every stored event succeeds, and reading
  the ledger's cursor range back yields exactly the events of its successful transactions, in
  the order of the transactions and, within one, of its events, each with the cursor made of
  the ledger, the transaction and its position; the rows stored before are kept.\<close>

theorem events_round_trip:
  assumes "toid_spec (pk_toid P)" and "strkey_spec (pk_strkey P)" and "no_faults E"
    and "eh_stmtCache eh" and "reads_txs (eh_passphrase eh) m txs" and "length txs < 2 ^ 20"
    and "unat (lcm_LedgerSequence m) + 1 < 2 ^ 31" and "\<forall>tx \<in> set txs. tx_storable P tx"
    and "events_ok (events t)" and "\<forall>(k, r) \<in> set (events t). row_decodes (pk_event P) r"
    and "\<forall>s \<in> event_seqs t. s < lcm_LedgerSequence m"
  shows "\<exists>rows. InsertEvents E P eh m t = (None, t\<lparr>events := events t @ rows\<rparr>) \<and>
    GetEvents E P \<lparr>cr_Start = Cursor (lcm_LedgerSequence m) 0 0 0,
                   cr_End = Cursor (lcm_LedgerSequence m + 1) 0 0 0\<rparr> [] [] [] collect_scan
      (t\<lparr>events := events t @ rows\<rparr>) [] = (None, concat (map (tx_scanned m) txs))"
proof -
  let ?s = "lcm_LedgerSequence m" and ?T = "pk_toid P"
  let ?rng = "\<lparr>cr_Start = Cursor ?s 0 0 0, cr_End = Cursor (?s + 1) 0 0 0\<rparr>"
  have s1: "unat (?s + 1) = unat ?s + 1" using assms(7) by (simp add: unat_Suc_u32)
  have rv: "range_valid ?rng"
    using assms(7) s1 by (simp add: range_valid_def valid_ledger_cursor)
  obtain rows where
    ins: "InsertEvents E P eh m t = (None, t\<lparr>events := events t @ rows\<rparr>)" and
    ok: "events_ok (events t @ rows)" and dec: "\<forall>(k, r) \<in> set rows. row_decodes (pk_event P) r" and
    scanned: "map (decode_row P) rows = concat (map (tx_scanned m) txs)"
    using InsertEvents_appends [OF assms(1,3-9,11)] by blast
  have "c_Ledger c < ?s" if "(cursor_text c, r) \<in> set (events t)" "valid_cursor c" for c r
    using assms(11) that by (force simp: event_seqs_def)
  note old = this
  have "rows_between ?T ?rng (columns_match [] [] []) (events t @ rows) = rows"
  proof -
    have "c_Ledger (cursor_of ?T k) \<noteq> ?s" if kr: "(k, r) \<in> set (events t)" for k r
    proof -
      from events_ok_key [OF assms(9) kr] obtain c where c: "valid_cursor c" "k = cursor_text c"
        by blast
      with old [of c r] kr assms(1) show ?thesis by (simp add: cursor_of_text)
    qed
    moreover have "c_Ledger (cursor_of ?T k) = ?s" if kr: "(k, r) \<in> set rows" for k r
    proof -
      have "decode_row P (k, r) \<in> set (concat (map (tx_scanned m) txs))"
        using kr by (simp only: scanned [symmetric]) force
      then show ?thesis
        by (auto simp: decode_row_def tx_scanned_def event_cursor_def split: if_splits)
    qed
    ultimately show ?thesis using assms(7) by (intro rows_between_ledger) auto
  qed
  moreover have "\<forall>(k, r) \<in> set (events (t\<lparr>events := events t @ rows\<rparr>)). row_decodes (pk_event P) r"
    using assms(10) dec by auto
  note GetEvents_scan [OF assms(1-3) _ this rv, of "[]" "[]" "[]" collect_scan "[]"]
  ultimately show ?thesis
    using ok ins by (intro exI [of _ rows]) (simp add: scan_list_collect scanned)
qed

definition writing_events :: eventHandler where
  "writing_events = \<lparr>eh_stmtCache = True, eh_passphrase = ''test''\<rparr>"

theorem events_round_trip_witness:
  "\<exists>rows. InsertEvents calm_engine example_pkgs writing_events (example_ledger 7 [event_tx])
       example_tables = (None, example_tables\<lparr>events := events example_tables @ rows\<rparr>) \<and>
     GetEvents calm_engine example_pkgs \<lparr>cr_Start = Cursor 7 0 0 0, cr_End = Cursor 8 0 0 0\<rparr>
       [] [] [] collect_scan (example_tables\<lparr>events := events example_tables @ rows\<rparr>) [] =
       (None, [(example_event, Cursor 7 1 0 0, 35, example_hash)])"
proof -
  let ?m = "example_ledger 7 [event_tx]"
  have v: "valid_cursor (Cursor 5 1 0 0)" by (simp add: valid_cursor_def)
  have e: "events_ok (events example_tables)"
    using v by (auto simp: events_ok_def table_ok_def example_tables_def)
  have d: "\<forall>(k, r) \<in> set (events example_tables). row_decodes (pk_event example_pkgs) r"
    by (simp add: example_tables_def row_decodes_def blob_events_def example_row_def example_hash_def)
  have s: "toid_spec (pk_toid example_pkgs)" "strkey_spec (pk_strkey example_pkgs)"
    by (simp_all add: toid_layout_spec plain_strkey_spec)
  have c: "eh_stmtCache writing_events" by (simp add: writing_events_def)
  have l: "length [event_tx] < 2 ^ 20" "unat (lcm_LedgerSequence ?m) + 1 < 2 ^ 31"
    by (simp_all add: example_ledger_def)
  have ev: "tx_diag_events event_tx = [example_event]"
    by (simp add: tx_diag_events_def event_tx_def transactionEventsIntoDiagnosticEvents_def)
  have st: "\<forall>tx \<in> set [event_tx]. tx_storable example_pkgs tx"
    by (simp add: tx_storable_def ev event_storable_def)
      (simp add: event_tx_def example_hash_def blob_events_def example_event_def int_scvals_def)
  have q: "\<forall>s \<in> event_seqs example_tables. s < lcm_LedgerSequence ?m"
    using v by (auto simp: event_seqs_def example_tables_def example_ledger_def cursor_text_eq_iff)
  have "tx_scanned ?m event_tx = [(example_event, Cursor 7 1 0 0, 35, example_hash)]"
    by (simp add: tx_scanned_def ev event_cursor_def)
      (simp add: event_tx_def example_tx_def example_ledger_def)
  with events_round_trip [OF s calm_engine_no_faults c example_reads l st e d q]
  show ?thesis by (simp add: example_ledger_def)
qed

end
