(* ===== verification/TransactionalCache.thy ===== *)
theory TransactionalCache
  imports Prelude
begin

text \<open>
  \<^verbatim>\<open>db/transactionalcache.go\<close>: a string cache with read transactions, which copy the entries,
  and write transactions, which collect updates and apply them on commit. A Go map is a
  partial function; a nil pointer stored in a map is \<open>Some None\<close>, different from a missing
  key. The commit loop ranges over a map, in an order the language leaves open: the order is
  an argument, and the result does not depend on it.
\<close>

record transactionalCache =
  tc_entries :: "string \<rightharpoonup> string"

record transactionalCacheReadTx =
  tr_entries :: "string \<rightharpoonup> string option"

record transactionalCacheWriteTx =
  tw_pendingUpdates :: "string \<rightharpoonup> string option"

definition newTransactionalCache :: transactionalCache where
  "newTransactionalCache = \<lparr>tc_entries = Map.empty\<rparr>"

definition newReadTx :: "transactionalCache \<Rightarrow> transactionalCacheReadTx" where
  "newReadTx c = \<lparr>tr_entries = (\<lambda>k. map_option Some (tc_entries c k))\<rparr>"

definition newWriteTx :: "transactionalCache \<Rightarrow> transactionalCacheWriteTx" where
  "newWriteTx c = \<lparr>tw_pendingUpdates = Map.empty\<rparr>"

text \<open>\<^verbatim>\<open>get\<close> returns the value and whether the key is present.\<close>

definition readTx_get :: "transactionalCacheReadTx \<Rightarrow> string \<Rightarrow> string option \<times> bool" where
  "readTx_get r key = (case tr_entries r key of None \<Rightarrow> (None, False) | Some v \<Rightarrow> (v, True))"

definition readTx_upsert ::
  "transactionalCacheReadTx \<Rightarrow> string \<Rightarrow> string option \<Rightarrow> transactionalCacheReadTx" where
  "readTx_upsert r key v = r\<lparr>tr_entries := (tr_entries r)(key \<mapsto> v)\<rparr>"

definition writeTx_upsert ::
  "transactionalCacheWriteTx \<Rightarrow> string \<Rightarrow> string \<Rightarrow> transactionalCacheWriteTx" where
  "writeTx_upsert w key v = w\<lparr>tw_pendingUpdates := (tw_pendingUpdates w)(key \<mapsto> Some v)\<rparr>"

definition writeTx_delete :: "transactionalCacheWriteTx \<Rightarrow> string \<Rightarrow> transactionalCacheWriteTx" where
  "writeTx_delete w key = w\<lparr>tw_pendingUpdates := (tw_pendingUpdates w)(key \<mapsto> None)\<rparr>"

text \<open>One round of the commit loop, for the key the iteration visits.\<close>

definition commit_key ::
  "transactionalCacheWriteTx \<Rightarrow> string \<Rightarrow> transactionalCache \<Rightarrow> transactionalCache" where
  "commit_key w key c =
     (case tw_pendingUpdates w key of
        None \<Rightarrow> c
      | Some None \<Rightarrow> c\<lparr>tc_entries := (tc_entries c)(key := None)\<rparr>
      | Some (Some v) \<Rightarrow> c\<lparr>tc_entries := (tc_entries c)(key \<mapsto> v)\<rparr>)"

definition writeTx_commit ::
  "string list \<Rightarrow> transactionalCacheWriteTx \<Rightarrow> transactionalCache \<Rightarrow> transactionalCache" where
  "writeTx_commit order w c = fold (commit_key w) order c"

text \<open>The abstract cache: a write transaction is a sequence of updates of the entries.\<close>

datatype cache_op = Upsert string string | Delete string

fun apply_op :: "cache_op \<Rightarrow> (string \<rightharpoonup> string) \<Rightarrow> (string \<rightharpoonup> string)" where
  "apply_op (Upsert k v) m = m(k \<mapsto> v)"
| "apply_op (Delete k) m = m(k := None)"

fun record_op :: "cache_op \<Rightarrow> transactionalCacheWriteTx \<Rightarrow> transactionalCacheWriteTx" where
  "record_op (Upsert k v) w = writeTx_upsert w k v"
| "record_op (Delete k) w = writeTx_delete w k"

lemma commit_key_entries:
  "tc_entries (commit_key w k c) x = (if x = k then
     (case tw_pendingUpdates w k of None \<Rightarrow> tc_entries c x | Some v \<Rightarrow> v) else tc_entries c x)"
  by (auto simp: commit_key_def split: option.splits)

lemma commit_entries:
  "tc_entries (writeTx_commit order w c) x = (if x \<in> set order then
     (case tw_pendingUpdates w x of None \<Rightarrow> tc_entries c x | Some v \<Rightarrow> v) else tc_entries c x)"
  unfolding writeTx_commit_def
  by (induction order arbitrary: c) (auto simp: commit_key_entries split: option.splits)

text \<open>What a pending map makes of the entries.\<close>

definition overlay :: "(string \<rightharpoonup> string option) \<Rightarrow> (string \<rightharpoonup> string) \<Rightarrow> (string \<rightharpoonup> string)" where
  "overlay p m = (\<lambda>k. case p k of None \<Rightarrow> m k | Some v \<Rightarrow> v)"

lemma overlay_record_op:
  "overlay (tw_pendingUpdates (record_op x w)) m = apply_op x (overlay (tw_pendingUpdates w) m)"
  by (cases x) (auto simp: overlay_def writeTx_upsert_def writeTx_delete_def fun_eq_iff)

lemma overlay_fold:
  "overlay (tw_pendingUpdates (fold record_op ops w)) m = fold apply_op ops (overlay (tw_pendingUpdates w) m)"
  by (induction ops arbitrary: w) (simp_all add: overlay_record_op)

text \<open>C23: Committing a write transaction, whatever order the loop visits the pending keys in,
  has the effect of applying its updates to the cache one after the other, the last update of a
  key winning; and a read transaction opened on the result finds exactly those entries.\<close>

theorem cache_commit_sequential:
  assumes "set order = dom (tw_pendingUpdates (fold record_op ops (newWriteTx c)))"
  shows "tc_entries (writeTx_commit order (fold record_op ops (newWriteTx c)) c) =
      fold apply_op ops (tc_entries c) \<and>
    readTx_get (newReadTx (writeTx_commit order (fold record_op ops (newWriteTx c)) c)) k =
      (case fold apply_op ops (tc_entries c) k of None \<Rightarrow> (None, False) | Some v \<Rightarrow> (Some v, True))"
proof -
  let ?w = "fold record_op ops (newWriteTx c)"
  have "tc_entries (writeTx_commit order ?w c) x = overlay (tw_pendingUpdates ?w) (tc_entries c) x" for x
    using assms by (auto simp: commit_entries overlay_def split: option.splits)
  moreover have "overlay (tw_pendingUpdates (newWriteTx c)) (tc_entries c) = tc_entries c"
    by (simp add: overlay_def newWriteTx_def)
  ultimately have "tc_entries (writeTx_commit order ?w c) = fold apply_op ops (tc_entries c)"
    by (simp add: overlay_fold fun_eq_iff)
  then show ?thesis
    by (simp add: readTx_get_def newReadTx_def split: option.splits)
qed

theorem cache_commit_sequential_witness:
  "tc_entries (writeTx_commit [''b'', ''a'']
     (fold record_op [Upsert ''a'' ''1'', Upsert ''b'' ''2'', Delete ''a''] (newWriteTx newTransactionalCache))
     newTransactionalCache) = [''b'' \<mapsto> ''2'']"
proof -
  let ?ops = "[Upsert ''a'' ''1'', Upsert ''b'' ''2'', Delete ''a'']"
  have "set [''b'', ''a''] =
      dom (tw_pendingUpdates (fold record_op ?ops (newWriteTx newTransactionalCache)))"
    by (auto simp: newWriteTx_def writeTx_upsert_def writeTx_delete_def)
  from cache_commit_sequential [OF this]
  have "tc_entries (writeTx_commit [''b'', ''a''] (fold record_op ?ops
      (newWriteTx newTransactionalCache)) newTransactionalCache) =
      fold apply_op ?ops (tc_entries newTransactionalCache)"
    by blast
  then show ?thesis by (simp add: newTransactionalCache_def fun_eq_iff)
qed

end
