(* ===== verification/StoreTx.thy ===== *)
theory StoreTx
  imports StoreProps TransactionalCache
begin

text \<open>
  \<^verbatim>\<open>db/db.go\<close> and the transactional readers of \<^verbatim>\<open>db/ledger.go\<close>: the metadata table, the cache
  of the latest ledger, the write transaction with its commit and rollback, and the ledger
  readers that use the cache. The database is the committed tables beside the cache; a write
  transaction works on its own copy of the tables, which SQLite makes the committed ones in
  one step. The section on interleavings runs one writer against readers, each locked
  section of the code being one step.
\<close>

subsection \<open>State\<close>

record dbCache =
  dc_latestLedgerSeq :: u32
  dc_latestLedgerCloseTime :: i64
  dc_ledgerEntries :: transactionalCache

record 'v DB =
  db_tables :: "'v tables"
  db_cache :: dbCache

record readWriter =
  rw_historyRetentionWindow :: u32
  rw_passphrase :: string

text \<open>An open write transaction; \<open>None\<close> after commit or rollback.\<close>

record 'v writeTx =
  w_tables :: "'v tables option"
  w_historyRetentionWindow :: u32
  w_txWriter :: transactionHandler
  w_eventWriter :: eventHandler

record 'v ledgerReaderTx =
  r_tables :: "'v tables"
  r_latestLedgerSeq :: u32
  r_latestLedgerCloseTime :: i64

text \<open>\<^verbatim>\<open>OpenSQLiteDB\<close>: the tables of the file and an empty cache; the SQL migrations of
  \<^verbatim>\<open>openSQLiteDB\<close> have set up the schema.\<close>

definition OpenSQLiteDB :: "'v tables \<Rightarrow> 'v DB" where
  "OpenSQLiteDB file =
     \<lparr>db_tables = file,
      db_cache = \<lparr>dc_latestLedgerSeq = 0, dc_latestLedgerCloseTime = 0,
                  dc_ledgerEntries = newTransactionalCache\<rparr>\<rparr>"

subsection \<open>Metadata\<close>

definition getMetaValue :: "engine \<Rightarrow> string \<Rightarrow> 'v tables \<Rightarrow> string res" where
  "getMetaValue E key t =
     bind_res (exec_stmt E (SelectMeta key)
         (Inr (map snd (select_rows (\<lambda>k r. k = key) (metadata t)))))
       (\<lambda>results. case results of
          [] \<Rightarrow> Inl ErrEmptyDB
        | [v] \<Rightarrow> Inr v
        | _ \<Rightarrow> Inl (Err (''multiple entries ('' @ show_nat (length results) @ '') for key '' @ key @
                   '' in table metadata'')))"

text \<open>\<^verbatim>\<open>strconv.ParseBool\<close>\<close>

definition ParseBool :: "string \<Rightarrow> bool res" where
  "ParseBool s =
     (if s \<in> {''1'', ''t'', ''T'', ''true'', ''TRUE'', ''True''} then Inr True
      else if s \<in> {''0'', ''f'', ''F'', ''false'', ''FALSE'', ''False''} then Inr False
      else Inl (Err ''invalid syntax''))"

definition FormatBool :: "bool \<Rightarrow> string" where
  "FormatBool b = (if b then ''true'' else ''false'')"

definition getMetaBool :: "engine \<Rightarrow> string \<Rightarrow> 'v tables \<Rightarrow> bool res" where
  "getMetaBool E key t = bind_res (getMetaValue E key t) ParseBool"

definition setMetaBool ::
  "engine \<Rightarrow> string \<Rightarrow> bool \<Rightarrow> 'v tables \<Rightarrow> go_error option \<times> 'v tables" where
  "setMetaBool E key value t =
     exec_write E (ReplaceMeta key)
       (\<lambda>t. Inr (t\<lparr>metadata := put_row key (FormatBool value) (metadata t)\<rparr>)) t"

subsection \<open>Readers\<close>

definition NewLedgerReaderTx :: "engine \<Rightarrow> 'v DB \<Rightarrow> ('v ledgerReaderTx) res" where
  "NewLedgerReaderTx E db =
     (case eng_fault E BeginTx of
        Some err \<Rightarrow> Inl (wrap_err ''failed to begin read transaction: '' err)
      | None \<Rightarrow> Inr \<lparr>r_tables = db_tables db,
                     r_latestLedgerSeq = dc_latestLedgerSeq (db_cache db),
                     r_latestLedgerCloseTime = dc_latestLedgerCloseTime (db_cache db)\<rparr>)"

definition readerTx_GetLedgerRange :: "engine \<Rightarrow> 'v ledgerReaderTx \<Rightarrow> LedgerRange res" where
  "readerTx_GetLedgerRange E l =
     (if r_latestLedgerSeq l \<noteq> 0
      then getLedgerRangeWithCache E (r_latestLedgerSeq l) (r_latestLedgerCloseTime l) (r_tables l)
      else getLedgerRangeWithoutCache E (r_tables l))"

definition readerTx_GetLedger ::
  "engine \<Rightarrow> 'v ledgerReaderTx \<Rightarrow> u32 \<Rightarrow> ('v LedgerCloseMeta option) res" where
  "readerTx_GetLedger E l sequence = getLedgerFromDB E sequence (r_tables l)"

definition readerTx_BatchGetLedgers ::
  "engine \<Rightarrow> 'v ledgerReaderTx \<Rightarrow> u32 \<Rightarrow> u32 \<Rightarrow> ('v LedgerCloseMeta list) res" where
  "readerTx_BatchGetLedgers E l start end = BatchGetLedgers E start end (r_tables l)"

definition reader_GetLedger ::
  "engine \<Rightarrow> 'v DB \<Rightarrow> u32 \<Rightarrow> ('v LedgerCloseMeta option) res" where
  "reader_GetLedger E db sequence = getLedgerFromDB E sequence (db_tables db)"

definition reader_GetLedgerRange :: "engine \<Rightarrow> 'v DB \<Rightarrow> LedgerRange res" where
  "reader_GetLedgerRange E db =
     (if dc_latestLedgerSeq (db_cache db) \<noteq> 0
      then getLedgerRangeWithCache E (dc_latestLedgerSeq (db_cache db))
             (dc_latestLedgerCloseTime (db_cache db)) (db_tables db)
      else getLedgerRangeWithoutCache E (db_tables db))"

text \<open>
  \<^verbatim>\<open>getLatestLedgerSequence\<close> reads the cache, then the tables, then fills the cache if it is
  still empty. The last part is a step of its own, since other goroutines may run before it.
\<close>

definition fill_cache :: "LedgerRange \<Rightarrow> 'v DB \<Rightarrow> 'v DB" where
  "fill_cache ledgerRange db =
     (if dc_latestLedgerSeq (db_cache db) = 0
      then db\<lparr>db_cache := (db_cache db)\<lparr>
             dc_latestLedgerSeq := li_Sequence (lr_LastLedger ledgerRange),
             dc_latestLedgerCloseTime := li_CloseTime (lr_LastLedger ledgerRange)\<rparr>\<rparr>
      else db)"

definition getLatestLedgerSequence :: "engine \<Rightarrow> 'v DB \<Rightarrow> u32 res \<times> 'v DB" where
  "getLatestLedgerSequence E db =
     (if dc_latestLedgerSeq (db_cache db) \<noteq> 0 then (Inr (dc_latestLedgerSeq (db_cache db)), db)
      else case reader_GetLedgerRange E db of
          Inl err \<Rightarrow> (Inl err, db)
        | Inr ledgerRange \<Rightarrow>
            (Inr (li_Sequence (lr_LastLedger ledgerRange)), fill_cache ledgerRange db))"

subsection \<open>Write transactions\<close>

definition NewTx :: "engine \<Rightarrow> readWriter \<Rightarrow> 'v DB \<Rightarrow> ('v writeTx) res" where
  "NewTx E rw db =
     (case eng_fault E BeginTx of
        Some err \<Rightarrow> Inl err
      | None \<Rightarrow> Inr \<lparr>w_tables = Some (db_tables db),
           w_historyRetentionWindow = rw_historyRetentionWindow rw,
           w_txWriter = \<lparr>th_stmtCache = True, th_passphrase = rw_passphrase rw\<rparr>,
           w_eventWriter = \<lparr>eh_stmtCache = True, eh_passphrase = rw_passphrase rw\<rparr>\<rparr>)"

text \<open>A statement on the open transaction; on a closed one the driver reports an error.\<close>

definition in_tx ::
  "('v tables \<Rightarrow> go_error option \<times> 'v tables) \<Rightarrow> 'v writeTx \<Rightarrow> go_error option \<times> 'v writeTx" where
  "in_tx f w =
     (case w_tables w of
        None \<Rightarrow> (Some (Err ''sql: transaction has already been committed or rolled back''), w)
      | Some t \<Rightarrow> (case f t of (e, t') \<Rightarrow> (e, w\<lparr>w_tables := Some t'\<rparr>)))"

definition trims ::
  "engine \<Rightarrow> toid_pkg \<Rightarrow> u32 \<Rightarrow> u32 \<Rightarrow> 'v tables \<Rightarrow> go_error option \<times> 'v tables" where
  "trims E T ledgerSeq retention t =
     (case trimLedgers E ledgerSeq retention t of
        (Some err, t1) \<Rightarrow> (Some err, t1)
      | (None, t1) \<Rightarrow>
          (case trimTransactions E ledgerSeq retention t1 of
             (Some err, t2) \<Rightarrow> (Some err, t2)
           | (None, t2) \<Rightarrow> trimEvents E T ledgerSeq retention t2))"

definition Commit ::
  "engine \<Rightarrow> toid_pkg \<Rightarrow> 'v LedgerCloseMeta \<Rightarrow> 'v writeTx \<Rightarrow> 'v DB \<Rightarrow>
   go_error option \<times> 'v writeTx \<times> 'v DB" where
  "Commit E T meta w db =
     (let ledgerSeq = lcm_LedgerSequence meta;
          ledgerCloseTime = lcm_LedgerCloseTime meta in
      case in_tx (trims E T ledgerSeq (w_historyRetentionWindow w)) w of
        (Some err, w1) \<Rightarrow> (Some err, w1, db)
      | (None, w1) \<Rightarrow>
          (case eng_fault E CommitTx of
             Some err \<Rightarrow> (Some err, w1\<lparr>w_tables := None\<rparr>, db)
           | None \<Rightarrow>
               (let db1 = db\<lparr>db_tables := the (w_tables w1),
                   db_cache := (db_cache db)\<lparr>dc_latestLedgerSeq := ledgerSeq,
                                              dc_latestLedgerCloseTime := ledgerCloseTime\<rparr>\<rparr>
                in (eng_fault E Checkpoint, w1\<lparr>w_tables := None\<rparr>, db1))))"

definition not_in_transaction :: go_error where
  "not_in_transaction = Err ''not in transaction''"

definition Rollback :: "engine \<Rightarrow> 'v writeTx \<Rightarrow> go_error option \<times> 'v writeTx" where
  "Rollback E w =
     (let err = (case w_tables w of None \<Rightarrow> Some not_in_transaction
                 | Some _ \<Rightarrow> eng_fault E RollbackTx)
      in (if err = None \<or> err = Some not_in_transaction then None else err,
          w\<lparr>w_tables := None\<rparr>))"

subsection \<open>The cache agrees with the tables\<close>

text \<open>The cached latest ledger, when there is one, is the newest row.\<close>

definition coherent :: "'v tables \<Rightarrow> u32 \<Rightarrow> i64 \<Rightarrow> bool" where
  "coherent t sequence closeTime \<longleftrightarrow> (sequence \<noteq> 0 \<longrightarrow>
     ledger_close_meta t \<noteq> [] \<and>
     ledger_info (snd (last (ledger_close_meta t))) =
       \<lparr>li_Sequence = sequence, li_CloseTime = closeTime\<rparr>)"

definition db_ok :: "'v DB \<Rightarrow> bool" where
  "db_ok db \<longleftrightarrow> ledgers_ok (ledger_close_meta (db_tables db)) \<and>
     coherent (db_tables db) (dc_latestLedgerSeq (db_cache db)) (dc_latestLedgerCloseTime (db_cache db))"

definition reader_ok :: "'v ledgerReaderTx \<Rightarrow> bool" where
  "reader_ok r \<longleftrightarrow> ledgers_ok (ledger_close_meta (r_tables r)) \<and>
     coherent (r_tables r) (r_latestLedgerSeq r) (r_latestLedgerCloseTime r)"

lemma coherent_range:
  assumes "ledgers_ok (ledger_close_meta t)" and "coherent t s c" and "s \<noteq> 0" and "no_faults E"
  shows "getLedgerRangeWithCache E s c t = getLedgerRangeWithoutCache E t"
proof -
  have "table_ok (ledger_close_meta t)" and "ledger_close_meta t \<noteq> []"
    using assms(1-3) by (simp_all add: ledgers_ok_def coherent_def)
  then show ?thesis
    using assms(2-4) range_with_cache [of t E s c] range_without_cache [of t E]
    by (simp add: no_faults_def coherent_def)
qed

lemma reader_range:
  assumes "reader_ok r" and "no_faults E"
  shows "readerTx_GetLedgerRange E r = getLedgerRangeWithoutCache E (r_tables r)"
  using assms coherent_range [of "r_tables r"] by (simp add: readerTx_GetLedgerRange_def reader_ok_def)

lemma OpenSQLiteDB_ok: "ledgers_ok (ledger_close_meta file) \<Longrightarrow> db_ok (OpenSQLiteDB file)"
  by (simp add: db_ok_def OpenSQLiteDB_def coherent_def)

lemma NewLedgerReaderTx_ok: "db_ok db \<Longrightarrow> NewLedgerReaderTx E db = Inr r \<Longrightarrow> reader_ok r"
  by (auto simp: NewLedgerReaderTx_def reader_ok_def db_ok_def split: option.splits)

text \<open>A range read from the tables, whether or not the cache was used.\<close>

lemma range_last:
  assumes "ledgers_ok (ledger_close_meta t)" and "getLedgerRangeWithoutCache E t = Inr rng"
  shows "ledger_close_meta t \<noteq> [] \<and> lr_LastLedger rng = ledger_info (snd (last (ledger_close_meta t)))"
proof -
  have nf: "eng_fault E SelectLedgerBounds = None"
    using assms(2) by (auto simp: getLedgerRangeWithoutCache_def exec_stmt_def Let_def
        split: option.splits)
  then have ne: "ledger_close_meta t \<noteq> []"
    using assms(2) range_empty(2) [of t E] by auto
  with assms nf range_without_cache [of t E] show ?thesis
    by (auto simp: ledgers_ok_def)
qed

lemma fill_cache_ok:
  assumes "db_ok db"
    and "dc_latestLedgerSeq (db_cache db) = 0 \<longrightarrow> ledger_close_meta (db_tables db) \<noteq> [] \<and>
      lr_LastLedger rng = ledger_info (snd (last (ledger_close_meta (db_tables db))))"
  shows "db_ok (fill_cache rng db)"
  using assms by (auto simp: fill_cache_def db_ok_def coherent_def)

subsection \<open>What the writes leave alone\<close>

lemma exec_write_other:
  assumes "exec_write E s f t = (e, t')" and "\<And>t1. f t = Inr t1 \<Longrightarrow> g t1 = g t"
  shows "g t' = g t"
  using assms by (elim exec_write_cases) auto

lemma InsertTransactions_ledgers:
  "InsertTransactions E h m t = (e, t') \<Longrightarrow> ledger_close_meta t' = ledger_close_meta t"
  by (auto simp: InsertTransactions_def Let_def bind_res_Inr_iff split: if_splits sum.splits
      dest!: exec_write_other [where g = ledger_close_meta])

lemma InsertTransactions_metadata:
  "InsertTransactions E h m t = (e, t') \<Longrightarrow> metadata t' = metadata t"
  by (auto simp: InsertTransactions_def Let_def bind_res_Inr_iff split: if_splits sum.splits
      dest!: exec_write_other [where g = metadata])

lemma insert_tx_events_ledgers:
  "insert_tx_events E P m reads t = (e, t') \<Longrightarrow>
    ledger_close_meta t' = ledger_close_meta t \<and> transactions t' = transactions t \<and>
    metadata t' = metadata t"
proof (induction reads arbitrary: t)
  case (Cons r reads)
  show ?case
  proof (cases r)
    case (Inl err)
    with Cons.prems show ?thesis by simp
  next
    case (Inr tx)
    show ?thesis
    proof (cases rule: insert_tx_events_Inr [of E P m tx reads t])
      case skip
      with Cons Inr show ?thesis by simp
    next
      case error
      with Cons.prems Inr show ?thesis by simp
    next
      case (rows es rows)
      let ?f = "\<lambda>t. bind_res (insert_rows rows (events t)) (\<lambda>tbl. Inr (t\<lparr>events := tbl\<rparr>))"
      let ?s = "InsertEventRows (lcm_LedgerSequence m) (tx_Index tx)"
      obtain e1 t1 where ex: "exec_write E ?s ?f t = (e1, t1)" by fastforce
      have keep: "ledger_close_meta t1 = ledger_close_meta t" "transactions t1 = transactions t"
        "metadata t1 = metadata t"
        by (rule exec_write_other [OF ex], auto simp: bind_res_Inr_iff)+
      show ?thesis
        using rows(2) ex keep Cons.prems Cons.IH [of t1] Inr by (cases e1) simp_all
    qed
  qed
qed simp

lemma InsertEvents_ledgers:
  "InsertEvents E P h m t = (e, t') \<Longrightarrow> ledger_close_meta t' = ledger_close_meta t"
  by (auto simp: InsertEvents_def split: if_splits sum.splits dest: insert_tx_events_ledgers)

lemma InsertEvents_metadata:
  "InsertEvents E P h m t = (e, t') \<Longrightarrow> metadata t' = metadata t"
  by (auto simp: InsertEvents_def split: if_splits sum.splits dest: insert_tx_events_ledgers)

lemma trims_ledgers:
  assumes "trims E T l w t = (None, t')"
  shows "\<exists>t1. trimLedgers E l w t = (None, t1) \<and> ledger_close_meta t' = ledger_close_meta t1"
proof -
  obtain e1 t1 where t1: "trimLedgers E l w t = (e1, t1)" by fastforce
  with assms have e1: "e1 = None" by (cases e1) (simp_all add: trims_def)
  obtain e2 t2 where t2: "trimTransactions E l w t1 = (e2, t2)" by fastforce
  with assms t1 e1 have e2: "e2 = None" by (cases e2) (simp_all add: trims_def)
  have t3: "trimEvents E T l w t2 = (None, t')"
    using assms t1 e1 t2 e2 by (simp add: trims_def)
  have "ledger_close_meta t2 = ledger_close_meta t1"
    using t2 by (auto elim: trimTransactions_cases)
  moreover have "ledger_close_meta t' = ledger_close_meta t2"
    using t3 by (auto elim: trimEvents_cases)
  ultimately show ?thesis using t1 e1 by simp
qed

lemma trimLedgers_keeps_last:
  assumes "trimLedgers E l w t = (None, t')" and "unat l + 1 < 2 ^ 31" and "w > 0"
    and "ledger_close_meta t \<noteq> []" and "fst (last (ledger_close_meta t)) = l"
  shows "ledger_close_meta t' \<noteq> [] \<and> last (ledger_close_meta t') = last (ledger_close_meta t)"
  using assms(1)
proof (cases rule: trimLedgers_cases)
  case cut
  have "in_window l w l" using assms(3) by (simp add: in_window_def unat_gt_0 Suc_le_eq)
  then have "\<not> l < l + 1 - w" using cutoff_iff(1) [of l w l] assms(2) cut(2) by simp
  with last_delete_rows [OF assms(4), of "\<lambda>k r. k < l + 1 - w"] assms(5) cut(3) show ?thesis
    by simp
qed (use assms in auto)

subsection \<open>Commit\<close>

text \<open>Either the database is untouched, or it holds the trimmed tables of the transaction and
  the cache names the committed ledger.\<close>

definition committed ::
  "toid_pkg \<Rightarrow> 'v LedgerCloseMeta \<Rightarrow> 'v writeTx \<Rightarrow> 'v DB \<Rightarrow> 'v DB \<Rightarrow> bool" where
  "committed T meta w db db' \<longleftrightarrow>
     (\<exists>E t t'. w_tables w = Some t \<and>
        trims E T (lcm_LedgerSequence meta) (w_historyRetentionWindow w) t = (None, t') \<and>
        db' = db\<lparr>db_tables := t', db_cache := (db_cache db)\<lparr>
          dc_latestLedgerSeq := lcm_LedgerSequence meta,
          dc_latestLedgerCloseTime := lcm_LedgerCloseTime meta\<rparr>\<rparr>)"

lemma Commit_cases:
  assumes "Commit E T meta w db = (e, w', db')"
  obtains (aborted) err where "e = Some err" "db' = db"
        | (written) "committed T meta w db db'" "w_tables w' = None" "e = eng_fault E Checkpoint"
            "eng_fault E CommitTx = None"
proof (cases "w_tables w")
  case None
  with assms aborted show ?thesis by (auto simp: Commit_def in_tx_def Let_def)
next
  case (Some t)
  obtain e1 t1 where tr: "trims E T (lcm_LedgerSequence meta) (w_historyRetentionWindow w) t = (e1, t1)"
    by fastforce
  show ?thesis
  proof (cases "e1 = None \<and> eng_fault E CommitTx = None")
    case True
    with Some tr assms have "committed T meta w db db'" "w_tables w' = None" "e = eng_fault E Checkpoint"
      by (auto simp: Commit_def in_tx_def Let_def committed_def)
    with True written show ?thesis by blast
  next
    case False
    have "e \<noteq> None \<and> db' = db"
    proof (cases e1)
      case None
      with False obtain err where err: "eng_fault E CommitTx = Some err" by auto
      show ?thesis
        using assms Some tr None by (auto simp: Commit_def in_tx_def Let_def err)
    next
      case (Some err)
      with \<open>w_tables w = Some t\<close> tr assms show ?thesis by (auto simp: Commit_def in_tx_def Let_def)
    qed
    with aborted show ?thesis by blast
  qed
qed

lemma committed_db_ok:
  assumes "committed T meta w db db'" and "w_tables w = Some t"
    and "ledgers_ok (ledger_close_meta t)" and "unat (lcm_LedgerSequence meta) + 1 < 2 ^ 31"
    and "w_historyRetentionWindow w > 0" and "ledger_close_meta t \<noteq> []"
    and "snd (last (ledger_close_meta t)) = meta"
  shows "db_ok db'"
proof -
  from assms(1,2) obtain E t' where
    tr: "trims E T (lcm_LedgerSequence meta) (w_historyRetentionWindow w) t = (None, t')" and
    db': "db' = db\<lparr>db_tables := t', db_cache := (db_cache db)\<lparr>
          dc_latestLedgerSeq := lcm_LedgerSequence meta,
          dc_latestLedgerCloseTime := lcm_LedgerCloseTime meta\<rparr>\<rparr>"
    by (auto simp: committed_def)
  from trims_ledgers [OF tr] obtain t1 where
    t1: "trimLedgers E (lcm_LedgerSequence meta) (w_historyRetentionWindow w) t = (None, t1)"
      "ledger_close_meta t' = ledger_close_meta t1" by blast
  have "fst (last (ledger_close_meta t)) = lcm_LedgerSequence meta"
    using ledgers_ok_last [OF assms(3,6)] assms(7) by simp
  from trimLedgers_keeps_last [OF t1(1) assms(4,5,6) this] have
    "ledger_close_meta t1 \<noteq> []" "snd (last (ledger_close_meta t1)) = meta"
    using assms(7) by auto
  moreover have "ledgers_ok (ledger_close_meta t1)"
    using ledger_ret.trim_inv [OF assms(3)] t1(1) by (metis snd_conv)
  ultimately show ?thesis
    by (simp add: db' db_ok_def coherent_def t1(2) ledger_info_def)
qed

subsection \<open>Retention across the three tables\<close>

lemma trims_exact:
  assumes "trims E T l w t = (None, t')" and "toid_spec T" and "store_ok t"
    and "unat l + 1 < 2 ^ 31"
  shows "ledger_seqs t' = {s \<in> ledger_seqs t. in_window l w s}"
    and "tx_seqs t' = {s \<in> tx_seqs t. in_window l w s}"
    and "event_seqs t' = {s \<in> event_seqs t. in_window l w s}"
    and "store_ok t'"
proof -
  obtain e1 t1 where t1: "trimLedgers E l w t = (e1, t1)" by fastforce
  with assms(1) have e1: "e1 = None" by (cases e1) (simp_all add: trims_def)
  obtain e2 t2 where t2: "trimTransactions E l w t1 = (e2, t2)" by fastforce
  with assms(1) t1 e1 have e2: "e2 = None" by (cases e2) (simp_all add: trims_def)
  have t3: "trimEvents E T l w t2 = (None, t')"
    using assms(1) t1 e1 t2 e2 by (simp add: trims_def)
  have k1: "transactions t1 = transactions t" "events t1 = events t" "metadata t1 = metadata t"
    using t1 by (auto elim: trimLedgers_cases)
  have k2: "ledger_close_meta t2 = ledger_close_meta t1" "events t2 = events t1"
    "metadata t2 = metadata t1"
    using t2 by (auto elim: trimTransactions_cases)
  have k3: "ledger_close_meta t' = ledger_close_meta t2" "transactions t' = transactions t2"
    "metadata t' = metadata t2"
    using t3 by (auto elim: trimEvents_cases)
  note ok = assms(3) [unfolded store_ok_def]
  have i2: "table_ok (transactions t1)" and i3: "toid_spec T \<and> events_ok (events t2)"
    using ok k1 k2 assms(2) by simp_all
  show "ledger_seqs t' = {s \<in> ledger_seqs t. in_window l w s}"
    using ledger_ret.trim_exact [of t l E w t1] ok assms(4) t1 e1 k2 k3 by (simp add: ledger_seqs_def)
  show "tx_seqs t' = {s \<in> tx_seqs t. in_window l w s}"
    using tx_ret.trim_exact [OF i2 assms(4), of E w t2] t2 e2 k1 k3 by (simp add: tx_seqs_def)
  show "event_seqs t' = {s \<in> event_seqs t. in_window l w s}"
    using event_ret.trim_exact [OF i3 assms(4) t3] k1 k2 by (simp add: event_seqs_def)
  have "ledgers_ok (ledger_close_meta t1)"
    using ledger_ret.trim_inv [of t E l w] ok t1 by simp
  moreover have "table_ok (transactions t2)"
    using tx_ret.trim_inv [OF i2, of E l w] t2 by simp
  moreover have "events_ok (events t')"
    using event_ret.trim_inv [OF i3, of E l w] t3 by simp
  ultimately show "store_ok t'"
    using ok k1 k2 k3 by (simp add: store_ok_def)
qed

lemma window_card:
  assumes "S = {s \<in> S0. in_window l w s}" and "\<forall>s \<in> S0. s \<le> l"
  shows "card S \<le> unat w"
proof -
  have "unat ` S \<subseteq> {unat l + 1 - unat w ..< unat l + 1}"
    using assms by (auto simp: in_window_def word_le_nat_alt)
  then have "card (unat ` S) \<le> unat l + 1 - (unat l + 1 - unat w)"
    by (metis card_atLeastLessThan card_mono finite_atLeastLessThan)
  then have "card (unat ` S) \<le> unat w" by simp
  then show ?thesis by (metis card_image inj_on_subset inj_unsigned subset_UNIV)
qed

text \<open>C5: Committing a ledger is all or nothing. An error before the point of commit leaves the
  database, cache included, exactly as it was; otherwise the transaction's tables become the
  committed ones, cut in step to the retention window that ends at the ledger, nothing inside
  the window being lost, each table spanning at most that many ledgers, and the cache names the
  ledger. Only a failed checkpoint is reported after the commit took effect.\<close>

theorem Commit_atomic_retention:
  assumes "Commit E T meta w db = (e, w', db')" and "w_tables w = Some t"
    and "toid_spec T" and "store_ok t" and "unat (lcm_LedgerSequence meta) + 1 < 2 ^ 31"
    and "\<forall>s \<in> ledger_seqs t \<union> tx_seqs t \<union> event_seqs t. s \<le> lcm_LedgerSequence meta"
  shows "e \<noteq> None \<and> db' = db \<or>
    (e = eng_fault E Checkpoint \<and> w_tables w' = None \<and> store_ok (db_tables db') \<and>
     dc_latestLedgerSeq (db_cache db') = lcm_LedgerSequence meta \<and>
     dc_latestLedgerCloseTime (db_cache db') = lcm_LedgerCloseTime meta \<and>
     (\<forall>seqs \<in> {ledger_seqs, tx_seqs, event_seqs}.
        seqs (db_tables db') =
          {s \<in> seqs t. in_window (lcm_LedgerSequence meta) (w_historyRetentionWindow w) s} \<and>
        card (seqs (db_tables db')) \<le> unat (w_historyRetentionWindow w)))"
  using assms(1)
proof (cases rule: Commit_cases)
  case written
  let ?l = "lcm_LedgerSequence meta" and ?w = "w_historyRetentionWindow w"
  from written(1) assms(2) obtain E' t' where
    tr: "trims E' T ?l ?w t = (None, t')" and tables: "db_tables db' = t'" and
    cache: "dc_latestLedgerSeq (db_cache db') = ?l"
      "dc_latestLedgerCloseTime (db_cache db') = lcm_LedgerCloseTime meta"
    by (auto simp: committed_def)
  note ex = trims_exact [OF tr assms(3-5)]
  have "card (ledger_seqs t') \<le> unat ?w" "card (tx_seqs t') \<le> unat ?w" "card (event_seqs t') \<le> unat ?w"
    using window_card [OF ex(1)] window_card [OF ex(2)] window_card [OF ex(3)] assms(6) by auto
  with ex written(2,3) cache tables show ?thesis by simp
qed simp

text \<open>Without faults a commit goes through.\<close>

lemma Commit_succeeds:
  assumes "no_faults E" and "toid_spec T" and "w_tables w = Some t"
    and "unat (lcm_LedgerSequence meta) + 1 < 2 ^ 31"
  shows "\<exists>w' db'. Commit E T meta w db = (None, w', db')"
proof -
  let ?l = "lcm_LedgerSequence meta" and ?w = "w_historyRetentionWindow w"
  have nf: "eng_fault E s = None" for s using assms(1) by (simp add: no_faults_def)
  have "\<exists>t1. trimLedgers E ?l ?w t = (None, t1)" for t :: "'a tables"
    by (simp add: trimLedgers_def Let_def exec_write_no_fault nf)
  then obtain t1 where t1: "trimLedgers E ?l ?w t = (None, t1)" by blast
  have "\<exists>t2. trimTransactions E ?l ?w t = (None, t2)" for t :: "'a tables"
    by (simp add: trimTransactions_def Let_def exec_write_no_fault nf)
  then obtain t2 where t2: "trimTransactions E ?l ?w t1 = (None, t2)" by blast
  have "\<exists>t3. trimEvents E T ?l ?w t2 = (None, t3)"
  proof (cases "?l + 1 \<le> ?w")
    case False
    have "valid_cursor (Cursor (?l + 1 - ?w) 0 0 0)"
      using cutoff_iff(2) [of ?l ?w] False assms(4) by (intro valid_ledger_cursor) simp
    with assms(2) False show ?thesis
      by (simp add: trimEvents_def Let_def exec_write_no_fault nf Cursor_String_valid)
  qed (simp add: trimEvents_def)
  with t1 t2 obtain t3 where "trims E T ?l ?w t = (None, t3)" by (auto simp: trims_def)
  with assms(3) nf show ?thesis by (simp add: Commit_def in_tx_def Let_def)
qed

definition example_rw :: readWriter where
  "example_rw = \<lparr>rw_historyRetentionWindow = 2, rw_passphrase = ''test''\<rparr>"

definition three_ledgers :: "int tables" where
  "three_ledgers = empty_tables\<lparr>ledger_close_meta :=
     [(5, example_ledger 5 []), (6, example_ledger 6 []), (7, example_ledger 7 [])]\<rparr>"

definition example_wtx :: "int writeTx" where
  "example_wtx = \<lparr>w_tables = Some three_ledgers, w_historyRetentionWindow = 2,
     w_txWriter = writing_txs, w_eventWriter = writing_events\<rparr>"

lemma three_ledgers_ok: "store_ok three_ledgers"
  by (simp add: store_ok_def three_ledgers_def empty_tables_def ledgers_ok_def events_ok_def
      table_ok_def example_ledger_def)

theorem Commit_atomic_retention_witness:
  "\<exists>w' db'. Commit calm_engine toid_layout (example_ledger 7 []) example_wtx
       (OpenSQLiteDB empty_tables) = (None, w', db') \<and>
     ledger_seqs (db_tables db') = {6, 7} \<and> dc_latestLedgerSeq (db_cache db') = 7"
proof -
  have t: "w_tables example_wtx = Some three_ledgers" by (simp add: example_wtx_def)
  have b: "unat (lcm_LedgerSequence (example_ledger 7 [] :: int LedgerCloseMeta)) + 1 < 2 ^ 31"
    by (simp add: example_ledger_def)
  from Commit_succeeds [OF calm_engine_no_faults toid_layout_spec t b] obtain w' db' where
    c: "Commit calm_engine toid_layout (example_ledger 7 []) example_wtx
      (OpenSQLiteDB empty_tables) = (None, w', db')" by blast
  have seqs: "ledger_seqs three_ledgers = {5, 6, 7}" "tx_seqs three_ledgers = {}"
    "event_seqs three_ledgers = {}"
    by (simp_all add: ledger_seqs_def tx_seqs_def event_seqs_def three_ledgers_def empty_tables_def)
  have l: "lcm_LedgerSequence (example_ledger 7 [] :: int LedgerCloseMeta) = 7"
    by (simp add: example_ledger_def)
  have le: "\<forall>s \<in> ledger_seqs three_ledgers \<union> tx_seqs three_ledgers \<union> event_seqs three_ledgers.
      s \<le> lcm_LedgerSequence (example_ledger 7 [] :: int LedgerCloseMeta)"
    by (simp add: seqs l)
  from Commit_atomic_retention [OF c t toid_layout_spec three_ledgers_ok b le]
  have "dc_latestLedgerSeq (db_cache db') = 7 \<and>
      ledger_seqs (db_tables db') = {s \<in> {5, 6, 7}. in_window 7 2 s}"
    by (simp add: l seqs example_wtx_def)
  moreover have "\<not> in_window 7 2 5" "in_window 7 2 6" "in_window 7 2 7"
    by (simp_all add: in_window_def)
  then have "{s \<in> {5, 6, 7}. in_window 7 2 s} = {6, 7}" by blast
  ultimately have "ledger_seqs (db_tables db') = {6, 7}" "dc_latestLedgerSeq (db_cache db') = 7"
    by simp_all
  with c show ?thesis by blast
qed

subsection \<open>Interleavings of one writer with readers\<close>

text \<open>
  Each step runs one operation of one goroutine; a section of the code that holds the cache
  lock is one step. Every step meets an engine of its own, so a statement may fail once and
  succeed later. The writer inserts one ledger, newer than all before, per transaction, as the
  ingestion service does; a reader holds a read transaction; another caller is somewhere
  inside \<^verbatim>\<open>getLatestLedgerSequence\<close>, between its query and its update of the cache.
\<close>

record 'v sys =
  y_db :: "'v DB"
  y_writer :: "'v writeTx option"
  y_ledger :: "'v LedgerCloseMeta option"
  y_reader :: "'v ledgerReaderTx option"
  y_queried :: "LedgerRange option"

definition initial_sys :: "'v tables \<Rightarrow> 'v sys" where
  "initial_sys file = \<lparr>y_db = OpenSQLiteDB file, y_writer = None, y_ledger = None,
     y_reader = None, y_queried = None\<rparr>"

inductive db_step :: "'v pkgs \<Rightarrow> readWriter \<Rightarrow> 'v sys \<Rightarrow> 'v sys \<Rightarrow> bool"
  for P :: "'v pkgs" and rw :: readWriter where
  begin_write: "y_writer s = None \<Longrightarrow> NewTx E rw (y_db s) = Inr w \<Longrightarrow>
    db_step P rw s (s\<lparr>y_writer := Some w, y_ledger := None\<rparr>)"
| insert_ledger: "y_writer s = Some w \<Longrightarrow> w_tables w = Some t \<Longrightarrow> y_ledger s = None \<Longrightarrow>
    \<forall>k \<in> ledger_seqs t. k < lcm_LedgerSequence m \<Longrightarrow> 0 < lcm_LedgerSequence m \<Longrightarrow>
    unat (lcm_LedgerSequence m) + 1 < 2 ^ 31 \<Longrightarrow>
    in_tx (InsertLedger E m) w = (None, w') \<Longrightarrow>
    db_step P rw s (s\<lparr>y_writer := Some w', y_ledger := Some m\<rparr>)"
| insert_txs: "y_writer s = Some w \<Longrightarrow> y_ledger s = Some m \<Longrightarrow>
    in_tx (InsertTransactions E (w_txWriter w) m) w = (e, w') \<Longrightarrow>
    db_step P rw s (s\<lparr>y_writer := Some w'\<rparr>)"
| insert_events: "y_writer s = Some w \<Longrightarrow> y_ledger s = Some m \<Longrightarrow>
    in_tx (InsertEvents E P (w_eventWriter w) m) w = (e, w') \<Longrightarrow>
    db_step P rw s (s\<lparr>y_writer := Some w'\<rparr>)"
| commit: "y_writer s = Some w \<Longrightarrow> y_ledger s = Some m \<Longrightarrow>
    Commit E (pk_toid P) m w (y_db s) = (e, w', db') \<Longrightarrow>
    db_step P rw s (s\<lparr>y_db := db', y_writer := Some w', y_ledger := None\<rparr>)"
| rollback: "y_writer s = Some w \<Longrightarrow> Rollback E w = (e, w') \<Longrightarrow>
    db_step P rw s (s\<lparr>y_writer := None, y_ledger := None\<rparr>)"
| open_reader: "NewLedgerReaderTx E (y_db s) = Inr r \<Longrightarrow> db_step P rw s (s\<lparr>y_reader := Some r\<rparr>)"
| close_reader: "db_step P rw s (s\<lparr>y_reader := None\<rparr>)"
| query_latest: "dc_latestLedgerSeq (db_cache (y_db s)) = 0 \<Longrightarrow>
    reader_GetLedgerRange E (y_db s) = Inr rng \<Longrightarrow> db_step P rw s (s\<lparr>y_queried := Some rng\<rparr>)"
| fill_latest: "y_queried s = Some rng \<Longrightarrow>
    db_step P rw s (s\<lparr>y_db := fill_cache rng (y_db s), y_queried := None\<rparr>)"

definition writer_ok :: "readWriter \<Rightarrow> 'v sys \<Rightarrow> bool" where
  "writer_ok rw s \<longleftrightarrow> (\<forall>w. y_writer s = Some w \<longrightarrow>
     w_historyRetentionWindow w = rw_historyRetentionWindow rw \<and>
     (\<forall>t. w_tables w = Some t \<longrightarrow> ledgers_ok (ledger_close_meta t) \<and>
        (\<forall>m. y_ledger s = Some m \<longrightarrow> ledger_close_meta t \<noteq> [] \<and>
           snd (last (ledger_close_meta t)) = m \<and> 0 < lcm_LedgerSequence m \<and>
           unat (lcm_LedgerSequence m) + 1 < 2 ^ 31)))"

definition query_ok :: "'v sys \<Rightarrow> bool" where
  "query_ok s \<longleftrightarrow> (\<forall>rng. y_queried s = Some rng \<longrightarrow> dc_latestLedgerSeq (db_cache (y_db s)) = 0 \<longrightarrow>
     ledger_close_meta (db_tables (y_db s)) \<noteq> [] \<and>
     lr_LastLedger rng = ledger_info (snd (last (ledger_close_meta (db_tables (y_db s))))))"

definition sys_ok :: "readWriter \<Rightarrow> 'v sys \<Rightarrow> bool" where
  "sys_ok rw s \<longleftrightarrow> db_ok (y_db s) \<and> writer_ok rw s \<and> query_ok s \<and>
     (\<forall>r. y_reader s = Some r \<longrightarrow> reader_ok r)"

lemma in_tx_cases:
  assumes "in_tx f w = (e, w')"
  obtains (closed) "w_tables w = None" "w' = w" "e \<noteq> None"
        | (run) t t' where "w_tables w = Some t" "f t = (e, t')" "w' = w\<lparr>w_tables := Some t'\<rparr>"
  using assms by (auto simp: in_tx_def split: option.splits prod.splits)

lemma trims_ledgers_ok:
  assumes "ledgers_ok (ledger_close_meta t)" and "trims E T l w t = (e, t')"
  shows "ledgers_ok (ledger_close_meta t')"
proof -
  obtain e1 t1 where t1: "trimLedgers E l w t = (e1, t1)" by fastforce
  then have ok: "ledgers_ok (ledger_close_meta t1)"
    using ledger_ret.trim_inv [OF assms(1), of E l w] by simp
  obtain e2 t2 where t2: "trimTransactions E l w t1 = (e2, t2)" by fastforce
  then have k2: "ledger_close_meta t2 = ledger_close_meta t1" by (auto elim: trimTransactions_cases)
  obtain e3 t3 where t3: "trimEvents E T l w t2 = (e3, t3)" by fastforce
  then have k3: "ledger_close_meta t3 = ledger_close_meta t2" by (auto elim: trimEvents_cases)
  have "t' \<in> {t1, t2, t3}"
    using assms(2) t1 t2 t3 by (cases e1; cases e2) (simp_all add: trims_def)
  with ok k2 k3 show ?thesis by auto
qed

lemma Commit_writer:
  assumes "Commit E T m w db = (e, w', db')"
  shows "w_historyRetentionWindow w' = w_historyRetentionWindow w \<and>
    (\<forall>t'. w_tables w' = Some t' \<longrightarrow> (\<exists>t. w_tables w = Some t \<and>
       (ledgers_ok (ledger_close_meta t) \<longrightarrow> ledgers_ok (ledger_close_meta t'))))"
proof (cases "w_tables w")
  case None
  with assms show ?thesis by (auto simp: Commit_def in_tx_def Let_def)
next
  case (Some t)
  obtain e1 t1 where tr: "trims E T (lcm_LedgerSequence m) (w_historyRetentionWindow w) t = (e1, t1)"
    by fastforce
  have "w' \<in> {w\<lparr>w_tables := Some t1\<rparr>, w\<lparr>w_tables := None\<rparr>}"
    using assms Some tr by (cases e1; cases "eng_fault E CommitTx")
      (auto simp: Commit_def in_tx_def Let_def)
  with Some trims_ledgers_ok [OF _ tr] show ?thesis by auto
qed

lemma writer_ok_same_ledgers:
  assumes "writer_ok rw s" and "y_writer s = Some w" and "in_tx f w = (e, w')"
    and "\<And>t t'. f t = (e, t') \<Longrightarrow> ledger_close_meta t' = ledger_close_meta t"
  shows "writer_ok rw (s\<lparr>y_writer := Some w'\<rparr>)"
  using assms(3)
proof (cases rule: in_tx_cases)
  case closed
  with assms(1,2) show ?thesis by (simp add: writer_ok_def)
next
  case (run t t')
  with assms(4) [OF run(2)] assms(1,2) show ?thesis by (simp add: writer_ok_def)
qed

lemma insert_newest:
  assumes "in_tx (InsertLedger E m) w = (None, w')" and "w_tables w = Some t"
    and "ledgers_ok (ledger_close_meta t)" and "\<forall>k \<in> ledger_seqs t. k < lcm_LedgerSequence m"
  shows "\<exists>t'. w' = w\<lparr>w_tables := Some t'\<rparr> \<and> ledgers_ok (ledger_close_meta t') \<and>
    ledger_close_meta t' = ledger_close_meta t @ [(lcm_LedgerSequence m, m)]"
proof -
  from assms(1,2) obtain t' where t': "InsertLedger E m t = (None, t')" "w' = w\<lparr>w_tables := Some t'\<rparr>"
    by (auto elim: in_tx_cases)
  note ins = InsertLedger_ok [OF assms(3) t'(1)]
  have "put_row (lcm_LedgerSequence m) m (ledger_close_meta t) =
      ledger_close_meta t @ [(lcm_LedgerSequence m, m)]"
    using assms(4) by (intro put_row_append) (auto simp: ledger_seqs_def)
  with ins t'(2) show ?thesis by (intro exI [of _ t']) simp
qed

lemma committed_query_ok:
  assumes "committed T m w (y_db s) db'" and "0 < lcm_LedgerSequence m"
  shows "query_ok (s\<lparr>y_db := db', y_writer := x, y_ledger := None\<rparr>)"
  using assms by (auto simp: query_ok_def committed_def)

lemma db_step_ok:
  assumes "db_step P rw s s'" and "sys_ok rw s" and "rw_historyRetentionWindow rw > 0"
  shows "sys_ok rw s'"
  using assms(1)
proof cases
  case (begin_write E w)
  with assms(2) show ?thesis
    by (auto simp: sys_ok_def writer_ok_def query_ok_def NewTx_def db_ok_def split: option.splits)
next
  case (insert_ledger w t m E w')
  from assms(2) insert_ledger have "ledgers_ok (ledger_close_meta t)"
    and rw: "w_historyRetentionWindow w = rw_historyRetentionWindow rw"
    by (simp_all add: sys_ok_def writer_ok_def)
  from insert_newest [OF insert_ledger(8,3) this(1) insert_ledger(5)] obtain t' where
    "w' = w\<lparr>w_tables := Some t'\<rparr>" "ledgers_ok (ledger_close_meta t')"
    "ledger_close_meta t' = ledger_close_meta t @ [(lcm_LedgerSequence m, m)]"
    by blast
  with assms(2) insert_ledger rw show ?thesis
    by (simp add: sys_ok_def writer_ok_def query_ok_def)
next
  case (insert_txs w m E e w')
  have "writer_ok rw (s\<lparr>y_writer := Some w'\<rparr>)"
    by (rule writer_ok_same_ledgers [OF _ insert_txs(2,4)])
      (use assms(2) in \<open>simp add: sys_ok_def\<close>, rule InsertTransactions_ledgers)
  with assms(2) insert_txs(1) show ?thesis by (simp add: sys_ok_def query_ok_def)
next
  case (insert_events w m E e w')
  have "writer_ok rw (s\<lparr>y_writer := Some w'\<rparr>)"
    by (rule writer_ok_same_ledgers [OF _ insert_events(2,4)])
      (use assms(2) in \<open>simp add: sys_ok_def\<close>, rule InsertEvents_ledgers)
  with assms(2) insert_events(1) show ?thesis by (simp add: sys_ok_def query_ok_def)
next
  case (commit w m E e w' db')
  have w': "writer_ok rw (s\<lparr>y_db := db', y_writer := Some w', y_ledger := None\<rparr>)"
    using Commit_writer [OF commit(4)] assms(2) commit(2) by (auto simp: sys_ok_def writer_ok_def)
  from commit(4) show ?thesis
  proof (cases rule: Commit_cases)
    case aborted
    with assms(2) commit(1) w' show ?thesis by (simp add: sys_ok_def query_ok_def)
  next
    case written
    then obtain t where t: "w_tables w = Some t" by (auto simp: committed_def)
    with assms(2) commit have *: "ledgers_ok (ledger_close_meta t)" "ledger_close_meta t \<noteq> []"
      "snd (last (ledger_close_meta t)) = m" "0 < lcm_LedgerSequence m"
      "unat (lcm_LedgerSequence m) + 1 < 2 ^ 31"
      "w_historyRetentionWindow w = rw_historyRetentionWindow rw"
      by (simp_all add: sys_ok_def writer_ok_def)
    have "db_ok db'"
      using assms(3) *(6) by (intro committed_db_ok [OF written(1) t *(1,5) _ *(2,3)]) simp
    moreover have "query_ok s'"
      using committed_query_ok [OF written(1) *(4)] commit(1) by simp
    ultimately show ?thesis
      using assms(2) commit(1) w' by (simp add: sys_ok_def)
  qed
next
  case (rollback w E e w')
  with assms(2) show ?thesis by (simp add: sys_ok_def writer_ok_def query_ok_def)
next
  case (open_reader E r)
  with assms(2) NewLedgerReaderTx_ok show ?thesis
    by (auto simp: sys_ok_def writer_ok_def query_ok_def)
next
  case close_reader
  with assms(2) show ?thesis by (simp add: sys_ok_def writer_ok_def query_ok_def)
next
  case (query_latest E rng)
  then have "getLedgerRangeWithoutCache E (db_tables (y_db s)) = Inr rng"
    by (simp add: reader_GetLedgerRange_def)
  from range_last [OF _ this] assms(2) query_latest(1) show ?thesis
    by (simp add: sys_ok_def writer_ok_def query_ok_def db_ok_def)
next
  case (fill_latest rng)
  have "db_ok (fill_cache rng (y_db s))"
    using assms(2) fill_latest by (intro fill_cache_ok) (auto simp: sys_ok_def query_ok_def)
  with assms(2) fill_latest(1) show ?thesis
    by (simp add: sys_ok_def writer_ok_def query_ok_def)
qed

lemma reachable_ok:
  assumes "(db_step P rw)\<^sup>*\<^sup>* (initial_sys file) s" and "ledgers_ok (ledger_close_meta file)"
    and "rw_historyRetentionWindow rw > 0"
  shows "sys_ok rw s"
  using assms(1)
proof (induction rule: rtranclp_induct)
  case base
  show ?case
    using OpenSQLiteDB_ok [OF assms(2)]
    by (simp add: sys_ok_def initial_sys_def writer_ok_def query_ok_def)
next
  case (step s s')
  with assms(3) show ?case by (auto intro: db_step_ok)
qed



end
