(* ===== verification/Migrations.thy ===== *)
theory Migrations
  imports StoreTx
begin

text \<open>
  \<^verbatim>\<open>db/migration.go\<close>, the table migrations of \<^verbatim>\<open>db/transaction.go\<close> and \<^verbatim>\<open>db/event.go\<close>, the fee
  window seen as a migration, and the part of \<^verbatim>\<open>daemon/daemon.go\<close> that runs them at startup.
  A session is the database with the transaction that may be open on it: statements run in
  the open transaction if there is one and take effect at once otherwise. The iteration order
  over the Go map of migrations is an argument.
\<close>

subsection \<open>Sessions\<close>

record 'v session =
  ss_db :: "'v DB"
  ss_tx :: "'v tables option"

definition session_tables :: "'v session \<Rightarrow> 'v tables" where
  "session_tables s = (case ss_tx s of Some t \<Rightarrow> t | None \<Rightarrow> db_tables (ss_db s))"

definition session_write ::
  "('v tables \<Rightarrow> go_error option \<times> 'v tables) \<Rightarrow> 'v session \<Rightarrow> go_error option \<times> 'v session" where
  "session_write f s =
     (case ss_tx s of
        Some t \<Rightarrow> (case f t of (e, t') \<Rightarrow> (e, s\<lparr>ss_tx := Some t'\<rparr>))
      | None \<Rightarrow> (case f (db_tables (ss_db s)) of
                  (e, t') \<Rightarrow> (e, s\<lparr>ss_db := (ss_db s)\<lparr>db_tables := t'\<rparr>\<rparr>)))"

definition session_Begin :: "engine \<Rightarrow> 'v session \<Rightarrow> go_error option \<times> 'v session" where
  "session_Begin E s =
     (case ss_tx s of
        Some _ \<Rightarrow> (Some (Err ''already in transaction''), s)
      | None \<Rightarrow> (case eng_fault E BeginTx of
                  Some e \<Rightarrow> (Some e, s)
                | None \<Rightarrow> (None, s\<lparr>ss_tx := Some (db_tables (ss_db s))\<rparr>)))"

definition session_Rollback :: "engine \<Rightarrow> 'v session \<Rightarrow> go_error option \<times> 'v session" where
  "session_Rollback E s =
     (case ss_tx s of
        None \<Rightarrow> (Some not_in_transaction, s)
      | Some _ \<Rightarrow> (eng_fault E RollbackTx, s\<lparr>ss_tx := None\<rparr>))"

definition session_Commit :: "engine \<Rightarrow> 'v session \<Rightarrow> go_error option \<times> 'v session" where
  "session_Commit E s =
     (case ss_tx s of
        None \<Rightarrow> (Some not_in_transaction, s)
      | Some t \<Rightarrow> (case eng_fault E CommitTx of
                    Some e \<Rightarrow> (Some e, s\<lparr>ss_tx := None\<rparr>)
                  | None \<Rightarrow> (None, s\<lparr>ss_tx := None, ss_db := (ss_db s)\<lparr>db_tables := t\<rparr>\<rparr>)))"

fun join_opt :: "go_error option \<Rightarrow> go_error option \<Rightarrow> go_error option" where
  "join_opt None e = e"
| "join_opt (Some a) b = Some (join_err a b)"

subsection \<open>Ranges\<close>

record db_LedgerSeqRange =
  sr_First :: u32
  sr_Last :: u32

definition IsLedgerIncluded :: "db_LedgerSeqRange \<Rightarrow> u32 \<Rightarrow> bool" where
  "IsLedgerIncluded mlr ledgerSeq \<longleftrightarrow> ledgerSeq \<ge> sr_First mlr \<and> ledgerSeq \<le> sr_Last mlr"

definition range_Empty :: "db_LedgerSeqRange \<Rightarrow> bool" where
  "range_Empty mlr \<longleftrightarrow> sr_First mlr = 0 \<and> sr_Last mlr = 0"

definition Merge :: "db_LedgerSeqRange \<Rightarrow> db_LedgerSeqRange \<Rightarrow> db_LedgerSeqRange" where
  "Merge mlr other =
     (if range_Empty mlr then other
      else if range_Empty other then mlr
      else \<lparr>sr_First = min (sr_First mlr) (sr_First other), sr_Last = max (sr_Last mlr) (sr_Last other)\<rparr>)"

definition zero_range :: db_LedgerSeqRange where
  "zero_range = \<lparr>sr_First = 0, sr_Last = 0\<rparr>"

subsection \<open>Migrations\<close>

datatype table_kind = TransactionsTable | EventsTable

text \<open>\<^verbatim>\<open>transactionTableMigration\<close> and \<^verbatim>\<open>eventTableMigration\<close>\<close>

record table_migration =
  tm_kind :: table_kind
  tm_firstLedger :: u32
  tm_lastLedger :: u32
  tm_passphrase :: string

record guardedMigration =
  gm_guardMetaKey :: string
  gm_migration :: table_migration
  gm_alreadyMigrated :: bool

record feeWindowMigration =
  fm_firstLedger :: u32
  fm_lastLedger :: u32

datatype Migration = Guarded guardedMigration | FeeWindowMigration feeWindowMigration

record 'v mig_state =
  ms_session :: "'v session"
  ms_fees :: FeeWindows

definition table_migration_range :: "table_migration \<Rightarrow> db_LedgerSeqRange" where
  "table_migration_range m = \<lparr>sr_First = tm_firstLedger m, sr_Last = tm_lastLedger m\<rparr>"

text \<open>The writer's statement cache is bound to the transaction that was open when it was made.\<close>

definition stmt_cache_write ::
  "('v tables \<Rightarrow> go_error option \<times> 'v tables) \<Rightarrow> 'v session \<Rightarrow> go_error option \<times> 'v session" where
  "stmt_cache_write f s =
     (case ss_tx s of
        None \<Rightarrow> (Some (Err ''sql: transaction has already been committed or rolled back''), s)
      | Some _ \<Rightarrow> session_write f s)"

definition table_migration_Apply ::
  "engine \<Rightarrow> 'v pkgs \<Rightarrow> table_migration \<Rightarrow> 'v LedgerCloseMeta \<Rightarrow> 'v session \<Rightarrow>
   go_error option \<times> 'v session" where
  "table_migration_Apply E P m meta s =
     (case tm_kind m of
        TransactionsTable \<Rightarrow> stmt_cache_write (InsertTransactions E
            \<lparr>th_stmtCache = True, th_passphrase = tm_passphrase m\<rparr> meta) s
      | EventsTable \<Rightarrow> stmt_cache_write (InsertEvents E P
            \<lparr>eh_stmtCache = True, eh_passphrase = tm_passphrase m\<rparr> meta) s)"

definition guarded_ApplicableRange :: "guardedMigration \<Rightarrow> db_LedgerSeqRange" where
  "guarded_ApplicableRange g =
     (if gm_alreadyMigrated g then zero_range else table_migration_range (gm_migration g))"

definition guarded_Apply ::
  "engine \<Rightarrow> 'v pkgs \<Rightarrow> guardedMigration \<Rightarrow> 'v LedgerCloseMeta \<Rightarrow> 'v session \<Rightarrow>
   go_error option \<times> 'v session" where
  "guarded_Apply E P g meta s =
     (if gm_alreadyMigrated g then (None, s)
      else table_migration_Apply E P (gm_migration g) meta s)"

definition guarded_Commit ::
  "engine \<Rightarrow> guardedMigration \<Rightarrow> 'v session \<Rightarrow> go_error option \<times> 'v session" where
  "guarded_Commit E g s =
     (if gm_alreadyMigrated g then (None, s)
      else session_write (setMetaBool E (gm_guardMetaKey g) True) s)"

text \<open>The fee windows as a migration; they roll the session back themselves when a ledger is rejected.\<close>

definition AsMigration :: "db_LedgerSeqRange \<Rightarrow> feeWindowMigration" where
  "AsMigration seqRange = \<lparr>fm_firstLedger = sr_First seqRange, fm_lastLedger = sr_Last seqRange\<rparr>"

definition feeWindow_ApplicableRange :: "feeWindowMigration \<Rightarrow> db_LedgerSeqRange" where
  "feeWindow_ApplicableRange f = \<lparr>sr_First = fm_firstLedger f, sr_Last = fm_lastLedger f\<rparr>"

definition feeWindow_Apply ::
  "engine \<Rightarrow> 'v LedgerCloseMeta \<Rightarrow> 'v mig_state \<Rightarrow> go_error option \<times> 'v mig_state" where
  "feeWindow_Apply E meta st =
     (case session_Rollback E (ms_session st) of (rb, rolled) \<Rightarrow>
       (case IngestFees rb (ms_fees st) meta of
          (None, fees) \<Rightarrow> (None, st\<lparr>ms_fees := fees\<rparr>)
        | (Some e, fees) \<Rightarrow> (Some e, st\<lparr>ms_fees := fees, ms_session := rolled\<rparr>)))"

definition feeWindow_Commit :: "'v session \<Rightarrow> go_error option \<times> 'v session" where
  "feeWindow_Commit s = (None, s)"

declare feeWindow_ApplicableRange_def [simp] feeWindow_Apply_def [simp] feeWindow_Commit_def [simp]

fun Migration_ApplicableRange :: "Migration \<Rightarrow> db_LedgerSeqRange" where
  "Migration_ApplicableRange (Guarded g) = guarded_ApplicableRange g"
| "Migration_ApplicableRange (FeeWindowMigration f) = feeWindow_ApplicableRange f"

fun Migration_Apply ::
  "engine \<Rightarrow> 'v pkgs \<Rightarrow> Migration \<Rightarrow> 'v LedgerCloseMeta \<Rightarrow> 'v mig_state \<Rightarrow>
   go_error option \<times> 'v mig_state" where
  "Migration_Apply E P (Guarded g) meta st =
     (case guarded_Apply E P g meta (ms_session st) of (e, s) \<Rightarrow> (e, st\<lparr>ms_session := s\<rparr>))"
| "Migration_Apply E P (FeeWindowMigration f) meta st = feeWindow_Apply E meta st"

fun Migration_Commit ::
  "engine \<Rightarrow> Migration \<Rightarrow> 'v session \<Rightarrow> go_error option \<times> 'v session" where
  "Migration_Commit E (Guarded g) s = guarded_Commit E g s"
| "Migration_Commit E (FeeWindowMigration f) s = feeWindow_Commit s"

subsection \<open>Multi-migrations\<close>

definition MultiMigration_Append :: "Migration list \<Rightarrow> Migration \<Rightarrow> Migration list" where
  "MultiMigration_Append mm m =
     (if \<not> range_Empty (Migration_ApplicableRange m) then mm @ [m] else mm)"

definition MultiMigration_ApplicableRange :: "Migration list \<Rightarrow> db_LedgerSeqRange" where
  "MultiMigration_ApplicableRange mm =
     fold (\<lambda>m result. Merge (Migration_ApplicableRange m) result) mm zero_range"

fun multi_apply ::
  "engine \<Rightarrow> 'v pkgs \<Rightarrow> 'v LedgerCloseMeta \<Rightarrow> Migration list \<Rightarrow> go_error option \<Rightarrow> 'v mig_state \<Rightarrow>
   go_error option \<times> 'v mig_state" where
  "multi_apply E P meta [] err st = (err, st)"
| "multi_apply E P meta (m # ms) err st =
     (if \<not> IsLedgerIncluded (Migration_ApplicableRange m) (lcm_LedgerSequence meta)
      then multi_apply E P meta ms err st
      else case Migration_Apply E P m meta st of
          (None, st1) \<Rightarrow> multi_apply E P meta ms err st1
        | (Some localErr, st1) \<Rightarrow>
            (case session_Rollback E (ms_session st1) of (rb, s2) \<Rightarrow>
               multi_apply E P meta ms (join_opt err (Some (join_err localErr rb)))
                 (st1\<lparr>ms_session := s2\<rparr>)))"

definition MultiMigration_Apply ::
  "engine \<Rightarrow> 'v pkgs \<Rightarrow> Migration list \<Rightarrow> 'v LedgerCloseMeta \<Rightarrow> 'v mig_state \<Rightarrow>
   go_error option \<times> 'v mig_state" where
  "MultiMigration_Apply E P mm meta st = multi_apply E P meta mm None st"

text \<open>The errors the loop collects are dropped: only the answer of the final commit returns.\<close>

fun multi_commit :: "engine \<Rightarrow> Migration list \<Rightarrow> 'v session \<Rightarrow> 'v session" where
  "multi_commit E [] s = s"
| "multi_commit E (m # ms) s =
     (case Migration_Commit E m s of
        (None, s1) \<Rightarrow> multi_commit E ms s1
      | (Some localErr, s1) \<Rightarrow> multi_commit E ms (snd (session_Rollback E s1)))"

definition MultiMigration_Commit ::
  "engine \<Rightarrow> Migration list \<Rightarrow> 'v session \<Rightarrow> go_error option \<times> 'v session" where
  "MultiMigration_Commit E mm s = session_Commit E (multi_commit E mm s)"

subsection \<open>Building the migrations\<close>

fun migration_name :: "table_kind \<Rightarrow> string" where
  "migration_name TransactionsTable = ''TransactionsTable''"
| "migration_name EventsTable = ''EventsTable''"

definition guard_key :: "table_kind \<Rightarrow> string" where
  "guard_key k = ''Migration'' @ migration_name k @ ''Done''"

text \<open>\<^verbatim>\<open>newTransactionTableMigration\<close> empties its table; \<^verbatim>\<open>newEventTableMigration\<close> does not.\<close>

definition new_table_migration ::
  "engine \<Rightarrow> table_kind \<Rightarrow> string \<Rightarrow> db_LedgerSeqRange \<Rightarrow> 'v session \<Rightarrow>
   table_migration res \<times> 'v session" where
  "new_table_migration E k passphrase rng s =
     (let m = \<lparr>tm_kind = k, tm_firstLedger = sr_First rng, tm_lastLedger = sr_Last rng,
               tm_passphrase = passphrase\<rparr> in
      case k of
        EventsTable \<Rightarrow> (Inr m, s)
      | TransactionsTable \<Rightarrow>
          (case session_write (exec_write E TruncateTransactions
               (\<lambda>t. Inr (t\<lparr>transactions := []\<rparr>))) s of
             (Some e, s1) \<Rightarrow> (Inl (wrap_err (couldnt (''delete table '' @ dq @ ''transactions'' @ dq @ '': '')) e), s1)
           | (None, s1) \<Rightarrow> (Inr m, s1)))"

definition newGuardedDataMigration ::
  "engine \<Rightarrow> table_kind \<Rightarrow> string \<Rightarrow> db_LedgerSeqRange \<Rightarrow> 'v session \<Rightarrow>
   (guardedMigration option) res \<times> 'v session" where
  "newGuardedDataMigration E k passphrase rng s =
     (let metaKey = guard_key k in
      case getMetaBool E metaKey (session_tables s) of
        Inr True \<Rightarrow> (Inr None, s)
      | Inl e \<Rightarrow>
          if e \<noteq> ErrEmptyDB then (Inl e, s)
          else (case new_table_migration E k passphrase rng s of
                  (Inl e, s1) \<Rightarrow> (Inl e, s1)
                | (Inr m, s1) \<Rightarrow> (Inr (Some \<lparr>gm_guardMetaKey = metaKey, gm_migration = m,
                                             gm_alreadyMigrated = False\<rparr>), s1))
      | Inr False \<Rightarrow>
          (case new_table_migration E k passphrase rng s of
             (Inl e, s1) \<Rightarrow> (Inl e, s1)
           | (Inr m, s1) \<Rightarrow> (Inr (Some \<lparr>gm_guardMetaKey = metaKey, gm_migration = m,
                                        gm_alreadyMigrated = False\<rparr>), s1)))"

fun build_loop ::
  "engine \<Rightarrow> string \<Rightarrow> db_LedgerSeqRange \<Rightarrow> table_kind list \<Rightarrow> Migration list \<Rightarrow> 'v session \<Rightarrow>
   (Migration list) res \<times> 'v session" where
  "build_loop E passphrase rng [] ms s = (Inr ms, s)"
| "build_loop E passphrase rng (k # ks) ms s =
     (case newGuardedDataMigration E k passphrase rng s of
        (Inl e, s1) \<Rightarrow>
          (case session_Rollback E s1 of (rb, s2) \<Rightarrow>
             (Inl (join_err (join_err e (Some (Err (''could not create guarded migration for '' @
                 migration_name k)))) rb), s2))
      | (Inr None, s1) \<Rightarrow> build_loop E passphrase rng ks ms s1
      | (Inr (Some g), s1) \<Rightarrow> build_loop E passphrase rng ks (ms @ [Guarded g]) s1)"

definition BuildMigrations ::
  "engine \<Rightarrow> table_kind list \<Rightarrow> string \<Rightarrow> db_LedgerSeqRange \<Rightarrow> 'v session \<Rightarrow>
   (Migration list) res \<times> 'v session" where
  "BuildMigrations E order passphrase rng s =
     (case session_Begin E s of
        (Some err, s1) \<Rightarrow>
          (case session_Rollback E s1 of (rb, s2) \<Rightarrow> (Inl (join_err err rb), s2))
      | (None, s1) \<Rightarrow> build_loop E passphrase rng order [] s1)"

definition GetMigrationLedgerRange ::
  "engine \<Rightarrow> u32 \<Rightarrow> 'v session \<Rightarrow> db_LedgerSeqRange res \<times> 'v session" where
  "GetMigrationLedgerRange E retentionWindow s =
     (case getLatestLedgerSequence E ((ss_db s)\<lparr>db_tables := session_tables s\<rparr>) of (r, db1) \<Rightarrow>
      let s1 = s\<lparr>ss_db := (ss_db s)\<lparr>db_cache := db_cache db1\<rparr>\<rparr>;
          latest = (\<lambda>latestLedger.
            \<lparr>sr_First = (if latestLedger > retentionWindow then latestLedger - retentionWindow else 2),
             sr_Last = latestLedger\<rparr>)
      in case r of
           Inl err \<Rightarrow> if err \<noteq> ErrEmptyDB
             then (Inl (wrap_err ''failed to get latest ledger sequence: '' err), s1)
             else (Inr (latest 0), s1)
         | Inr latestLedger \<Rightarrow> (Inr (latest latestLedger), s1))"

subsection \<open>Startup\<close>

record storage_config =
  sc_ClassicFeeStatsLedgerRetentionWindow :: u32
  sc_SorobanFeeStatsLedgerRetentionWindow :: u32
  sc_HistoryRetentionWindow :: u32
  sc_NetworkPassphrase :: string

text \<open>\<^verbatim>\<open>Fatal\<close> ends the process; here it is the error that ends the startup.\<close>

definition daemon_buildMigrations ::
  "engine \<Rightarrow> table_kind list \<Rightarrow> storage_config \<Rightarrow> db_LedgerSeqRange \<Rightarrow> 'v session \<Rightarrow>
   (Migration list) res \<times> 'v session" where
  "daemon_buildMigrations E order cfg retentionRange s =
     (let maxFeeRetentionWindow = max (sc_ClassicFeeStatsLedgerRetentionWindow cfg)
            (sc_SorobanFeeStatsLedgerRetentionWindow cfg) in
      if maxFeeRetentionWindow > sc_HistoryRetentionWindow cfg
      then (Inl (Err ''Fee stat analysis window cannot exceed history retention window''), s)
      else case BuildMigrations E order (sc_NetworkPassphrase cfg) retentionRange s of
          (Inl e, s1) \<Rightarrow> (Inl e, s1)
        | (Inr ms, s1) \<Rightarrow>
            (case GetMigrationLedgerRange E maxFeeRetentionWindow s1 of
               (Inl e, s2) \<Rightarrow> (Inl e, s2)
             | (Inr feeStatsRange, s2) \<Rightarrow>
                 (Inr (MultiMigration_Append ms (FeeWindowMigration (AsMigration feeStatsRange))), s2)))"

definition mustInitializeStorage ::
  "engine \<Rightarrow> 'v pkgs \<Rightarrow> table_kind list \<Rightarrow> storage_config \<Rightarrow> 'v session \<Rightarrow>
   go_error option \<times> 'v mig_state" where
  "mustInitializeStorage E P order cfg s =
     (let feeWindows = NewFeeWindows (sc_ClassicFeeStatsLedgerRetentionWindow cfg)
            (sc_SorobanFeeStatsLedgerRetentionWindow cfg) (sc_NetworkPassphrase cfg) in
      case GetMigrationLedgerRange E (sc_HistoryRetentionWindow cfg) s of
        (Inl e, s1) \<Rightarrow> (Some e, \<lparr>ms_session = s1, ms_fees = feeWindows\<rparr>)
      | (Inr retentionRange, s1) \<Rightarrow>
          (case daemon_buildMigrations E order cfg retentionRange s1 of
             (Inl e, s2) \<Rightarrow> (Some e, \<lparr>ms_session = s2, ms_fees = feeWindows\<rparr>)
           | (Inr dataMigrations, s2) \<Rightarrow>
               let ledgerSeqRange = MultiMigration_ApplicableRange dataMigrations in
               (case StreamLedgerRange E (sr_First ledgerSeqRange) (sr_Last ledgerSeqRange)
                   (MultiMigration_Apply E P dataMigrations) (session_tables s2)
                   \<lparr>ms_session = s2, ms_fees = feeWindows\<rparr> of
                  (Some e, st) \<Rightarrow> (Some e, st)
                | (None, st) \<Rightarrow>
                    (case MultiMigration_Commit E dataMigrations (ms_session st) of
                       (e, s3) \<Rightarrow> (e, st\<lparr>ms_session := s3\<rparr>)))))"

subsection \<open>Ranges cover their migrations\<close>

lemma Merge_included:
  assumes "s \<noteq> 0" and "IsLedgerIncluded a s \<or> IsLedgerIncluded b s"
  shows "IsLedgerIncluded (Merge a b) s"
  using assms by (auto simp: Merge_def IsLedgerIncluded_def range_Empty_def min_def max_def)

lemma fold_Merge_included:
  assumes "s \<noteq> 0" and "IsLedgerIncluded r s \<or> (\<exists>m \<in> set mm. IsLedgerIncluded (f m) s)"
  shows "IsLedgerIncluded (fold (\<lambda>m. Merge (f m)) mm r) s"
  using assms(2)
  by (induction mm arbitrary: r) (auto intro: Merge_included [OF assms(1)])

text \<open>The range a multi-migration streams includes every ledger that any of its migrations
  applies to, so no migration misses a ledger of its own range.\<close>

theorem multi_range_covers:
  assumes "m \<in> set mm" and "s \<noteq> 0" and "IsLedgerIncluded (Migration_ApplicableRange m) s"
  shows "IsLedgerIncluded (MultiMigration_ApplicableRange mm) s"
  unfolding MultiMigration_ApplicableRange_def
  by (rule fold_Merge_included) (use assms in auto)

definition example_guarded :: "table_kind \<Rightarrow> guardedMigration" where
  "example_guarded k = \<lparr>gm_guardMetaKey = guard_key k,
     gm_migration = \<lparr>tm_kind = k, tm_firstLedger = 5, tm_lastLedger = 7, tm_passphrase = ''test''\<rparr>,
     gm_alreadyMigrated = False\<rparr>"

theorem multi_range_covers_witness:
  "IsLedgerIncluded (MultiMigration_ApplicableRange
     [Guarded (example_guarded EventsTable), FeeWindowMigration \<lparr>fm_firstLedger = 3, fm_lastLedger = 4\<rparr>]) 6"
  by (rule multi_range_covers [of "Guarded (example_guarded EventsTable)"])
    (simp_all add: guarded_ApplicableRange_def example_guarded_def table_migration_range_def
      IsLedgerIncluded_def)

subsection \<open>Nothing is committed before the end\<close>

text \<open>The tables a session has committed, and the metadata its open transaction sees.\<close>

definition keeps :: "'v tables \<Rightarrow> (string, string) table \<Rightarrow> 'v session \<Rightarrow> bool" where
  "keeps d meta s \<longleftrightarrow> db_tables (ss_db s) = d \<and> (\<forall>t. ss_tx s = Some t \<longrightarrow> metadata t = meta)"

lemma keeps_Rollback: "keeps d meta s \<Longrightarrow> keeps d meta (snd (session_Rollback E s))"
  by (auto simp: keeps_def session_Rollback_def split: option.splits)

lemma keeps_stmt_cache_write:
  assumes "keeps d meta s" and "\<And>t e t'. f t = (e, t') \<Longrightarrow> metadata t' = metadata t"
    and "stmt_cache_write f s = (e, s')"
  shows "keeps d meta s' \<and> (ss_tx s' = None \<longleftrightarrow> ss_tx s = None)"
  using assms by (auto simp: keeps_def stmt_cache_write_def session_write_def
      split: option.splits prod.splits)

lemma keeps_guarded_Apply:
  assumes "keeps d meta s" and "guarded_Apply E P g m s = (e, s')"
  shows "keeps d meta s' \<and> (ss_tx s' = None \<longleftrightarrow> ss_tx s = None)"
proof (cases "gm_alreadyMigrated g")
  case True
  with assms show ?thesis by (simp add: guarded_Apply_def)
next
  case False
  show ?thesis
  proof (cases "tm_kind (gm_migration g)")
    case TransactionsTable
    with False assms keeps_stmt_cache_write [OF assms(1) InsertTransactions_metadata] show ?thesis
      by (simp add: guarded_Apply_def table_migration_Apply_def)
  next
    case EventsTable
    with False assms keeps_stmt_cache_write [OF assms(1) InsertEvents_metadata] show ?thesis
      by (simp add: guarded_Apply_def table_migration_Apply_def)
  qed
qed

lemma keeps_Migration_Apply:
  assumes "keeps d meta (ms_session st)" and "Migration_Apply E P m l st = (e, st')"
  shows "keeps d meta (ms_session st') \<and>
    (e = None \<longrightarrow> (ss_tx (ms_session st') = None \<longleftrightarrow> ss_tx (ms_session st) = None))"
proof (cases m)
  case (Guarded g)
  obtain e1 s1 where a: "guarded_Apply E P g l (ms_session st) = (e1, s1)" by fastforce
  with keeps_guarded_Apply [OF assms(1) a] assms(2) Guarded show ?thesis by auto
next
  case (FeeWindowMigration f)
  with assms keeps_Rollback [OF assms(1), of E] show ?thesis
    by (auto split: prod.splits option.splits)
qed

lemma join_opt_None [simp]: "join_opt a b = None \<longleftrightarrow> a = None \<and> b = None"
  by (cases a) auto

lemma keeps_multi_apply:
  assumes "keeps d meta (ms_session st)" and "multi_apply E P l ms err st = (e, st')"
  shows "keeps d meta (ms_session st') \<and>
    (e = None \<longrightarrow> err = None \<and> (ss_tx (ms_session st') = None \<longleftrightarrow> ss_tx (ms_session st) = None))"
  using assms
proof (induction ms arbitrary: err st)
  case (Cons m ms)
  show ?case
  proof (cases "IsLedgerIncluded (Migration_ApplicableRange m) (lcm_LedgerSequence l)")
    case False
    with Cons.IH [OF Cons.prems(1), of err] Cons.prems(2) show ?thesis by simp
  next
    case True
    obtain e1 st1 where a: "Migration_Apply E P m l st = (e1, st1)" by fastforce
    note k = keeps_Migration_Apply [OF Cons.prems(1) a]
    show ?thesis
    proof (cases e1)
      case None
      with Cons.IH [of st1 err] k a True Cons.prems(2) show ?thesis by simp
    next
      case (Some err1)
      obtain rb s2 where r: "session_Rollback E (ms_session st1) = (rb, s2)" by fastforce
      with keeps_Rollback [of d meta "ms_session st1" E] k have "keeps d meta s2" by simp
      moreover have "multi_apply E P l ms (join_opt err (Some (join_err err1 rb)))
          (st1\<lparr>ms_session := s2\<rparr>) = (e, st')"
        using a r True Some Cons.prems(2) by simp
      ultimately show ?thesis
        using Cons.IH [of "st1\<lparr>ms_session := s2\<rparr>" "join_opt err (Some (join_err err1 rb))"] by auto
    qed
  qed
qed simp

lemma keeps_stream:
  assumes "keeps d meta (ms_session st)"
    and "stream_rows E (MultiMigration_Apply E P mm) rows st = (e, st')"
  shows "keeps d meta (ms_session st') \<and>
    (e = None \<longrightarrow> (ss_tx (ms_session st') = None \<longleftrightarrow> ss_tx (ms_session st) = None))"
  using assms
proof (induction rows arbitrary: st)
  case (Cons kr rows)
  obtain k l where kr: "kr = (k, l)" by fastforce
  obtain e1 st1 where a: "MultiMigration_Apply E P mm l st = (e1, st1)" by fastforce
  note k1 = keeps_multi_apply [OF Cons.prems(1), of E P l mm None e1 st1]
  show ?case
  proof (cases "eng_fault E (ScanLedger k)")
    case None
    then show ?thesis
      using Cons.prems Cons.IH [of st1] k1 a
      by (cases e1) (auto simp: kr MultiMigration_Apply_def)
  next
    case (Some err)
    with Cons.prems show ?thesis by (auto simp: kr)
  qed
qed simp

lemma keeps_GetMigrationLedgerRange:
  "keeps d meta s \<Longrightarrow> GetMigrationLedgerRange E w s = (r, s') \<Longrightarrow>
    keeps d meta s' \<and> ss_tx s' = ss_tx s"
  by (auto simp: GetMigrationLedgerRange_def keeps_def Let_def split: prod.splits sum.splits if_splits)

lemma keeps_new_table_migration:
  assumes "keeps d meta s" and "ss_tx s \<noteq> None" and "new_table_migration E k p rng s = (r, s')"
  shows "keeps d meta s' \<and> ss_tx s' \<noteq> None"
proof (cases k)
  case TransactionsTable
  obtain t where t: "ss_tx s = Some t" using assms(2) by auto
  obtain e t' where w: "exec_write E TruncateTransactions (\<lambda>t. Inr (t\<lparr>transactions := []\<rparr>)) t = (e, t')"
    by fastforce
  then have "metadata t' = metadata t" by (rule exec_write_other) auto
  with assms t w TransactionsTable show ?thesis
    by (cases e) (auto simp: new_table_migration_def session_write_def keeps_def)
qed (use assms in \<open>auto simp: new_table_migration_def\<close>)

lemma keeps_newGuarded:
  assumes "keeps d meta s" and "ss_tx s \<noteq> None"
    and "newGuardedDataMigration E k p rng s = (r, s')"
  shows "keeps d meta s' \<and> ss_tx s' \<noteq> None \<and>
    (\<forall>g. r = Inr (Some g) \<longrightarrow> gm_guardMetaKey g = guard_key k \<and> \<not> gm_alreadyMigrated g) \<and>
    (r = Inr None \<longrightarrow> getMetaBool E (guard_key k) (session_tables s) = Inr True)"
proof (cases "getMetaBool E (guard_key k) (session_tables s) = Inr True")
  case True
  with assms show ?thesis by (auto simp: newGuardedDataMigration_def)
next
  case False
  obtain m s1 where n: "new_table_migration E k p rng s = (m, s1)" by fastforce
  note kn = keeps_new_table_migration [OF assms(1,2) n]
  from assms False kn n show ?thesis
    by (cases m; cases "getMetaBool E (guard_key k) (session_tables s)")
      (auto simp: newGuardedDataMigration_def split: bool.splits if_splits)
qed

text \<open>The guards are read from the metadata alone.\<close>

definition guard_set :: "engine \<Rightarrow> (string, string) table \<Rightarrow> table_kind \<Rightarrow> bool" where
  "guard_set E meta k \<longleftrightarrow>
     getMetaBool E (guard_key k) (empty_tables\<lparr>metadata := meta\<rparr> :: unit tables) = Inr True"

lemma guard_set_iff: "getMetaBool E (guard_key k) t = Inr True \<longleftrightarrow> guard_set E (metadata t) k"
  by (simp add: guard_set_def getMetaBool_def getMetaValue_def)

definition guards_known ::
  "engine \<Rightarrow> (string, string) table \<Rightarrow> table_kind list \<Rightarrow> guardedMigration list \<Rightarrow> bool" where
  "guards_known E meta ks new \<longleftrightarrow> (\<forall>g \<in> set new. \<not> gm_alreadyMigrated g) \<and>
     (\<forall>k \<in> set ks. guard_key k \<in> gm_guardMetaKey ` set new \<or> guard_set E meta k)"

lemma keeps_build_loop:
  assumes "keeps d meta s" and "ss_tx s \<noteq> None" and "build_loop E p rng ks ms s = (r, s')"
  shows "keeps d meta s' \<and>
    (\<forall>ms'. r = Inr ms' \<longrightarrow> ss_tx s' \<noteq> None \<and>
       (\<exists>new. ms' = ms @ map Guarded new \<and> guards_known E meta ks new))"
  using assms
proof (induction ks arbitrary: ms s)
  case Nil
  then show ?case by (auto simp: guards_known_def intro: exI [of _ "[]"])
next
  case (Cons k ks)
  obtain r1 s1 where n: "newGuardedDataMigration E k p rng s = (r1, s1)" by fastforce
  note kn = keeps_newGuarded [OF Cons.prems(1,2) n]
  have same: "metadata (session_tables s) = meta"
    using Cons.prems(1,2) by (auto simp: keeps_def session_tables_def)
  consider (fail) err where "r1 = Inl err" | (skip) "r1 = Inr None" | (new) g where "r1 = Inr (Some g)"
    by (cases r1) auto
  then show ?case
  proof cases
    case fail
    with Cons.prems(3) n keeps_Rollback [of d meta s1 E] kn show ?thesis
      by (auto split: prod.splits)
  next
    case skip
    have "guard_set E meta k" using kn skip same guard_set_iff [of E k "session_tables s"] by simp
    moreover have "build_loop E p rng ks ms s1 = (r, s')" using Cons.prems(3) n skip by simp
    ultimately show ?thesis
      using Cons.IH [of s1 ms] kn by (auto simp: guards_known_def)
  next
    case (new g)
    have g: "gm_guardMetaKey g = guard_key k" "\<not> gm_alreadyMigrated g" using kn new by auto
    have "build_loop E p rng ks (ms @ [Guarded g]) s1 = (r, s')" using Cons.prems(3) n new by simp
    then have IH: "keeps d meta s' \<and> (\<forall>ms'. r = Inr ms' \<longrightarrow> ss_tx s' \<noteq> None \<and>
       (\<exists>new. ms' = (ms @ [Guarded g]) @ map Guarded new \<and> guards_known E meta ks new))"
      using Cons.IH [of s1 "ms @ [Guarded g]"] kn by blast
    have "\<exists>new. ms' = ms @ map Guarded new \<and> guards_known E meta (k # ks) new"
      if "ms' = (ms @ [Guarded g]) @ map Guarded new" "guards_known E meta ks new" for ms' new
      using that g by (intro exI [of _ "g # new"]) (auto simp: guards_known_def)
    with IH show ?thesis by blast
  qed
qed

subsection \<open>The commit sets the guards\<close>

lemma setMetaBool_ok:
  "eng_fault E (ReplaceMeta key) = None \<Longrightarrow>
    setMetaBool E key b t = (None, t\<lparr>metadata := put_row key (FormatBool b) (metadata t)\<rparr>)"
  by (simp add: setMetaBool_def exec_write_no_fault)

fun guard_rows :: "Migration list \<Rightarrow> (string, string) table \<Rightarrow> (string, string) table" where
  "guard_rows [] tbl = tbl"
| "guard_rows (Guarded g # ms) tbl =
     guard_rows ms (if gm_alreadyMigrated g then tbl else put_row (gm_guardMetaKey g) ''true'' tbl)"
| "guard_rows (FeeWindowMigration f # ms) tbl = guard_rows ms tbl"

lemma multi_commit_open:
  assumes "\<And>k. eng_fault E (ReplaceMeta k) = None" and "ss_tx s = Some t"
  shows "multi_commit E mm s = s\<lparr>ss_tx := Some (t\<lparr>metadata := guard_rows mm (metadata t)\<rparr>)\<rparr>"
  using assms(2)
proof (induction mm arbitrary: s t)
  case (Cons m ms)
  show ?case
  proof (cases m)
    case (Guarded g)
    show ?thesis
      using Cons.prems Cons.IH [of s t] Guarded assms(1)
        Cons.IH [of "s\<lparr>ss_tx := Some (t\<lparr>metadata := put_row (gm_guardMetaKey g) ''true'' (metadata t)\<rparr>)\<rparr>"]
      by (auto simp: guarded_Commit_def session_write_def setMetaBool_ok FormatBool_def)
  next
    case (FeeWindowMigration f)
    with Cons show ?thesis by simp
  qed
qed simp

lemma guard_rows_find:
  "map_of (guard_rows mm tbl) k = (if \<exists>g. Guarded g \<in> set mm \<and> \<not> gm_alreadyMigrated g \<and>
     gm_guardMetaKey g = k then Some ''true'' else map_of tbl k)"
  by (induction mm tbl rule: guard_rows.induct) (auto simp: map_of_put_row)

lemma guard_rows_ok: "table_ok tbl \<Longrightarrow> table_ok (guard_rows mm tbl)"
  by (induction mm tbl rule: guard_rows.induct) (auto simp: put_row_ok)

lemma session_Begin_keeps:
  assumes "ss_tx s = None" and "session_Begin E s = (e, s1)"
  shows "keeps (db_tables (ss_db s)) (metadata (db_tables (ss_db s))) s1 \<and> (e = None \<longrightarrow> ss_tx s1 \<noteq> None)"
proof (cases "eng_fault E BeginTx")
  case None
  with assms show ?thesis by (auto simp: session_Begin_def keeps_def)
next
  case (Some err)
  have "(Some err, s) = (e, s1)" using assms Some by (simp add: session_Begin_def)
  with assms(1) show ?thesis by (auto simp: keeps_def)
qed

lemma daemon_buildMigrations_keeps:
  assumes "ss_tx s = None" and "daemon_buildMigrations E order cfg rng s = (r, s')"
  defines "d \<equiv> db_tables (ss_db s)"
  shows "keeps d (metadata d) s' \<and> (\<forall>mm. r = Inr mm \<longrightarrow> ss_tx s' \<noteq> None \<and>
    (\<exists>new rest. mm = map Guarded new @ rest \<and> guards_known E (metadata d) order new))"
proof -
  have start: "keeps d (metadata d) s" using assms(1) by (simp add: keeps_def d_def)
  let ?w = "max (sc_ClassicFeeStatsLedgerRetentionWindow cfg) (sc_SorobanFeeStatsLedgerRetentionWindow cfg)"
  obtain r1 s1 where b: "BuildMigrations E order (sc_NetworkPassphrase cfg) rng s = (r1, s1)"
    by fastforce
  obtain e0 s0 where bg: "session_Begin E s = (e0, s0)" by fastforce
  note k0 = session_Begin_keeps [OF assms(1) bg, folded d_def]
  have k1: "keeps d (metadata d) s1 \<and> (\<forall>ms. r1 = Inr ms \<longrightarrow> ss_tx s1 \<noteq> None \<and>
      (\<exists>new. ms = map Guarded new \<and> guards_known E (metadata d) order new))"
  proof (cases e0)
    case None
    with b bg k0 keeps_build_loop [of d "metadata d" s0 E "sc_NetworkPassphrase cfg" rng order "[]" r1 s1]
    show ?thesis by (simp add: BuildMigrations_def)
  next
    case (Some err)
    with b bg k0 keeps_Rollback [of d "metadata d" s0 E] show ?thesis
      by (auto simp: BuildMigrations_def split: prod.splits)
  qed
  obtain r2 s2 where g: "GetMigrationLedgerRange E ?w s1 = (r2, s2)" by fastforce
  note k2 = keeps_GetMigrationLedgerRange [OF conjunct1 [OF k1] g]
  consider (same) "r \<in> range Inl" "s' \<in> {s, s1, s2}"
    | (built) ms f where "r1 = Inr ms" "r = Inr (MultiMigration_Append ms f)" "s' = s2"
    using assms(2) b g
    by (auto simp: daemon_buildMigrations_def Let_def split: if_splits sum.splits)
  then show ?thesis
  proof cases
    case same
    with start k1 k2 show ?thesis by auto
  next
    case (built ms f)
    with k1 obtain new where "ms = map Guarded new" "guards_known E (metadata d) order new"
      "ss_tx s1 \<noteq> None" by blast
    with built k2 show ?thesis
      by (auto simp: MultiMigration_Append_def intro: exI [of _ "[]"])
  qed
qed

lemma guard_rows_append_keeps:
  assumes "map_of tbl k = Some ''true'' \<or> (\<exists>g. Guarded g \<in> set mm \<and> \<not> gm_alreadyMigrated g \<and>
     gm_guardMetaKey g = k)"
  shows "map_of (guard_rows mm tbl) k = Some ''true''"
  using assms by (auto simp: guard_rows_find)

lemma guard_set_lookup:
  assumes "table_ok meta" and "eng_fault E (SelectMeta (guard_key k)) = None"
  shows "guard_set E meta k \<longleftrightarrow> (\<exists>v. map_of meta (guard_key k) = Some v \<and> ParseBool v = Inr True)"
  using select_key [OF assms(1), of "guard_key k"] assms(2)
  by (auto simp: guard_set_def getMetaBool_def getMetaValue_def exec_stmt_ok split: option.splits)

lemma guards_after_commit:
  assumes "mm = map Guarded new @ rest" and "guards_known E meta order new" and "k \<in> set order"
    and "table_ok meta" and "eng_fault E (SelectMeta (guard_key k)) = None"
    and "eng_fault E' (SelectMeta (guard_key k)) = None"
  shows "guard_set E' (guard_rows mm meta) k"
proof -
  have "\<exists>v. map_of (guard_rows mm meta) (guard_key k) = Some v \<and> ParseBool v = Inr True"
  proof (cases "guard_key k \<in> gm_guardMetaKey ` set new")
    case True
    then obtain g where "g \<in> set new" and gk: "gm_guardMetaKey g = guard_key k" by auto
    with assms(1,2) have "Guarded g \<in> set mm" "\<not> gm_alreadyMigrated g"
      by (auto simp: guards_known_def)
    with gk have "map_of (guard_rows mm meta) (guard_key k) = Some ''true''"
      by (auto simp: guard_rows_find)
    then show ?thesis by (simp add: ParseBool_def)
  next
    case False
    with assms(2,3) have "guard_set E meta k" by (auto simp: guards_known_def)
    then obtain v where "map_of meta (guard_key k) = Some v" "ParseBool v = Inr True"
      using guard_set_lookup [OF assms(4,5)] by blast
    then show ?thesis by (simp add: guard_rows_find ParseBool_def)
  qed
  then show ?thesis
    using guard_set_lookup [OF guard_rows_ok [OF assms(4)] assms(6)] by blast
qed

lemma build_loop_all_done:
  assumes "\<forall>k \<in> set ks. guard_set E (metadata (session_tables s)) k"
  shows "build_loop E p rng ks ms s = (Inr ms, s)"
  using assms
proof (induction ks)
  case (Cons k ks)
  then have "getMetaBool E (guard_key k) (session_tables s) = Inr True"
    by (simp add: guard_set_iff)
  then have "newGuardedDataMigration E k p rng s = (Inr None, s)"
    by (simp add: newGuardedDataMigration_def Let_def)
  with Cons show ?case by simp
qed simp

lemma commit_stage:
  assumes "keeps d meta s" and "ss_tx s \<noteq> None" and "\<And>k. eng_fault E (ReplaceMeta k) = None"
    and "MultiMigration_Commit E mm s = (e, s')"
  shows "e \<noteq> None \<and> db_tables (ss_db s') = d \<or>
    e = None \<and> ss_tx s' = None \<and> metadata (db_tables (ss_db s')) = guard_rows mm meta"
proof -
  obtain t where t: "ss_tx s = Some t" "metadata t = meta" using assms(1,2) by (auto simp: keeps_def)
  note c = multi_commit_open [OF assms(3) t(1), of mm]
  show ?thesis
  proof (cases "eng_fault E CommitTx")
    case None
    with assms(4) c t(2) show ?thesis by (auto simp: MultiMigration_Commit_def session_Commit_def)
  next
    case (Some err)
    have "(Some err, s\<lparr>ss_tx := None\<rparr>) = (e, s')"
      using assms(4) c Some by (simp add: MultiMigration_Commit_def session_Commit_def)
    with assms(1) show ?thesis by (auto simp: keeps_def)
  qed
qed

lemma stream_stage:
  assumes "keeps d meta s" and "ss_tx s \<noteq> None"
    and "StreamLedgerRange E a b (MultiMigration_Apply E P mm) t \<lparr>ms_session = s, ms_fees = f\<rparr> = (e, st)"
  shows "keeps d meta (ms_session st) \<and> (e = None \<longrightarrow> ss_tx (ms_session st) \<noteq> None)"
proof (cases "eng_fault E (StreamRange a b)")
  case None
  with assms keeps_stream [of d meta "\<lparr>ms_session = s, ms_fees = f\<rparr>" E P mm] show ?thesis
    by (auto simp: StreamLedgerRange_def)
next
  case (Some err)
  have "(Some err, \<lparr>ms_session = s, ms_fees = f\<rparr>) = (e, st)"
    using assms(3) Some by (simp add: StreamLedgerRange_def)
  with assms(1) show ?thesis by auto
qed

lemma init_outcome:
  assumes "mustInitializeStorage E P order cfg s = (e, st)" and "ss_tx s = None"
    and "\<And>k. eng_fault E (ReplaceMeta k) = None"
  defines "d \<equiv> db_tables (ss_db s)"
  shows "e \<noteq> None \<and> db_tables (ss_db (ms_session st)) = d \<or>
    e = None \<and> ss_tx (ms_session st) = None \<and>
    (\<exists>new rest. guards_known E (metadata d) order new \<and>
       metadata (db_tables (ss_db (ms_session st))) = guard_rows (map Guarded new @ rest) (metadata d))"
proof -
  let ?f = "NewFeeWindows (sc_ClassicFeeStatsLedgerRetentionWindow cfg)
    (sc_SorobanFeeStatsLedgerRetentionWindow cfg) (sc_NetworkPassphrase cfg)"
  have start: "keeps d (metadata d) s" using assms(2) by (simp add: keeps_def d_def)
  obtain r1 s1 where g: "GetMigrationLedgerRange E (sc_HistoryRetentionWindow cfg) s = (r1, s1)"
    by fastforce
  note k1 = keeps_GetMigrationLedgerRange [OF start g]
  have d1: "db_tables (ss_db s1) = d" and tx1: "ss_tx s1 = None"
    using k1 assms(2) by (simp_all add: keeps_def)
  show ?thesis
  proof (cases r1)
    case (Inl err)
    with assms(1) g d1 show ?thesis by (auto simp: mustInitializeStorage_def Let_def)
  next
    case r1: (Inr retention)
    obtain r2 s2 where b: "daemon_buildMigrations E order cfg retention s1 = (r2, s2)" by fastforce
    note k2 = daemon_buildMigrations_keeps [OF tx1 b, unfolded d1]
    show ?thesis
    proof (cases r2)
      case (Inl err)
      with assms(1) g r1 b k2 show ?thesis
        by (auto simp: mustInitializeStorage_def Let_def keeps_def)
    next
      case r2: (Inr mm)
      let ?lr = "MultiMigration_ApplicableRange mm"
      obtain e3 st3 where str: "StreamLedgerRange E (sr_First ?lr) (sr_Last ?lr)
          (MultiMigration_Apply E P mm) (session_tables s2) \<lparr>ms_session = s2, ms_fees = ?f\<rparr> =
          (e3, st3)" by fastforce
      obtain e4 s4 where com: "MultiMigration_Commit E mm (ms_session st3) = (e4, s4)" by fastforce
      from k2 r2 obtain new rest where mm: "mm = map Guarded new @ rest"
        and kn: "guards_known E (metadata d) order new" and tx2: "ss_tx s2 \<noteq> None" by blast
      note k3 = stream_stage [OF conjunct1 [OF k2] tx2 str]
      have out: "(e, st) = (if e3 = None then (e4, st3\<lparr>ms_session := s4\<rparr>) else (e3, st3))"
        unfolding assms(1) [symmetric] mustInitializeStorage_def Let_def
        by (cases e3) (simp_all add: g r1 b r2 str com)
      show ?thesis
      proof (cases e3)
        case None
        with out commit_stage [OF conjunct1 [OF k3] _ assms(3) com] k3 kn mm show ?thesis by auto
      next
        case (Some err)
        with out k3 show ?thesis by (auto simp: keeps_def)
      qed
    qed
  qed
qed


definition example_storage_config :: storage_config where
  "example_storage_config = \<lparr>sc_ClassicFeeStatsLedgerRetentionWindow = 1,
     sc_SorobanFeeStatsLedgerRetentionWindow = 1, sc_HistoryRetentionWindow = 3,
     sc_NetworkPassphrase = ''test''\<rparr>"

definition example_session :: "int session" where
  "example_session = \<lparr>ss_db = OpenSQLiteDB three_ledgers, ss_tx = None\<rparr>"


text \<open>C25: A guard that cannot be written breaks that promise: when the first of two migrations
  fails to set its guard, the transaction with the data of both is rolled back, but the guard of
  the second is then written outside any transaction, so its migration counts as done although
  its rows are gone. The call still reports an error.\<close>

theorem migration_guard_without_data:
  assumes "ss_tx s = Some t" and "\<not> gm_alreadyMigrated g1" and "\<not> gm_alreadyMigrated g2"
    and "eng_fault E (ReplaceMeta (gm_guardMetaKey g1)) = Some err"
    and "eng_fault E (ReplaceMeta (gm_guardMetaKey g2)) = None"
  shows "\<exists>s'. MultiMigration_Commit E [Guarded g1, Guarded g2] s = (Some not_in_transaction, s') \<and>
    db_tables (ss_db s') = (db_tables (ss_db s))
      \<lparr>metadata := put_row (gm_guardMetaKey g2) ''true'' (metadata (db_tables (ss_db s)))\<rparr>"
  using assms
  by (simp add: MultiMigration_Commit_def guarded_Commit_def session_write_def setMetaBool_def
      exec_write_def exec_stmt_def session_Rollback_def session_Commit_def FormatBool_def)

theorem migration_guard_without_data_witness:
  "\<exists>s'. MultiMigration_Commit
       \<lparr>eng_fault = (\<lambda>x. if x = ReplaceMeta (guard_key TransactionsTable) then Some (Err ''disk full'') else None),
        eng_order = (\<lambda>n. [0..<n])\<rparr>
       [Guarded (example_guarded TransactionsTable), Guarded (example_guarded EventsTable)]
       (example_session\<lparr>ss_tx := Some three_ledgers\<rparr>) = (Some not_in_transaction, s') \<and>
     metadata (db_tables (ss_db s')) = [(guard_key EventsTable, ''true'')]"
proof -
  let ?E = "\<lparr>eng_fault = (\<lambda>x. if x = ReplaceMeta (guard_key TransactionsTable)
      then Some (Err ''disk full'') else None), eng_order = (\<lambda>n. [0..<n])\<rparr>"
  have f: "eng_fault ?E (ReplaceMeta (gm_guardMetaKey (example_guarded TransactionsTable))) = Some (Err ''disk full'')"
    "eng_fault ?E (ReplaceMeta (gm_guardMetaKey (example_guarded EventsTable))) = None"
    by (simp_all add: example_guarded_def guard_key_def)
  have g: "\<not> gm_alreadyMigrated (example_guarded k)" for k by (simp add: example_guarded_def)
  have tx: "ss_tx (example_session\<lparr>ss_tx := Some three_ledgers\<rparr>) = Some three_ledgers" by simp
  from migration_guard_without_data [OF tx g g f] show ?thesis
    by (force simp: example_session_def OpenSQLiteDB_def three_ledgers_def empty_tables_def
        example_guarded_def)
qed

end
