(* ===== verification/Ingest.thy ===== *)
theory Ingest
  imports StoreTx
begin

text \<open>
  \<^verbatim>\<open>ingest/service.go\<close>: the service that follows the network. It asks the database, or on an
  empty one the history archive, where to start, then fetches one ledger after the other and
  writes each in a transaction of its own, fees included. The ledger backend and the archive
  are parameters. The loop of \<^verbatim>\<open>run\<close> never ends by itself: it is the step relation
  \<open>service_step\<close>, in which a failed ledger sends the service back to the start, as the
  retries of \<^verbatim>\<open>startService\<close> do.
\<close>

subsection \<open>Parameters and state\<close>

record 'v network =
  nw_GetRootHAS :: "u32 res"
    \<comment> \<open>\<^verbatim>\<open>archive.GetRootHAS().CurrentLedger\<close>\<close>
  nw_PrepareRange :: "u32 \<Rightarrow> go_error option"
  nw_GetLedger :: "u32 \<Rightarrow> 'v LedgerCloseMeta res"

record 'v Service =
  sv_db :: "'v DB"
  sv_feeWindows :: FeeWindows

definition errEmptyArchives :: go_error where
  "errEmptyArchives = Err (''cannot start ingestion without history archives, '' @
     ''wait until first history archives are published'')"

subsection \<open>Operations\<close>

definition getNextLedgerSequence ::
  "engine \<Rightarrow> 'v network \<Rightarrow> 'v Service \<Rightarrow> u32 res \<times> 'v Service" where
  "getNextLedgerSequence E N s =
     (case getLatestLedgerSequence E (sv_db s) of (r, db1) \<Rightarrow>
      let s1 = s\<lparr>sv_db := db1\<rparr>;
          next = (case r of
             Inr curLedgerSeq \<Rightarrow> Inr (curLedgerSeq + 1)
           | Inl err \<Rightarrow>
               if err = ErrEmptyDB then
                 bind_res (nw_GetRootHAS N)
                   (\<lambda>current. if current = 0 then Inl errEmptyArchives else Inr current)
               else Inl err)
      in (bind_res next (\<lambda>n. case nw_PrepareRange N n of Some e \<Rightarrow> Inl e | None \<Rightarrow> Inr n), s1))"

text \<open>
  The fee windows are updated inside the database transaction but are not part of it. The
  session they would roll back holds no transaction of its own during ingestion.
\<close>

definition ingestLedgerCloseMeta ::
  "engine \<Rightarrow> 'v pkgs \<Rightarrow> 'v LedgerCloseMeta \<Rightarrow> 'v writeTx \<Rightarrow> FeeWindows \<Rightarrow>
   go_error option \<times> 'v writeTx \<times> FeeWindows" where
  "ingestLedgerCloseMeta E P meta w fees =
     (case in_tx (InsertLedger E meta) w of
        (Some e, w1) \<Rightarrow> (Some e, w1, fees)
      | (None, w1) \<Rightarrow>
     (case in_tx (InsertTransactions E (w_txWriter w1) meta) w1 of
        (Some e, w2) \<Rightarrow> (Some e, w2, fees)
      | (None, w2) \<Rightarrow>
     (case in_tx (InsertEvents E P (w_eventWriter w2) meta) w2 of
        (Some e, w3) \<Rightarrow> (Some e, w3, fees)
      | (None, w3) \<Rightarrow>
     (case IngestFees (Some not_in_transaction) fees meta of
        (e, fees') \<Rightarrow> (e, w3, fees')))))"

text \<open>The deferred rollback only logs its error.\<close>

definition ingest ::
  "engine \<Rightarrow> 'v pkgs \<Rightarrow> readWriter \<Rightarrow> 'v network \<Rightarrow> u32 \<Rightarrow> 'v Service \<Rightarrow>
   go_error option \<times> 'v Service" where
  "ingest E P rw N sequence s =
     (case nw_GetLedger N sequence of
        Inl e \<Rightarrow> (Some e, s)
      | Inr ledgerCloseMeta \<Rightarrow>
     (case NewTx E rw (sv_db s) of
        Inl e \<Rightarrow> (Some e, s)
      | Inr tx \<Rightarrow>
     (case ingestLedgerCloseMeta E P ledgerCloseMeta tx (sv_feeWindows s) of
        (Some e, tx1, fees) \<Rightarrow>
          (case Rollback E tx1 of (_, _) \<Rightarrow> (Some e, s\<lparr>sv_feeWindows := fees\<rparr>))
      | (None, tx1, fees) \<Rightarrow>
     (case Commit E (pk_toid P) ledgerCloseMeta tx1 (sv_db s) of
        (e, tx2, db') \<Rightarrow>
          (case Rollback E tx2 of (_, _) \<Rightarrow>
             (e, s\<lparr>sv_db := db', sv_feeWindows := fees\<rparr>))))))"

text \<open>\<^verbatim>\<open>run\<close> up to a number of ledgers: the error that ended it, or the next sequence.\<close>

fun run_from ::
  "nat \<Rightarrow> engine \<Rightarrow> 'v pkgs \<Rightarrow> readWriter \<Rightarrow> 'v network \<Rightarrow> u32 \<Rightarrow> 'v Service \<Rightarrow>
   u32 res \<times> 'v Service" where
  "run_from 0 E P rw N nextLedgerSeq s = (Inr nextLedgerSeq, s)"
| "run_from (Suc n) E P rw N nextLedgerSeq s =
     (case ingest E P rw N nextLedgerSeq s of
        (Some e, s1) \<Rightarrow> (Inl e, s1)
      | (None, s1) \<Rightarrow> run_from n E P rw N (nextLedgerSeq + 1) s1)"

definition run ::
  "nat \<Rightarrow> engine \<Rightarrow> 'v pkgs \<Rightarrow> readWriter \<Rightarrow> 'v network \<Rightarrow> 'v Service \<Rightarrow> u32 res \<times> 'v Service" where
  "run n E P rw N s =
     (case getNextLedgerSequence E N s of
        (Inl e, s1) \<Rightarrow> (Inl e, s1)
      | (Inr nextLedgerSeq, s1) \<Rightarrow> run_from n E P rw N nextLedgerSeq s1)"

subsection \<open>The service as a state machine\<close>

datatype phase = Starting | Following u32

text \<open>
  What the service relies on of the network: asked for a ledger, the backend answers that
  ledger, whose number is a positive \<^verbatim>\<open>int32\<close> and whose transactions are few enough for
  their order to fit a total-order identifier.
\<close>

definition network_ok :: "'v network \<Rightarrow> u32 \<Rightarrow> string \<Rightarrow> bool" where
  "network_ok N n passphrase \<longleftrightarrow> (\<forall>m. nw_GetLedger N n = Inr m \<longrightarrow>
     lcm_LedgerSequence m = n \<and> 0 < n \<and> unat n + 1 < 2 ^ 31 \<and>
     (\<forall>reads. lcm_Reader m passphrase = Inr reads \<longrightarrow> ledger_fits m reads))"

inductive service_step ::
  "'v pkgs \<Rightarrow> readWriter \<Rightarrow> phase \<times> 'v Service \<Rightarrow> phase \<times> 'v Service \<Rightarrow> bool"
  for P :: "'v pkgs" and rw :: readWriter where
  start: "getNextLedgerSequence E N s = (Inr n, s') \<Longrightarrow>
    service_step P rw (Starting, s) (Following n, s')"
| start_failed: "getNextLedgerSequence E N s = (Inl e, s') \<Longrightarrow>
    service_step P rw (Starting, s) (Starting, s')"
| ingested: "ingest E P rw N n s = (None, s') \<Longrightarrow> network_ok N n (rw_passphrase rw) \<Longrightarrow>
    service_step P rw (Following n, s) (Following (n + 1), s')"
| ingest_failed: "ingest E P rw N n s = (Some e, s') \<Longrightarrow> network_ok N n (rw_passphrase rw) \<Longrightarrow>
    service_step P rw (Following n, s) (Starting, s')"

subsection \<open>Invariant of the store\<close>

text \<open>The stored ledgers have consecutive numbers.\<close>

definition gap_free :: "'v tables \<Rightarrow> bool" where
  "gap_free t \<longleftrightarrow> (\<exists>a b. map (\<lambda>(k, m). unat k) (ledger_close_meta t) = [a ..< b])"

text \<open>The indexes only point at stored ledgers.\<close>

definition index_ok :: "'v tables \<Rightarrow> bool" where
  "index_ok t \<longleftrightarrow> tx_seqs t \<union> event_seqs t \<subseteq> ledger_seqs t"

definition store_inv :: "'v tables \<Rightarrow> bool" where
  "store_inv t \<longleftrightarrow> store_ok t \<and> gap_free t \<and> index_ok t"

text \<open>The service asks next for the ledger after the newest one.\<close>

definition expects :: "'v tables \<Rightarrow> u32 \<Rightarrow> bool" where
  "expects t n \<longleftrightarrow> ledger_close_meta t \<noteq> [] \<longrightarrow> n = fst (last (ledger_close_meta t)) + 1"

fun service_inv :: "phase \<times> 'v Service \<Rightarrow> bool" where
  "service_inv (ph, s) \<longleftrightarrow> store_inv (db_tables (sv_db s)) \<and> db_ok (sv_db s) \<and>
     (case ph of Starting \<Rightarrow> True | Following n \<Rightarrow> expects (db_tables (sv_db s)) n)"

lemma filter_upt_ge: "filter (\<lambda>x. c \<le> x) [a ..< b] = [max a c ..< b]"
proof (induction b)
  case (Suc b)
  then show ?case by (cases "a \<le> b") (auto simp: max_def)
qed simp

lemma gap_free_trim:
  assumes "gap_free t" and "trimLedgers E l w t = (None, t')" and "unat l + 1 < 2 ^ 31"
  shows "gap_free t'"
  using assms(2)
proof (cases rule: trimLedgers_cases)
  case cut
  let ?u = "\<lambda>(k, m). unat k"
  obtain a b where ab: "map ?u (ledger_close_meta t) = [a ..< b]"
    using assms(1) by (auto simp: gap_free_def)
  have "map ?u (ledger_close_meta t') =
      filter (\<lambda>x. unat (l + 1 - w) \<le> x) (map ?u (ledger_close_meta t))"
    by (simp add: cut(3) delete_rows_def filter_map comp_def split_def word_less_nat_alt not_less)
  then have "map ?u (ledger_close_meta t') = [max a (unat (l + 1 - w)) ..< b]"
    by (simp only: ab filter_upt_ge)
  then show ?thesis by (auto simp: gap_free_def)
qed (use assms(1) in auto)

lemma gap_free_append:
  assumes "gap_free t" and "expects t n" and "0 < n"
    and "ledger_close_meta t' = ledger_close_meta t @ [(n, m)]"
  shows "gap_free t'"
proof (cases "ledger_close_meta t = []")
  case True
  with assms(4) have "map (\<lambda>(k, m). unat k) (ledger_close_meta t') = [unat n ..< Suc (unat n)]"
    by simp
  then show ?thesis unfolding gap_free_def by blast
next
  case False
  let ?u = "\<lambda>(k, m). unat k"
  obtain a b where ab: "map ?u (ledger_close_meta t) = [a ..< b]"
    using assms(1) by (auto simp: gap_free_def)
  then have "a < b" using False by (metis list.map_disc_iff upt_eq_Nil_conv not_le)
  have "unat (fst (last (ledger_close_meta t))) = last (map ?u (ledger_close_meta t))"
    using False by (simp add: last_map case_prod_beta)
  also have "\<dots> = b - 1" using ab \<open>a < b\<close> by simp
  finally have l: "unat (fst (last (ledger_close_meta t))) = b - 1" .
  have n: "n = fst (last (ledger_close_meta t)) + 1" using assms(2) False by (simp add: expects_def)
  then have "unat n = Suc (unat (fst (last (ledger_close_meta t))))"
    using assms(3) by (metis unat_Suc_nonzero less_irrefl)
  then have "unat n = b" using l \<open>a < b\<close> by simp
  then have "map ?u (ledger_close_meta t') = [a ..< Suc b]"
    using ab \<open>a < b\<close> assms(4) by simp
  then show ?thesis unfolding gap_free_def by blast
qed

lemma expects_greater:
  assumes "table_ok (ledger_close_meta t)" and "expects t n" and "0 < n"
  shows "\<forall>x \<in> set (ledger_close_meta t). fst x < n"
proof
  fix x
  assume x: "x \<in> set (ledger_close_meta t)"
  then have n: "n = fst (last (ledger_close_meta t)) + 1"
    using assms(2) by (auto simp: expects_def)
  have "fst x \<le> fst (last (ledger_close_meta t))"
    using table_ok_last_greatest [OF assms(1), of "fst x" "snd x"] x by simp
  moreover have "unat n = Suc (unat (fst (last (ledger_close_meta t))))"
    using n assms(3) unat_Suc_nonzero by auto
  ultimately show "fst x < n" by (simp add: word_le_nat_alt word_less_nat_alt)
qed

lemma InsertTransactions_index:
  fixes m :: "'v LedgerCloseMeta"
  assumes "InsertTransactions E h m t = (e, t')" and "table_ok (transactions t)"
  shows "table_ok (transactions t') \<and> tx_seqs t' \<subseteq> insert (lcm_LedgerSequence m) (tx_seqs t) \<and>
    events t' = events t"
proof -
  have "t' = t \<or> (\<exists>(txs :: (bytes \<rightharpoonup> 'v LedgerTransaction) \<times> bytes list) tbl. t' = t\<lparr>transactions := tbl\<rparr> \<and>
      insert_rows (lookup_rows (lcm_LedgerSequence m) txs) (transactions t) = Inr tbl)"
  proof (cases "bind_res (lcm_Reader m (th_passphrase h))
      (\<lambda>reads. read_lookups 0 (lcm_CountTransactions m) reads (Map.empty, []))")
    case (Inl err)
    with assms(1) show ?thesis
      by (cases "lcm_Reader m (th_passphrase h)")
        (auto simp: InsertTransactions_def Let_def split: if_splits)
  next
    case (Inr txs)
    then obtain reads where r: "lcm_Reader m (th_passphrase h) = Inr reads"
      "read_lookups 0 (lcm_CountTransactions m) reads (Map.empty, []) = Inr txs"
      by (auto simp: bind_res_Inr_iff)
    show ?thesis
    proof (cases "th_stmtCache h \<and> lcm_CountTransactions m \<noteq> 0")
      case True
      with assms(1) r have "exec_write E (InsertTransactionRows (lcm_LedgerSequence m))
         (\<lambda>t. bind_res (insert_rows (lookup_rows (lcm_LedgerSequence m) txs) (transactions t))
            (\<lambda>tbl. Inr (t\<lparr>transactions := tbl\<rparr>))) t = (e, t')"
        by (simp add: InsertTransactions_def Let_def)
      then show ?thesis
      proof (cases rule: exec_write_cases)
        case ok
        from ok(2) obtain tbl where
          "insert_rows (lookup_rows (lcm_LedgerSequence m) txs) (transactions t) = Inr tbl"
          "t' = t\<lparr>transactions := tbl\<rparr>"
          by (auto simp: bind_res_Inr_iff)
        then show ?thesis by blast
      qed simp
    next
      case False
      with assms(1) show ?thesis by (auto simp: InsertTransactions_def Let_def split: if_splits)
    qed
  qed
  then consider (same) "t' = t"
    | (rows) txs :: "(bytes \<rightharpoonup> 'v LedgerTransaction) \<times> bytes list" and tbl where
        "insert_rows (lookup_rows (lcm_LedgerSequence m) txs) (transactions t) = Inr tbl"
        "t' = t\<lparr>transactions := tbl\<rparr>"
    by blast
  then show ?thesis
  proof cases
    case same
    with assms(2) show ?thesis by auto
  next
    case rows
    have "set tbl = set (transactions t) \<union> set (lookup_rows (lcm_LedgerSequence m) txs)"
      by (rule insert_rows_set [OF assms(2) rows(1)])
    moreover have "table_ok tbl" using insert_rows_find [OF assms(2) rows(1)] by simp
    ultimately show ?thesis
      by (auto simp: rows(2) tx_seqs_def lookup_rows_def)
  qed
qed

lemma InsertEvents_index:
  assumes "InsertEvents E P h m t = (e, t')" and "events_ok (events t)" and "toid_spec (pk_toid P)"
    and "\<And>reads. lcm_Reader m (eh_passphrase h) = Inr reads \<Longrightarrow> ledger_fits m reads"
  shows "events_ok (events t') \<and> event_seqs t' \<subseteq> insert (lcm_LedgerSequence m) (event_seqs t) \<and>
    transactions t' = transactions t"
proof -
  consider (same) "t' = t"
    | (reads) reads where "lcm_Reader m (eh_passphrase h) = Inr reads"
        "insert_tx_events E P m reads t = (e, t')"
    using assms(1) by (auto simp: InsertEvents_def split: if_splits sum.splits)
  then show ?thesis
  proof cases
    case same
    with assms(2) show ?thesis by auto
  next
    case reads
    from insert_tx_events_ok [OF assms(3) assms(4) [OF reads(1)] assms(2) reads(2)]
      insert_tx_events_ledgers [OF reads(2)]
    show ?thesis by simp
  qed
qed

lemma in_tx_Some:
  "w_tables w = Some t \<Longrightarrow> in_tx f w = (e, w') \<longleftrightarrow> (\<exists>t'. f t = (e, t') \<and> w' = w\<lparr>w_tables := Some t'\<rparr>)"
  by (auto simp: in_tx_def split: prod.splits)

lemma ingestLedgerCloseMeta_None:
  assumes "ingestLedgerCloseMeta E P m w fees = (None, w', fees')" and "w_tables w = Some t"
  shows "\<exists>t1 t2 t3. InsertLedger E m t = (None, t1) \<and>
    InsertTransactions E (w_txWriter w) m t1 = (None, t2) \<and>
    InsertEvents E P (w_eventWriter w) m t2 = (None, t3) \<and> w' = w\<lparr>w_tables := Some t3\<rparr> \<and>
    IngestFees (Some not_in_transaction) fees m = (None, fees')"
proof -
  obtain e1 t1 where i1: "InsertLedger E m t = (e1, t1)" by fastforce
  with assms have e1: "e1 = None"
    by (cases e1) (simp_all add: ingestLedgerCloseMeta_def in_tx_def)
  obtain e2 t2 where i2: "InsertTransactions E (w_txWriter w) m t1 = (e2, t2)" by fastforce
  with assms i1 e1 have e2: "e2 = None"
    by (cases e2) (simp_all add: ingestLedgerCloseMeta_def in_tx_def)
  obtain e3 t3 where i3: "InsertEvents E P (w_eventWriter w) m t2 = (e3, t3)" by fastforce
  with assms i1 e1 i2 e2 have e3: "e3 = None"
    by (cases e3) (simp_all add: ingestLedgerCloseMeta_def in_tx_def)
  obtain e4 f4 where i4: "IngestFees (Some not_in_transaction) fees m = (e4, f4)" by fastforce
  from assms i1 e1 i2 e2 i3 e3 i4 show ?thesis
    by (simp add: ingestLedgerCloseMeta_def in_tx_def)
qed

text \<open>A ledger written in full extends the store by that ledger.\<close>

lemma ingested_tables:
  assumes "ingestLedgerCloseMeta E P m w fees = (None, w', fees')" and "w_tables w = Some t"
    and "store_inv t" and "expects t (lcm_LedgerSequence m)" and "toid_spec (pk_toid P)"
    and "0 < lcm_LedgerSequence m"
    and "\<And>reads. lcm_Reader m (eh_passphrase (w_eventWriter w)) = Inr reads \<Longrightarrow> ledger_fits m reads"
  shows "\<exists>t3. w_tables w' = Some t3 \<and> w_historyRetentionWindow w' = w_historyRetentionWindow w \<and>
    store_inv t3 \<and> ledger_close_meta t3 = ledger_close_meta t @ [(lcm_LedgerSequence m, m)]"
proof -
  let ?n = "lcm_LedgerSequence m"
  from ingestLedgerCloseMeta_None [OF assms(1,2)] obtain t1 t2 t3 where
    i1: "InsertLedger E m t = (None, t1)" and
    i2: "InsertTransactions E (w_txWriter w) m t1 = (None, t2)" and
    i3: "InsertEvents E P (w_eventWriter w) m t2 = (None, t3)" and w': "w' = w\<lparr>w_tables := Some t3\<rparr>"
    by blast
  from assms(3) have ok: "ledgers_ok (ledger_close_meta t)" "table_ok (transactions t)"
    "events_ok (events t)" "table_ok (metadata t)" "gap_free t" "index_ok t"
    by (simp_all add: store_inv_def store_ok_def)
  note l1 = InsertLedger_ok [OF ok(1) i1]
  have less: "\<forall>x \<in> set (ledger_close_meta t). fst x < ?n"
    using ok(1) assms(4,6) by (intro expects_greater) (simp_all add: ledgers_ok_def)
  have led: "ledger_close_meta t1 = ledger_close_meta t @ [(?n, m)]"
    using put_row_append [OF less] by (simp add: l1(2))
  have k1: "transactions t1 = transactions t" "events t1 = events t" "metadata t1 = metadata t"
    by (simp_all add: l1(2))
  note l2 = InsertTransactions_index [OF i2 ok(2) [folded k1]]
    InsertTransactions_ledgers [OF i2] InsertTransactions_metadata [OF i2]
  have ev2: "events_ok (events t2)" using l2 ok(3) k1 by simp
  note l3 = InsertEvents_index [OF i3 ev2 assms(5,7)] InsertEvents_ledgers [OF i3]
    InsertEvents_metadata [OF i3]
  have led3: "ledger_close_meta t3 = ledger_close_meta t @ [(?n, m)]"
    using l3 l2 led by simp
  have "store_ok t3"
    using l1(3) l2 l3 ok(4) k1 by (simp add: store_ok_def)
  moreover have "gap_free t3" by (rule gap_free_append [OF ok(5) assms(4,6) led3])
  moreover have "index_ok t3"
  proof -
    have "ledger_seqs t3 = insert ?n (ledger_seqs t)" by (simp add: ledger_seqs_def led3)
    moreover have "tx_seqs t3 \<subseteq> insert ?n (tx_seqs t)"
      using l2 l3 k1 by (simp add: tx_seqs_def)
    moreover have "event_seqs t3 \<subseteq> insert ?n (event_seqs t)"
      using l2 l3 k1 by (simp add: event_seqs_def)
    ultimately show ?thesis using ok(6) by (auto simp: index_ok_def)
  qed
  ultimately show ?thesis using led3 w' by (auto simp: store_inv_def)
qed

subsection \<open>Every step keeps the invariant\<close>

lemma expects_last:
  assumes "ledgers_ok (ledger_close_meta t)" and "ledger_close_meta t \<noteq> []"
    and "lcm_LedgerSequence (snd (last (ledger_close_meta t))) = k"
  shows "expects t (k + 1)"
  using ledgers_ok_last [OF assms(1,2)] assms(3) by (simp add: expects_def)

lemma range_error_empty:
  assumes "ledgers_ok (ledger_close_meta t)"
    and "getLedgerRangeWithoutCache E t = Inl ErrEmptyDB"
  shows "ledger_close_meta t = []"
proof (cases "eng_fault E SelectLedgerBounds")
  case None
  with assms range_without_cache [of t E] show ?thesis by (auto simp: ledgers_ok_def)
next
  case (Some err)
  with assms(2) show ?thesis
    by (cases err) (simp_all add: getLedgerRangeWithoutCache_def exec_stmt_def Let_def
        ErrEmptyDB_def couldnt_def)
qed

lemma getLatestLedgerSequence_cases:
  assumes "getLatestLedgerSequence E db = (r, db')" and "db_ok db"
  shows "db_ok db' \<and> db_tables db' = db_tables db \<and>
    (\<forall>k. r = Inr k \<longrightarrow> expects (db_tables db) (k + 1)) \<and>
    (r = Inl ErrEmptyDB \<longrightarrow> ledger_close_meta (db_tables db) = [])"
proof (cases "dc_latestLedgerSeq (db_cache db) = 0")
  case False
  with assms(1) have r: "r = Inr (dc_latestLedgerSeq (db_cache db))" "db' = db"
    by (auto simp: getLatestLedgerSequence_def)
  from False assms(2) have "expects (db_tables db) (dc_latestLedgerSeq (db_cache db) + 1)"
    by (intro expects_last) (simp_all add: db_ok_def coherent_def ledger_info_def)
  with r assms(2) show ?thesis by simp
next
  case True
  have ok: "ledgers_ok (ledger_close_meta (db_tables db))" using assms(2) by (simp add: db_ok_def)
  show ?thesis
  proof (cases "getLedgerRangeWithoutCache E (db_tables db)")
    case (Inl err)
    with True assms(1) have "r = Inl err" "db' = db"
      by (simp_all add: getLatestLedgerSequence_def reader_GetLedgerRange_def)
    with range_error_empty [OF ok] Inl assms(2) show ?thesis by auto
  next
    case (Inr rng)
    with True assms(1) have r: "r = Inr (li_Sequence (lr_LastLedger rng))" "db' = fill_cache rng db"
      by (simp_all add: getLatestLedgerSequence_def reader_GetLedgerRange_def)
    note last = range_last [OF ok Inr]
    then have "expects (db_tables db) (li_Sequence (lr_LastLedger rng) + 1)"
      by (intro expects_last [OF ok]) (simp_all add: ledger_info_def)
    moreover have "db_ok db'" unfolding r(2) using assms(2) last by (intro fill_cache_ok) auto
    moreover have "db_tables db' = db_tables db" by (simp add: r(2) fill_cache_def)
    ultimately show ?thesis using r(1) by simp
  qed
qed

lemma getNextLedgerSequence_inv:
  assumes "getNextLedgerSequence E N s = (r, s')" and "service_inv (Starting, s)"
  shows "service_inv (case r of Inl e \<Rightarrow> Starting | Inr n \<Rightarrow> Following n, s')"
proof -
  obtain r1 db1 where g: "getLatestLedgerSequence E (sv_db s) = (r1, db1)" by fastforce
  have ok: "db_ok (sv_db s)" using assms(2) by simp
  note l = getLatestLedgerSequence_cases [OF g ok]
  have s': "s' = s\<lparr>sv_db := db1\<rparr>"
    using assms(1) g by (simp add: getNextLedgerSequence_def Let_def)
  have "expects (db_tables (sv_db s)) n" if "r = Inr n" for n
  proof (cases r1)
    case (Inr k)
    with that assms(1) g l show ?thesis
      by (auto simp: getNextLedgerSequence_def Let_def split: option.splits)
  next
    case (Inl err)
    with that assms(1) g have "err = ErrEmptyDB"
      by (auto simp: getNextLedgerSequence_def Let_def split: if_splits)
    with Inl l show ?thesis by (simp add: expects_def)
  qed
  with assms(2) l s' show ?thesis by (auto split: sum.splits)
qed

lemma committed_inv:
  assumes "committed T m w db db'" and "w_tables w = Some t" and "store_inv t" and "toid_spec T"
    and "unat (lcm_LedgerSequence m) + 1 < 2 ^ 31" and "0 < w_historyRetentionWindow w"
    and "ledger_close_meta t = ts @ [(lcm_LedgerSequence m, m)]"
  shows "store_inv (db_tables db') \<and> db_ok db' \<and>
    expects (db_tables db') (lcm_LedgerSequence m + 1) \<and>
    ledger_close_meta (db_tables db') \<noteq> [] \<and>
    last (ledger_close_meta (db_tables db')) = (lcm_LedgerSequence m, m)"
proof -
  let ?l = "lcm_LedgerSequence m" and ?w = "w_historyRetentionWindow w"
  from assms(1,2) obtain E t' where tr: "trims E T ?l ?w t = (None, t')" and t': "db_tables db' = t'"
    by (auto simp: committed_def)
  from assms(3) have ok: "store_ok t" "ledgers_ok (ledger_close_meta t)" "gap_free t" "index_ok t"
    by (simp_all add: store_inv_def store_ok_def)
  note ex = trims_exact [OF tr assms(4) ok(1) assms(5)]
  from trims_ledgers [OF tr] obtain t1 where
    t1: "trimLedgers E ?l ?w t = (None, t1)" "ledger_close_meta t' = ledger_close_meta t1" by blast
  have "gap_free t'"
    using gap_free_trim [OF ok(3) t1(1) assms(5)] t1(2) by (simp add: gap_free_def)
  moreover have "index_ok t'" using ok(4) ex(1-3) by (auto simp: index_ok_def)
  moreover have "db_ok db'"
    using committed_db_ok [OF assms(1,2) ok(2) assms(5,6)] assms(7) by simp
  moreover have "last (ledger_close_meta t') = (?l, m) \<and> ledger_close_meta t' \<noteq> []"
    using trimLedgers_keeps_last [OF t1(1) assms(5,6)] assms(7) t1(2) by auto
  ultimately show ?thesis using ex(4) t' by (simp add: store_inv_def expects_def)
qed

text \<open>Whatever happens during one call of \<^verbatim>\<open>ingest\<close>, the database is either as before or
  holds one more ledger.\<close>

lemma ingest_inv:
  assumes "ingest E P rw N n s = (e, s')" and "service_inv (Following n, s)"
    and "network_ok N n (rw_passphrase rw)" and "toid_spec (pk_toid P)"
    and "0 < rw_historyRetentionWindow rw"
  shows "e \<noteq> None \<and> sv_db s' = sv_db s \<or> service_inv (Following (n + 1), s')"
proof (cases "nw_GetLedger N n")
  case (Inl err)
  with assms(1) show ?thesis by (auto simp: ingest_def)
next
  case (Inr m)
  with assms(3) have n: "lcm_LedgerSequence m = n" "0 < n" "unat n + 1 < 2 ^ 31"
    "\<And>reads. lcm_Reader m (rw_passphrase rw) = Inr reads \<Longrightarrow> ledger_fits m reads"
    by (auto simp: network_ok_def)
  show ?thesis
  proof (cases "NewTx E rw (sv_db s)")
    case (Inl err)
    with assms(1) \<open>nw_GetLedger N n = Inr m\<close> show ?thesis by (auto simp: ingest_def)
  next
    case (Inr w)
    then have w: "w_tables w = Some (db_tables (sv_db s))"
      "w_historyRetentionWindow w = rw_historyRetentionWindow rw"
      "eh_passphrase (w_eventWriter w) = rw_passphrase rw"
      by (auto simp: NewTx_def split: option.splits)
    obtain e1 w1 fees where i: "ingestLedgerCloseMeta E P m w (sv_feeWindows s) = (e1, w1, fees)"
      by (metis prod_cases3)
    show ?thesis
    proof (cases e1)
      case (Some err)
      with i Inr assms(1) \<open>nw_GetLedger N n = Inr m\<close> show ?thesis
        by (auto simp: ingest_def split: prod.splits)
    next
      case None
      have "store_inv (db_tables (sv_db s))" "expects (db_tables (sv_db s)) (lcm_LedgerSequence m)"
        using assms(2) n(1) by simp_all
      from ingested_tables [OF i [unfolded None] w(1) this assms(4)] obtain t3 where
        t3: "w_tables w1 = Some t3" "w_historyRetentionWindow w1 = rw_historyRetentionWindow rw"
          "store_inv t3" "ledger_close_meta t3 = ledger_close_meta (db_tables (sv_db s)) @ [(n, m)]"
        using n w by auto
      obtain e2 w2 db2 where c: "Commit E (pk_toid P) m w1 (sv_db s) = (e2, w2, db2)"
        by (metis prod_cases3)
      have s': "e = e2" "sv_db s' = db2"
        using assms(1) Inr i None c \<open>nw_GetLedger N n = Inr m\<close>
        by (auto simp: ingest_def split: prod.splits)
      from c show ?thesis
      proof (cases rule: Commit_cases)
        case written
        from committed_inv [OF written(1) t3(1,3) assms(4)] t3(2,4) n assms(5) s' show ?thesis
          by simp
      qed (use s' in simp)
    qed
  qed
qed

lemma service_step_inv:
  assumes "service_step P rw (ph, s) (ph', s')" and "service_inv (ph, s)"
    and "toid_spec (pk_toid P)" and "0 < rw_historyRetentionWindow rw"
  shows "service_inv (ph', s')"
  using assms(1)
proof (cases rule: service_step.cases)
  case (start E N n)
  with getNextLedgerSequence_inv [OF start(3)] assms(2) show ?thesis by simp
next
  case (start_failed E N e)
  with getNextLedgerSequence_inv [OF start_failed(3)] assms(2) show ?thesis by simp
next
  case (ingested E N n)
  with ingest_inv [OF ingested(3) _ ingested(4) assms(3,4)] assms(2) show ?thesis by simp
next
  case (ingest_failed E N n e)
  with ingest_inv [OF ingest_failed(3) _ ingest_failed(4) assms(3,4)] assms(2) show ?thesis by auto
qed

lemma service_reachable_inv:
  assumes "(service_step P rw)\<^sup>*\<^sup>* (ph, s) (ph', s')" and "service_inv (ph, s)"
    and "toid_spec (pk_toid P)" and "0 < rw_historyRetentionWindow rw"
  shows "service_inv (ph', s')"
  using assms(1)
proof (induction rule: rtranclp_induct2)
  case (step ph1 s1 ph2 s2)
  from service_step_inv [OF step.hyps(2) step.IH assms(3,4)] show ?case .
qed (rule assms(2))

subsection \<open>Progress\<close>

text \<open>
  What makes a ledger of the network acceptable: its transactions can be read, their hashes are
  new, their events and fees decode.
\<close>

definition ledger_valid ::
  "'v pkgs \<Rightarrow> string \<Rightarrow> 'v tables \<Rightarrow> 'v LedgerCloseMeta \<Rightarrow> 'v LedgerTransaction list \<Rightarrow> bool" where
  "ledger_valid P passphrase t m txs \<longleftrightarrow>
     reads_txs passphrase m txs \<and> length txs < 2 ^ 20 \<and> distinct (all_hashes txs) \<and>
     (\<forall>h \<in> set (all_hashes txs). map_of (transactions t) h = None) \<and>
     (\<forall>tx \<in> set txs. tx_storable P tx)"

definition fees_valid :: "FeeWindows \<Rightarrow> 'v LedgerCloseMeta \<Rightarrow> bool" where
  "fees_valid fw m \<longleftrightarrow> fee_windows_inv fw \<and>
     next_seq (fw_contents (fws_ClassicFeeWindow fw)) \<in> {None, Some (lcm_LedgerSequence m)} \<and>
     (\<exists>cs ss. bind_res (lcm_Reader m (fws_networkPassPhrase fw)) collect_fees = Inr (cs, ss) \<and>
        fees_small fw cs ss)"

lemma reads_txs_fits:
  assumes "reads_txs passphrase m txs" and "length txs < 2 ^ 20"
    and "unat (lcm_LedgerSequence m) + 1 < 2 ^ 31"
  shows "ledger_fits m (map Inr txs)"
proof -
  have "uint (lcm_LedgerSequence m) < 2 ^ 31"
    using assms(3) valid_ledger_cursor [of "lcm_LedgerSequence m"] by (simp add: valid_cursor_def)
  with reads_txs_sorted(2) [OF assms(1,2)] show ?thesis by (auto simp: ledger_fits_def)
qed

lemma seqs_before:
  assumes "store_inv t" and "expects t n" and "0 < n"
  shows "\<forall>k \<in> ledger_seqs t \<union> tx_seqs t \<union> event_seqs t. k < n"
  using expects_greater [of t n] assms
  by (auto simp: store_inv_def store_ok_def ledgers_ok_def index_ok_def ledger_seqs_def)

lemma ingestLedgerCloseMeta_succeeds:
  assumes "no_faults E" and "toid_spec (pk_toid P)" and "store_inv t" and "w_tables w = Some t"
    and "expects t (lcm_LedgerSequence m)" and "0 < lcm_LedgerSequence m"
    and "unat (lcm_LedgerSequence m) + 1 < 2 ^ 31"
    and "th_passphrase (w_txWriter w) = pass" and "eh_passphrase (w_eventWriter w) = pass"
    and "th_stmtCache (w_txWriter w)" and "eh_stmtCache (w_eventWriter w)"
    and "ledger_valid P pass t m txs" and "fees_valid fw m"
  shows "\<exists>w' fw'. ingestLedgerCloseMeta E P m w fw = (None, w', fw')"
proof -
  let ?n = "lcm_LedgerSequence m"
  have nf: "eng_fault E st = None" for st using assms(1) by (simp add: no_faults_def)
  note lv = assms(12) [unfolded ledger_valid_def] and before = seqs_before [OF assms(3,5,6)]
  have ok: "ledgers_ok (ledger_close_meta t)" "table_ok (transactions t)" "events_ok (events t)"
    using assms(3) by (simp_all add: store_inv_def store_ok_def)
  have "map_of (ledger_close_meta t) ?n = None"
    using before by (auto simp: map_of_eq_None_iff ledger_seqs_def)
  from InsertLedger_succeeds [OF nf this] obtain t1 where i1: "InsertLedger E m t = (None, t1)"
    and t1: "transactions t1 = transactions t" "events t1 = events t" by simp
  have "reads_txs (th_passphrase (w_txWriter w)) m txs" "distinct (all_hashes txs)"
    "table_ok (transactions t1)" "\<forall>h \<in> set (all_hashes txs). map_of (transactions t1) h = None"
    using lv assms(8) t1 ok by simp_all
  from InsertTransactions_succeeds [OF this(1) assms(10) this(2,3) nf this(4)] obtain t2 where
    i2: "InsertTransactions E (w_txWriter w) m t1 = (None, t2)" by blast
  have "events t2 = events t"
    using InsertTransactions_index [OF i2] t1 ok by simp
  then have "events_ok (events t2)" "\<forall>s \<in> event_seqs t2. s < ?n"
    using ok before by (simp_all add: event_seqs_def)
  with InsertEvents_appends [of P E "w_eventWriter w" m txs t2] assms(1,2,7,9,11) lv
  obtain t3 where i3: "InsertEvents E P (w_eventWriter w) m t2 = (None, t3)" by auto
  from assms(13) obtain cs ss where "fee_windows_inv fw"
    "bind_res (lcm_Reader m (fws_networkPassPhrase fw)) collect_fees = Inr (cs, ss)"
    "next_seq (fw_contents (fws_ClassicFeeWindow fw)) \<in> {None, Some ?n}" "fees_small fw cs ss"
    by (auto simp: fees_valid_def)
  from IngestFees_ok [OF this, of "Some not_in_transaction"] obtain fw' where
    "IngestFees (Some not_in_transaction) fw m = (None, fw')" by blast
  with i1 i2 i3 assms(4) show ?thesis by (simp add: ingestLedgerCloseMeta_def in_tx_def)
qed

lemma ingest_succeeds:
  assumes "no_faults E" and "toid_spec (pk_toid P)" and "0 < rw_historyRetentionWindow rw"
    and "service_inv (Following n, s)" and "nw_GetLedger N n = Inr m"
    and "lcm_LedgerSequence m = n" and "0 < n" and "unat n + 1 < 2 ^ 31"
    and "ledger_valid P (rw_passphrase rw) (db_tables (sv_db s)) m txs"
    and "fees_valid (sv_feeWindows s) m"
  shows "\<exists>s'. ingest E P rw N n s = (None, s') \<and> network_ok N n (rw_passphrase rw) \<and>
    service_inv (Following (n + 1), s') \<and>
    map_of (ledger_close_meta (db_tables (sv_db s'))) n = Some m"
proof -
  let ?db = "sv_db s"
  have nf: "eng_fault E st = None" for st using assms(1) by (simp add: no_faults_def)
  define w where "w = \<lparr>w_tables = Some (db_tables ?db),
    w_historyRetentionWindow = rw_historyRetentionWindow rw,
    w_txWriter = \<lparr>th_stmtCache = True, th_passphrase = rw_passphrase rw\<rparr>,
    w_eventWriter = \<lparr>eh_stmtCache = True, eh_passphrase = rw_passphrase rw\<rparr>\<rparr>"
  have w: "NewTx E rw ?db = Inr w" by (simp add: NewTx_def nf w_def)
  have net: "network_ok N n (rw_passphrase rw)"
    using reads_txs_fits assms(5-9) by (auto simp: network_ok_def ledger_valid_def reads_txs_def)
  obtain w1 fw' where i: "ingestLedgerCloseMeta E P m w (sv_feeWindows s) = (None, w1, fw')"
    using ingestLedgerCloseMeta_succeeds [OF assms(1,2), of "db_tables ?db" w m "rw_passphrase rw" txs
        "sv_feeWindows s"] assms(4-10) by (auto simp: w_def)
  have inv: "store_inv (db_tables ?db)" "expects (db_tables ?db) (lcm_LedgerSequence m)"
    using assms(4,6) by simp_all
  have "\<exists>t3. w_tables w1 = Some t3 \<and> w_historyRetentionWindow w1 = w_historyRetentionWindow w \<and>
    store_inv t3 \<and> ledger_close_meta t3 = ledger_close_meta (db_tables ?db) @ [(lcm_LedgerSequence m, m)]"
    using net assms(5-7) by (intro ingested_tables [OF i _ inv assms(2)])
      (auto simp: w_def network_ok_def)
  then obtain t3 where t3: "w_tables w1 = Some t3"
    "w_historyRetentionWindow w1 = rw_historyRetentionWindow rw" "store_inv t3"
    "ledger_close_meta t3 = ledger_close_meta (db_tables ?db) @ [(n, m)]"
    using assms(6) by (auto simp: w_def)
  obtain w2 db2 where c: "Commit E (pk_toid P) m w1 ?db = (None, w2, db2)"
    using Commit_succeeds [OF assms(1,2) t3(1), of m ?db] assms(6,8) by auto
  have ing: "ingest E P rw N n s = (None, s\<lparr>sv_db := db2, sv_feeWindows := fw'\<rparr>)"
    using assms(5) w i c by (simp add: ingest_def split: prod.splits)
  have "committed (pk_toid P) m w1 ?db db2" using c by (auto elim: Commit_cases)
  from committed_inv [OF this t3(1,3) assms(2)] t3(2,4) assms(3,6,8)
  have inv': "store_inv (db_tables db2)" "db_ok db2" "expects (db_tables db2) (n + 1)"
    "(n, m) \<in> set (ledger_close_meta (db_tables db2))"
    by (auto dest: last_in_set)
  then have "map_of (ledger_close_meta (db_tables db2)) n = Some m"
    by (intro map_of_is_SomeI)
      (simp_all add: store_inv_def store_ok_def ledgers_ok_def table_ok_def strict_sorted_iff)
  with inv' ing net show ?thesis by simp
qed

subsection \<open>A failed commit\<close>

text \<open>
  The fee windows have taken ledger \<open>n\<close>, the database has not: the service asks for \<open>n\<close>
  again and the windows refuse it.
\<close>

fun stalled :: "u32 \<Rightarrow> 'v tables \<Rightarrow> phase \<times> 'v Service \<Rightarrow> bool" where
  "stalled n t (ph, s) \<longleftrightarrow> service_inv (ph, s) \<and> db_tables (sv_db s) = t \<and>
     ledger_close_meta t \<noteq> [] \<and> expects t n \<and> (ph = Starting \<or> ph = Following n) \<and>
     fee_windows_inv (sv_feeWindows s) \<and>
     next_seq (fw_contents (fws_ClassicFeeWindow (sv_feeWindows s))) = Some (n + 1)"

lemma IngestFees_refused:
  assumes "fee_windows_inv fw"
    and "next_seq (fw_contents (fws_ClassicFeeWindow fw)) = Some (lcm_LedgerSequence m + 1)"
  shows "\<exists>e. IngestFees rollback fw m = (Some e, fw)"
proof (cases "bind_res (lcm_Reader m (fws_networkPassPhrase fw)) collect_fees")
  case (Inl e)
  then show ?thesis by (simp add: IngestFees_def)
next
  case (Inr p)
  have ic: "fee_window_inv (fws_ClassicFeeWindow fw)" using assms(1) by (simp add: fee_windows_inv_def)
  have "\<not> fits (fw_contents (fws_ClassicFeeWindow fw)) (ledger_bucket m (fst p))"
    using assms(2) by (simp add: fits_bucket_next ic)
  from AppendLedgerFees_rejects [OF ic this] Inr show ?thesis
    by (cases p) (auto simp: IngestFees_def Let_def)
qed

lemma stalled_ingest:
  assumes "stalled n t (Following n, s)" and "network_ok N n (rw_passphrase rw)"
    and "ingest E P rw N n s = (e, s')"
  shows "e \<noteq> None \<and> sv_db s' = sv_db s \<and> sv_feeWindows s' = sv_feeWindows s"
proof (cases "bind_res (nw_GetLedger N n) (\<lambda>m. bind_res (NewTx E rw (sv_db s)) (\<lambda>w. Inr (m, w)))")
  case (Inl err)
  with assms(3) show ?thesis
    by (cases "nw_GetLedger N n"; cases "NewTx E rw (sv_db s)") (auto simp: ingest_def)
next
  case (Inr p)
  then obtain m w where m: "nw_GetLedger N n = Inr m" and w: "NewTx E rw (sv_db s) = Inr w"
    by (auto simp: bind_res_Inr_iff)
  have "lcm_LedgerSequence m = n" using m assms(2) by (auto simp: network_ok_def)
  with assms(1) obtain err where
    "IngestFees (Some not_in_transaction) (sv_feeWindows s) m = (Some err, sv_feeWindows s)"
    using IngestFees_refused [of "sv_feeWindows s" m] by auto
  then have "\<exists>err w1. ingestLedgerCloseMeta E P m w (sv_feeWindows s) = (Some err, w1, sv_feeWindows s)"
    by (auto simp: ingestLedgerCloseMeta_def split: prod.splits option.splits)
  then obtain err w1 where
    "ingestLedgerCloseMeta E P m w (sv_feeWindows s) = (Some err, w1, sv_feeWindows s)" by blast
  with assms(3) m w show ?thesis by (auto simp: ingest_def split: prod.splits)
qed

lemma expects_unique:
  "ledger_close_meta t \<noteq> [] \<Longrightarrow> expects t n \<Longrightarrow> expects t k \<Longrightarrow> k = n"
  by (simp add: expects_def)

lemma getNextLedgerSequence_keeps:
  assumes "getNextLedgerSequence E N s = (r, s')" and "db_ok (sv_db s)"
  shows "sv_feeWindows s' = sv_feeWindows s \<and> db_tables (sv_db s') = db_tables (sv_db s)"
proof -
  obtain r1 db1 where g: "getLatestLedgerSequence E (sv_db s) = (r1, db1)" by fastforce
  with assms(1) have "s' = s\<lparr>sv_db := db1\<rparr>" by (simp add: getNextLedgerSequence_def Let_def)
  with getLatestLedgerSequence_cases [OF g assms(2)] show ?thesis by simp
qed

lemma stalled_step:
  assumes "service_step P rw (ph, s) (ph', s')" and "stalled n t (ph, s)"
  shows "stalled n t (ph', s')"
  using assms(1)
proof (cases rule: service_step.cases)
  case (start E N k)
  have inv: "service_inv (Following k, s')"
    using getNextLedgerSequence_inv [OF start(3)] assms(2) start(1) by auto
  with getNextLedgerSequence_keeps [OF start(3)] assms(2) start(1,2) expects_unique [of t n k]
  show ?thesis by auto
next
  case (start_failed E N e)
  have "service_inv (Starting, s')"
    using getNextLedgerSequence_inv [OF start_failed(3)] assms(2) start_failed(1) by auto
  with getNextLedgerSequence_keeps [OF start_failed(3)] assms(2) start_failed(1,2)
  show ?thesis by auto
next
  case (ingested E N k)
  with assms(2) have "k = n" by simp
  with stalled_ingest [OF _ _ ingested(3), of t] ingested assms(2) show ?thesis by auto
next
  case (ingest_failed E N k e)
  with assms(2) have "k = n" by simp
  with stalled_ingest [OF _ _ ingest_failed(3), of t] ingest_failed assms(2) show ?thesis by auto
qed

lemma stalled_forever:
  assumes "(service_step P rw)\<^sup>*\<^sup>* (ph, s) (ph', s')" and "stalled n t (ph, s)"
  shows "stalled n t (ph', s')"
  using assms(1)
proof (induction rule: rtranclp_induct2)
  case (step ph1 s1 ph2 s2)
  from stalled_step [OF step.hyps(2) step.IH] show ?case .
qed (rule assms(2))

subsection \<open>Properties\<close>

text \<open>C2: However the engine, the archive and the ledger backend behave, after any number of
  ingested ledgers, failures and retries the stored ledgers have consecutive numbers, the
  transaction and event indexes only point at stored ledgers, the cached latest ledger is the
  newest stored one, and the service asks next for the ledger after it.\<close>

theorem ingestion_gap_free:
  assumes "(service_step P rw)\<^sup>*\<^sup>* (Starting, \<lparr>sv_db = OpenSQLiteDB file, sv_feeWindows = fees\<rparr>) (ph, s)"
    and "store_inv file" and "toid_spec (pk_toid P)" and "0 < rw_historyRetentionWindow rw"
  shows "gap_free (db_tables (sv_db s)) \<and> index_ok (db_tables (sv_db s)) \<and>
    store_ok (db_tables (sv_db s)) \<and>
    coherent (db_tables (sv_db s)) (dc_latestLedgerSeq (db_cache (sv_db s)))
      (dc_latestLedgerCloseTime (db_cache (sv_db s))) \<and>
    (case ph of Starting \<Rightarrow> True | Following n \<Rightarrow> expects (db_tables (sv_db s)) n)"
proof -
  have "db_ok (OpenSQLiteDB file)"
    using assms(2) by (simp add: OpenSQLiteDB_ok store_inv_def store_ok_def)
  then have "service_inv (ph, s)"
    using assms(2) by (intro service_reachable_inv [OF assms(1) _ assms(3,4)])
      (simp_all add: OpenSQLiteDB_def)
  then show ?thesis by (simp add: store_inv_def db_ok_def)
qed

definition example_network :: "int network" where
  "example_network = \<lparr>nw_GetRootHAS = Inr 7, nw_PrepareRange = (\<lambda>_. None),
     nw_GetLedger = (\<lambda>n. Inr (example_ledger n [event_tx]))\<rparr>"

definition example_windows :: FeeWindows where
  "example_windows = NewFeeWindows 10 50 ''test''"

definition example_service :: "int Service" where
  "example_service = \<lparr>sv_db = OpenSQLiteDB three_ledgers, sv_feeWindows = example_windows\<rparr>"

lemma three_ledgers_inv: "store_inv three_ledgers"
proof -
  have "gap_free three_ledgers"
    unfolding gap_free_def
    by (rule exI [of _ 5], rule exI [of _ 8]) (simp add: three_ledgers_def upt_rec)
  moreover have "index_ok three_ledgers"
    by (simp add: index_ok_def tx_seqs_def event_seqs_def three_ledgers_def empty_tables_def)
  ultimately show ?thesis using three_ledgers_ok by (simp add: store_inv_def)
qed

lemma example_start:
  "getNextLedgerSequence calm_engine example_network example_service =
     (Inr 8, example_service\<lparr>sv_db := fill_cache
        \<lparr>lr_FirstLedger = ledger_info (example_ledger 5 []), lr_LastLedger = ledger_info (example_ledger 7 [])\<rparr>
        (OpenSQLiteDB three_ledgers)\<rparr>)"
proof -
  have "getLedgerRangeWithoutCache calm_engine three_ledgers =
      Inr \<lparr>lr_FirstLedger = ledger_info (example_ledger 5 []),
        lr_LastLedger = ledger_info (example_ledger 7 [])\<rparr>"
    using range_without_cache [of three_ledgers calm_engine] three_ledgers_ok
    by (simp add: store_ok_def ledgers_ok_def calm_engine_def) (simp add: three_ledgers_def)
  then show ?thesis
    by (simp add: getNextLedgerSequence_def getLatestLedgerSequence_def reader_GetLedgerRange_def
        example_service_def OpenSQLiteDB_def example_network_def ledger_info_def)
      (simp add: example_ledger_def)
qed

lemma example_ledger_valid:
  assumes "transactions t = []"
  shows "ledger_valid example_pkgs ''test'' t (example_ledger n [event_tx]) [event_tx]"
proof -
  have ev: "tx_diag_events event_tx = [example_event]"
    by (simp add: tx_diag_events_def event_tx_def transactionEventsIntoDiagnosticEvents_def)
  have "tx_storable example_pkgs event_tx"
    by (simp add: tx_storable_def ev event_storable_def)
      (simp add: event_tx_def example_hash_def blob_events_def example_event_def int_scvals_def)
  moreover have "all_hashes [event_tx] = [''i1'', example_hash]"
    by (simp add: all_hashes_def tx_hashes_def event_tx_def example_tx_def)
  moreover have "distinct [''i1'', example_hash]" by (simp add: example_hash_def numeral_eq_Suc)
  ultimately show ?thesis using assms example_reads by (simp add: ledger_valid_def)
qed

lemma example_fees_valid: "fees_valid example_windows (example_ledger n [event_tx])"
proof -
  have "fee_windows_inv example_windows"
    by (simp add: example_windows_def fee_windows_inv_def in_sync_def NewFeeWindows_def NewFeeWindow_inv)
  moreover have "bind_res (lcm_Reader (example_ledger n [event_tx]) (fws_networkPassPhrase example_windows))
      collect_fees = Inr ([150], [])"
    by (simp add: example_ledger_def event_tx_def example_tx_def classify_fee_def Let_def)
  moreover have "fees_small example_windows [150] []"
    by (simp add: example_windows_def fees_small_def NewFeeWindows_def all_fees_def)
  ultimately show ?thesis
    by (auto simp: fees_valid_def example_windows_def NewFeeWindows_def next_seq_def)
qed

lemma example_service_inv: "service_inv (Starting, example_service)"
  using three_ledgers_inv three_ledgers_ok
  by (simp add: example_service_def OpenSQLiteDB_def db_ok_def coherent_def store_ok_def)

lemma example_run:
  "\<exists>s1 s2. getNextLedgerSequence calm_engine example_network example_service = (Inr 8, s1) \<and>
     service_inv (Following 8, s1) \<and> db_tables (sv_db s1) = three_ledgers \<and>
     sv_feeWindows s1 = example_windows \<and> network_ok example_network 8 (rw_passphrase example_rw) \<and>
     ingest calm_engine example_pkgs example_rw example_network 8 s1 = (None, s2)"
proof -
  define s1 where "s1 = example_service\<lparr>sv_db := fill_cache
    \<lparr>lr_FirstLedger = ledger_info (example_ledger 5 []), lr_LastLedger = ledger_info (example_ledger 7 [])\<rparr>
    (OpenSQLiteDB three_ledgers)\<rparr>"
  have g: "getNextLedgerSequence calm_engine example_network example_service = (Inr 8, s1)"
    by (simp only: example_start s1_def)
  have inv: "service_inv (Following 8, s1)"
    using getNextLedgerSequence_inv [OF g example_service_inv] by simp
  have keep: "db_tables (sv_db s1) = three_ledgers" "sv_feeWindows s1 = example_windows"
    by (simp_all add: s1_def example_service_def fill_cache_def OpenSQLiteDB_def)
  have "transactions three_ledgers = []" by (simp add: three_ledgers_def empty_tables_def)
  from ingest_succeeds [of calm_engine example_pkgs example_rw 8 s1 example_network
      "example_ledger 8 [event_tx]" "[event_tx]"] example_ledger_valid [OF this, of 8]
    example_fees_valid [of 8] inv keep
  show ?thesis using g
    by (auto simp: calm_engine_no_faults toid_layout_spec example_rw_def example_network_def
        example_ledger_def)
qed

theorem ingestion_gap_free_witness:
  "\<exists>ph s. (service_step example_pkgs example_rw)\<^sup>*\<^sup>*
      (Starting, \<lparr>sv_db = OpenSQLiteDB three_ledgers, sv_feeWindows = example_windows\<rparr>) (ph, s) \<and>
    ph = Following 9 \<and> gap_free (db_tables (sv_db s)) \<and> expects (db_tables (sv_db s)) 9"
proof -
  from example_run obtain s1 s2 where
    "getNextLedgerSequence calm_engine example_network example_service = (Inr 8, s1)"
    "network_ok example_network 8 (rw_passphrase example_rw)"
    "ingest calm_engine example_pkgs example_rw example_network 8 s1 = (None, s2)"
    by blast
  then have "service_step example_pkgs example_rw (Starting, example_service) (Following 8, s1)"
    and "service_step example_pkgs example_rw (Following 8, s1) (Following (8 + 1), s2)"
    by (blast intro: service_step.intros)+
  then have r: "(service_step example_pkgs example_rw)\<^sup>*\<^sup>*
      (Starting, \<lparr>sv_db = OpenSQLiteDB three_ledgers, sv_feeWindows = example_windows\<rparr>)
      (Following 9, s2)"
    by (simp add: example_service_def)
  from ingestion_gap_free [OF r three_ledgers_inv] have
    "gap_free (db_tables (sv_db s2)) \<and> expects (db_tables (sv_db s2)) 9"
    by (simp add: toid_layout_spec example_rw_def)
  with r show ?thesis by blast
qed

lemma getNextLedgerSequence_resumes:
  assumes "no_faults E" and "db_ok (sv_db s)" and "ledger_close_meta (db_tables (sv_db s)) \<noteq> []"
    and "nw_PrepareRange N (fst (last (ledger_close_meta (db_tables (sv_db s)))) + 1) = None"
  shows "\<exists>s1. getNextLedgerSequence E N s =
      (Inr (fst (last (ledger_close_meta (db_tables (sv_db s)))) + 1), s1)"
proof -
  let ?t = "db_tables (sv_db s)"
  obtain r db1 where g: "getLatestLedgerSequence E (sv_db s) = (r, db1)" by fastforce
  have ok: "ledgers_ok (ledger_close_meta ?t)" using assms(2) by (simp add: db_ok_def)
  have "\<exists>k. r = Inr k"
    using g assms(1,3) ok range_without_cache [of ?t E]
    by (auto simp: getLatestLedgerSequence_def reader_GetLedgerRange_def no_faults_def ledgers_ok_def
        split: if_splits)
  then obtain k where "r = Inr k" by blast
  moreover from this getLatestLedgerSequence_cases [OF g assms(2)] assms(3)
  have "fst (last (ledger_close_meta ?t)) + 1 = k + 1" by (auto simp: expects_def)
  ultimately show ?thesis using g assms(4) by (simp add: getNextLedgerSequence_def Let_def)
qed

text \<open>C14: Restarted on a non-empty store, with an engine that does not fail and a backend that
  supplies the next ledger, the service resumes right after the newest stored ledger and stores
  the next one: it is found under its number and is what the service reports as latest.\<close>

theorem ingestion_progress:
  assumes "no_faults E" and "toid_spec (pk_toid P)" and "0 < rw_historyRetentionWindow rw"
    and "service_inv (Starting, s)" and "ledger_close_meta (db_tables (sv_db s)) \<noteq> []"
    and "n = fst (last (ledger_close_meta (db_tables (sv_db s)))) + 1"
    and "nw_PrepareRange N n = None" and "nw_GetLedger N n = Inr m"
    and "lcm_LedgerSequence m = n" and "0 < n" and "unat n + 1 < 2 ^ 31"
    and "ledger_valid P (rw_passphrase rw) (db_tables (sv_db s)) m txs"
    and "fees_valid (sv_feeWindows s) m"
  shows "\<exists>s'. run 1 E P rw N s = (Inr (n + 1), s') \<and> service_inv (Following (n + 1), s') \<and>
    reader_GetLedger E (sv_db s') n = Inr (Some m) \<and>
    fst (getLatestLedgerSequence E (sv_db s')) = Inr n"
proof -
  have ok: "db_ok (sv_db s)" using assms(4) by simp
  from getNextLedgerSequence_resumes [OF assms(1) ok assms(5)] assms(6,7) obtain s1 where
    g: "getNextLedgerSequence E N s = (Inr n, s1)" by auto
  have inv: "service_inv (Following n, s1)" using getNextLedgerSequence_inv [OF g assms(4)] by simp
  note keep = getNextLedgerSequence_keeps [OF g ok]
  obtain s' where s': "ingest E P rw N n s1 = (None, s')" "service_inv (Following (n + 1), s')"
    "map_of (ledger_close_meta (db_tables (sv_db s'))) n = Some m"
    using ingest_succeeds [OF assms(1-3) inv assms(8-11), of txs] assms(12,13) keep by auto
  have nf: "eng_fault E st = None" for st using assms(1) by (simp add: no_faults_def)
  have ok': "db_ok (sv_db s')" using s'(2) by simp
  obtain r db1 where l: "getLatestLedgerSequence E (sv_db s') = (r, db1)" by fastforce
  have ne: "ledger_close_meta (db_tables (sv_db s')) \<noteq> []" using s'(3) by auto
  have "\<exists>k. r = Inr k"
    using l ne ok' range_without_cache [of "db_tables (sv_db s')" E]
    by (auto simp: getLatestLedgerSequence_def reader_GetLedgerRange_def nf ledgers_ok_def db_ok_def
        split: if_splits)
  with getLatestLedgerSequence_cases [OF l ok'] s'(2) ne have "r = Inr n"
    by (auto simp: expects_def)
  moreover have "reader_GetLedger E (sv_db s') n = Inr (Some m)"
    using ok' s'(3) getLedgerFromDB_lookup [of "db_tables (sv_db s')" E n]
    by (simp add: reader_GetLedger_def nf db_ok_def ledgers_ok_def)
  ultimately show ?thesis using g s'(1,2) l by (simp add: run_def)
qed

theorem ingestion_progress_witness:
  "\<exists>s'. run 1 calm_engine example_pkgs example_rw example_network example_service = (Inr 9, s') \<and>
     reader_GetLedger calm_engine (sv_db s') 8 = Inr (Some (example_ledger 8 [event_tx]))"
proof -
  have t: "db_tables (sv_db example_service) = three_ledgers"
    "sv_feeWindows example_service = example_windows"
    by (simp_all add: example_service_def OpenSQLiteDB_def)
  have "transactions three_ledgers = []" "ledger_close_meta three_ledgers \<noteq> []"
    "fst (last (ledger_close_meta three_ledgers)) = 7"
    by (simp_all add: three_ledgers_def empty_tables_def)
  from ingestion_progress [OF calm_engine_no_faults _ _ example_service_inv, of example_pkgs example_rw
      8 example_network "example_ledger 8 [event_tx]" "[event_tx]"] this
    example_ledger_valid [OF this(1), of 8] example_fees_valid [of 8]
  show ?thesis
    by (auto simp: t toid_layout_spec example_rw_def example_network_def example_ledger_def)
qed

text \<open>C24: The fee windows take a ledger before the database does. When the commit of a ledger then
  fails, no sequence of retries stores anything more: the windows refuse the ledger that the
  database still asks for, so the tables stay as they were in every state the service can reach
  without building the windows anew.\<close>

theorem failed_commit_stalls:
  assumes "service_inv (Following n, s)" and "ledger_close_meta (db_tables (sv_db s)) \<noteq> []"
    and "network_ok N n (rw_passphrase rw)" and "fees_valid (sv_feeWindows s) m"
    and "nw_GetLedger N n = Inr m" and "NewTx E rw (sv_db s) = Inr w"
    and "ingestLedgerCloseMeta E P m w (sv_feeWindows s) = (None, w1, fees)"
    and "Commit E (pk_toid P) m w1 (sv_db s) = (Some err, w2, sv_db s)"
  shows "\<exists>s1. ingest E P rw N n s = (Some err, s1) \<and>
    (\<forall>ph s'. (service_step P rw)\<^sup>*\<^sup>* (Starting, s1) (ph, s') \<longrightarrow>
       db_tables (sv_db s') = db_tables (sv_db s))"
proof -
  let ?s1 = "s\<lparr>sv_db := sv_db s, sv_feeWindows := fees\<rparr>"
  have i: "ingest E P rw N n s = (Some err, ?s1)"
    using assms(5-8) by (simp add: ingest_def split: prod.splits)
  obtain t where t: "w_tables w = Some t" using assms(6) by (auto simp: NewTx_def split: option.splits)
  from ingestLedgerCloseMeta_None [OF assms(7) t] have
    f: "IngestFees (Some not_in_transaction) (sv_feeWindows s) m = (None, fees)" by blast
  from assms(4) obtain cs ss where cs: "fee_windows_inv (sv_feeWindows s)"
    "bind_res (lcm_Reader m (fws_networkPassPhrase (sv_feeWindows s))) collect_fees = Inr (cs, ss)"
    "fees_small (sv_feeWindows s) cs ss" by (auto simp: fees_valid_def)
  have "lcm_LedgerSequence m = n" using assms(3,5) by (auto simp: network_ok_def)
  with IngestFees_step [OF cs f] have
    "fee_windows_inv fees" "next_seq (fw_contents (fws_ClassicFeeWindow fees)) = Some (n + 1)"
    by simp_all
  with assms(1,2) have "stalled n (db_tables (sv_db s)) (Starting, ?s1)" by simp
  with stalled_forever have "\<forall>ph s'. (service_step P rw)\<^sup>*\<^sup>* (Starting, ?s1) (ph, s') \<longrightarrow>
      db_tables (sv_db s') = db_tables (sv_db s)" by fastforce
  with i show ?thesis by blast
qed

definition full_disk :: engine where
  "full_disk = calm_engine\<lparr>eng_fault := (\<lambda>st. if st = CommitTx then Some (Err ''disk full'') else None)\<rparr>"

definition quiet_network :: "int network" where
  "quiet_network = \<lparr>nw_GetRootHAS = Inr 7, nw_PrepareRange = (\<lambda>_. None),
     nw_GetLedger = (\<lambda>n. Inr (example_ledger n []))\<rparr>"

lemma full_disk_ingest:
  assumes "NewTx full_disk example_rw db = Inr w" and "db_tables db = three_ledgers"
  shows "\<exists>w1 fees. ingestLedgerCloseMeta full_disk example_pkgs (example_ledger 8 []) w example_windows =
    (None, w1, fees)"
proof -
  let ?m = "example_ledger 8 []"
  have w: "w_tables w = Some three_ledgers" "th_stmtCache (w_txWriter w)" "eh_stmtCache (w_eventWriter w)"
    using assms by (auto simp: NewTx_def full_disk_def split: option.splits)
  have "\<exists>t1. InsertLedger full_disk ?m three_ledgers = (None, t1)"
    using InsertLedger_succeeds [of full_disk ?m three_ledgers]
    by (simp add: full_disk_def three_ledgers_def example_ledger_def)
  then obtain t1 where i1: "InsertLedger full_disk ?m three_ledgers = (None, t1)" by blast
  have none: "lcm_CountTransactions ?m = 0" by (simp add: example_ledger_def)
  have "fee_windows_inv example_windows" "next_seq (fw_contents (fws_ClassicFeeWindow example_windows)) = None"
    "fees_small example_windows [] []"
    by (simp_all add: example_windows_def fee_windows_inv_def in_sync_def NewFeeWindows_def
        NewFeeWindow_inv next_seq_def fees_small_def all_fees_def)
  moreover have "bind_res (lcm_Reader ?m (fws_networkPassPhrase example_windows)) collect_fees = Inr ([], [])"
    by (simp add: example_ledger_def)
  ultimately obtain fees where "IngestFees (Some not_in_transaction) example_windows ?m = (None, fees)"
    using IngestFees_ok [of example_windows ?m "[]" "[]" "Some not_in_transaction"] by auto
  with w i1 none show ?thesis
    by (simp add: ingestLedgerCloseMeta_def in_tx_def InsertTransactions_def InsertEvents_def)
qed

theorem failed_commit_stalls_witness:
  "\<exists>s err s1. db_tables (sv_db s) = three_ledgers \<and>
     ingest full_disk example_pkgs example_rw quiet_network 8 s = (Some err, s1) \<and>
     (\<forall>ph s'. (service_step example_pkgs example_rw)\<^sup>*\<^sup>* (Starting, s1) (ph, s') \<longrightarrow>
        db_tables (sv_db s') = three_ledgers)"
proof -
  from example_run obtain s where s: "service_inv (Following 8, s)"
    "db_tables (sv_db s) = three_ledgers" "sv_feeWindows s = example_windows" by blast
  have net: "network_ok quiet_network 8 (rw_passphrase example_rw)"
    by (simp add: network_ok_def quiet_network_def example_ledger_def ledger_fits_def)
  have f: "fees_valid (sv_feeWindows s) (example_ledger 8 [])"
    by (simp add: s fees_valid_def example_windows_def fee_windows_inv_def in_sync_def NewFeeWindows_def
        NewFeeWindow_inv next_seq_def fees_small_def all_fees_def example_ledger_def)
  obtain w where w: "NewTx full_disk example_rw (sv_db s) = Inr w"
    by (simp add: NewTx_def full_disk_def)
  from full_disk_ingest [OF w s(2)] obtain w1 fees where
    i: "ingestLedgerCloseMeta full_disk example_pkgs (example_ledger 8 []) w (sv_feeWindows s) =
      (None, w1, fees)" by (auto simp: s)
  obtain e w2 db2 where c: "Commit full_disk (pk_toid example_pkgs) (example_ledger 8 []) w1 (sv_db s) =
      (e, w2, db2)" by (metis prod_cases3)
  then have "\<exists>err. e = Some err \<and> db2 = sv_db s"
    by (cases rule: Commit_cases) (simp_all add: full_disk_def)
  with c obtain err where c': "Commit full_disk (pk_toid example_pkgs) (example_ledger 8 []) w1
      (sv_db s) = (Some err, w2, sv_db s)" by blast
  have "ledger_close_meta (db_tables (sv_db s)) \<noteq> []" by (simp add: s three_ledgers_def)
  from failed_commit_stalls [OF s(1) this net f _ w i c'] s(2) show ?thesis
    by (auto simp: quiet_network_def)
qed

end
