(* ===== verification/Handlers.thy ===== *)
theory Handlers
  imports Ingest
begin

text \<open>
  The request handlers of \<^verbatim>\<open>methods/\<close> that answer from one or two reads of the store:
  \<^verbatim>\<open>getHealth\<close>, \<^verbatim>\<open>getLatestLedger\<close>, \<^verbatim>\<open>getNetwork\<close>, \<^verbatim>\<open>getVersionInfo\<close>, \<^verbatim>\<open>getFeeStats\<close> and
  \<^verbatim>\<open>getTransaction\<close>, with the parts of Go's library they format their answers with
  (\<^verbatim>\<open>encoding/base64\<close>, \<^verbatim>\<open>time.Duration\<close>) and the conversion of XDR to JSON of \<^verbatim>\<open>xdr2json\<close>, whose
  foreign function is a parameter. A handler returns an error or a response; where the code
  returns a response beside an error, the RPC library sends the error only.
\<close>

subsection \<open>Errors of handlers\<close>

datatype jrpc_code = InvalidParams | InvalidRequest | InternalError | ServerError int

text \<open>A \<^verbatim>\<open>jrpc2.Error\<close> with a code, an error without one, or a panic.\<close>

datatype handler_error = JErr jrpc_code string | PlainErr string | HPanic string

type_synonym 'a answer = "handler_error + 'a"

text \<open>\<^verbatim>\<open>&jrpc2.Error{Code: c, Message: fmt.Sprintf(f, err)}\<close>\<close>

fun jerr_fmt :: "jrpc_code \<Rightarrow> (string \<Rightarrow> string) \<Rightarrow> go_error \<Rightarrow> handler_error" where
  "jerr_fmt c f (Err m) = JErr c (f m)"
| "jerr_fmt c f (Panic m) = HPanic m"

abbreviation jerr :: "jrpc_code \<Rightarrow> go_error \<Rightarrow> handler_error" where
  "jerr c \<equiv> jerr_fmt c (\<lambda>m. m)"

subsection \<open>encoding/base64\<close>

definition base64_alphabet :: string where
  "base64_alphabet =
     ''ABCDEFGHIJKLMNOPQRSTUVWXYZabcdefghijklmnopqrstuvwxyz0123456789+/''"

definition base64_char :: "nat \<Rightarrow> char" where
  "base64_char i = base64_alphabet ! i"

fun EncodeToString :: "bytes \<Rightarrow> string" where
  "EncodeToString [] = []"
| "EncodeToString [a] =
     (let n = of_char a * 65536 in
      [base64_char (n div 262144), base64_char (n div 4096 mod 64), CHR ''='', CHR ''=''])"
| "EncodeToString [a, b] =
     (let n = of_char a * 65536 + of_char b * 256 in
      [base64_char (n div 262144), base64_char (n div 4096 mod 64),
       base64_char (n div 64 mod 64), CHR ''=''])"
| "EncodeToString (a # b # c # bs) =
     (let n = of_char a * 65536 + of_char b * 256 + of_char c in
      [base64_char (n div 262144), base64_char (n div 4096 mod 64),
       base64_char (n div 64 mod 64), base64_char (n mod 64)] @ EncodeToString bs)"

definition base64EncodeSlice :: "bytes list \<Rightarrow> string list" where
  "base64EncodeSlice xs = map EncodeToString xs"

subsection \<open>xdr2json\<close>

text \<open>The foreign function answers the JSON text and an error text, empty when it succeeded.\<close>

type_synonym xdr2json_lib = "string \<Rightarrow> bytes \<Rightarrow> string \<times> string"

definition convertAnyBytes :: "xdr2json_lib \<Rightarrow> string \<Rightarrow> bytes \<Rightarrow> string res" where
  "convertAnyBytes C xdrTypeName field =
     (case C xdrTypeName field of (jsonStr, errStr) \<Rightarrow>
        if errStr \<noteq> '''' then Inl (Err errStr) else Inr jsonStr)"

definition ConvertBytes :: "xdr2json_lib \<Rightarrow> string \<Rightarrow> bytes \<Rightarrow> string res" where
  "ConvertBytes C xdrTypeName field =
     (if field = [] then Inr '''' else convertAnyBytes C xdrTypeName field)"

text \<open>\<^verbatim>\<open>xdr.MarshalBinary()\<close> of the value is an argument.\<close>

definition ConvertInterface :: "xdr2json_lib \<Rightarrow> string \<Rightarrow> bytes res \<Rightarrow> string res" where
  "ConvertInterface C xdrTypeName marshalled =
     bind_res (map_err (wrap_err (''failed to serialize XDR type '' @ sq @ xdrTypeName @ sq @ '': ''))
         marshalled)
       (convertAnyBytes C xdrTypeName)"

definition jsonifySlice :: "xdr2json_lib \<Rightarrow> string \<Rightarrow> bytes list \<Rightarrow> (string list) res" where
  "jsonifySlice C xdrTypeName values = traverse (ConvertBytes C xdrTypeName) values"

definition transactionToJSON :: "xdr2json_lib \<Rightarrow> Transaction \<Rightarrow> (string \<times> string \<times> string) res" where
  "transactionToJSON C tx =
     bind_res (ConvertBytes C ''TransactionResult'' (t_Result tx)) (\<lambda>result.
     bind_res (ConvertBytes C ''TransactionEnvelope'' (t_Envelope tx)) (\<lambda>envelope.
     bind_res (ConvertBytes C ''TransactionMeta'' (t_Meta tx)) (\<lambda>resultMeta.
       Inr (result, envelope, resultMeta))))"

definition ledgerToJSON :: "xdr2json_lib \<Rightarrow> 'v LedgerCloseMeta \<Rightarrow> (string \<times> string) res" where
  "ledgerToJSON C meta =
     bind_res (ConvertInterface C ''LedgerCloseMeta'' (lcm_MarshalBinary meta)) (\<lambda>closeMetaJSON.
     bind_res (ConvertInterface C ''LedgerHeaderHistoryEntry'' (lcm_HeaderMarshalBinary meta))
       (\<lambda>headerJSON. Inr (closeMetaJSON, headerJSON)))"

subsection \<open>time.Duration\<close>

text \<open>Durations are nanoseconds; the arithmetic of the library saturates at 64 bits.\<close>

definition maxDuration :: int where
  "maxDuration = 2 ^ 63 - 1"

definition saturate :: "int \<Rightarrow> int" where
  "saturate d = max (- (2 ^ 63)) (min maxDuration d)"

definition Second :: int where
  "Second = 1000000000"

text \<open>The decimal fraction of \<open>v\<close> in \<open>w\<close> digits without trailing zeros.\<close>

definition show_fraction :: "nat \<Rightarrow> int \<Rightarrow> string" where
  "show_fraction w v =
     (let ds = rev (dropWhile (\<lambda>c. c = digit 0) (rev (sprintf0 w v))) in
      if ds = [] then [] else CHR ''.'' # ds)"

definition Duration_abs_String :: "int \<Rightarrow> string" where
  "Duration_abs_String u =
     (if u = 0 then ''0s''
      else if u < 10 ^ 3 then itoa u @ ''ns''
      else if u < 10 ^ 6 then
        itoa (u div 10 ^ 3) @ show_fraction 3 (u mod 10 ^ 3) @ [CHR 0xC2, CHR 0xB5] @ ''s''
      else if u < 10 ^ 9 then itoa (u div 10 ^ 6) @ show_fraction 6 (u mod 10 ^ 6) @ ''ms''
      else let s = u div 10 ^ 9 in
        (if s \<ge> 3600 then itoa (s div 3600) @ ''h'' else []) @
        (if s \<ge> 60 then itoa (s div 60 mod 60) @ ''m'' else []) @
        itoa (s mod 60) @ show_fraction 9 (u mod 10 ^ 9) @ ''s'')"

definition Duration_String :: "int \<Rightarrow> string" where
  "Duration_String d = (if d < 0 then ''-'' else []) @ Duration_abs_String \<bar>d\<bar>"

text \<open>\<^verbatim>\<open>d.Round(m)\<close> for a positive \<open>m\<close>, halves away from zero.\<close>

definition Duration_Round :: "int \<Rightarrow> int \<Rightarrow> int" where
  "Duration_Round d m =
     (let r = \<bar>d\<bar> mod m;
          a = (if r + r < m then \<bar>d\<bar> - r else \<bar>d\<bar> + m - r)
      in saturate (if d < 0 then - a else a))"

subsection \<open>getHealth\<close>

text \<open>\<^verbatim>\<open>time.Now()\<close> is the argument \<open>now\<close>, in nanoseconds since the epoch.\<close>

definition NewHealthCheck ::
  "engine \<Rightarrow> int \<Rightarrow> u32 \<Rightarrow> int \<Rightarrow> 'v DB \<Rightarrow> GetHealthResponse answer" where
  "NewHealthCheck E now retentionWindow maxHealthyLedgerLatency db =
     (case reader_GetLedgerRange E db of
        Inl err \<Rightarrow> Inl (jerr_fmt InternalError (\<lambda>m. ''data stores are not initialized'' @ '': '' @ m) err)
      | Inr ledgerRange \<Rightarrow>
          if li_Sequence (lr_LastLedger ledgerRange) < 1
          then Inl (JErr InternalError ''data stores are not initialized'')
          else
            let lastKnownLedgerLatency =
                  saturate (now - li_CloseTime (lr_LastLedger ledgerRange) * Second)
            in if lastKnownLedgerLatency > maxHealthyLedgerLatency
               then Inl (JErr InternalError (''latency ('' @
                   Duration_String (Duration_Round lastKnownLedgerLatency Second) @
                   '') since last known ledger closed is too high (>'' @
                   Duration_String maxHealthyLedgerLatency @ '')''))
               else Inr \<lparr>gh_Status = ''healthy'',
                         gh_LatestLedger = li_Sequence (lr_LastLedger ledgerRange),
                         gh_OldestLedger = li_Sequence (lr_FirstLedger ledgerRange),
                         gh_LedgerRetentionWindow = retentionWindow\<rparr>)"

subsection \<open>getLatestLedger, getNetwork, getVersionInfo\<close>

definition NewGetLatestLedgerHandler ::
  "engine \<Rightarrow> 'v DB \<Rightarrow> GetLatestLedgerResponse answer \<times> 'v DB" where
  "NewGetLatestLedgerHandler E db =
     (case getLatestLedgerSequence E db of
        (Inl (Panic m), db1) \<Rightarrow> (Inl (HPanic m), db1)
      | (Inl (Err m), db1) \<Rightarrow> (Inl (JErr InternalError ''could not get latest ledger sequence''), db1)
      | (Inr latestSequence, db1) \<Rightarrow>
          (case reader_GetLedger E db1 latestSequence of
             Inl (Panic m) \<Rightarrow> (Inl (HPanic m), db1)
           | Inl (Err m) \<Rightarrow> (Inl (JErr InternalError ''could not get latest ledger''), db1)
           | Inr None \<Rightarrow> (Inl (JErr InternalError ''could not get latest ledger''), db1)
           | Inr (Some latestLedger) \<Rightarrow>
               (Inr \<lparr>gll_Hash = hex_encode (lcm_LedgerHash latestLedger),
                     gll_ProtocolVersion = lcm_LedgerVersion latestLedger,
                     gll_Sequence = latestSequence\<rparr>, db1)))"

definition getProtocolVersion :: "engine \<Rightarrow> 'v DB \<Rightarrow> u32 res \<times> 'v DB" where
  "getProtocolVersion E db =
     (case getLatestLedgerSequence E db of
        (Inl err, db1) \<Rightarrow> (Inl err, db1)
      | (Inr latestLedger, db1) \<Rightarrow>
          (bind_res (reader_GetLedger E db1 latestLedger) (\<lambda>found.
             case found of
               None \<Rightarrow> Inl (Err (''missing meta for latest ledger ('' @ show_u32 latestLedger @ '')''))
             | Some closeMeta \<Rightarrow>
                 if lcm_V closeMeta = 1 \<or> lcm_V closeMeta = 2 then Inr (lcm_LedgerVersion closeMeta)
                 else Inl (Err (''latest ledger ('' @ show_u32 latestLedger @
                        '') meta has unexpected version ('' @ itoa (lcm_V closeMeta) @ '')''))), db1))"

definition NewGetNetworkHandler ::
  "engine \<Rightarrow> string \<Rightarrow> string \<Rightarrow> 'v DB \<Rightarrow> GetNetworkResponse answer \<times> 'v DB" where
  "NewGetNetworkHandler E networkPassphrase friendbotURL db =
     (case getProtocolVersion E db of
        (Inl err, db1) \<Rightarrow> (Inl (jerr InternalError err), db1)
      | (Inr protocolVersion, db1) \<Rightarrow>
          (Inr \<lparr>gn_FriendbotURL = friendbotURL, gn_Passphrase = networkPassphrase,
                gn_ProtocolVersion = uint protocolVersion\<rparr>, db1))"

record build_info =
  bi_Version :: string
  bi_CommitHash :: string
  bi_BuildTimestamp :: string

text \<open>An error is only logged and leaves the protocol version zero.\<close>

definition NewGetVersionInfoHandler ::
  "engine \<Rightarrow> build_info \<Rightarrow> string \<Rightarrow> 'v DB \<Rightarrow> GetVersionInfoResponse answer \<times> 'v DB" where
  "NewGetVersionInfoHandler E info captiveCoreVersion db =
     (let response = \<lparr>gv_Version = bi_Version info, gv_CommitHash = bi_CommitHash info,
            gv_BuildTimestamp = bi_BuildTimestamp info,
            gv_CaptiveCoreVersion = captiveCoreVersion, gv_ProtocolVersion = 0\<rparr> in
      case getProtocolVersion E db of
        (Inl (Panic m), db1) \<Rightarrow> (Inl (HPanic m), db1)
      | (Inl (Err m), db1) \<Rightarrow> (Inr response, db1)
      | (Inr protocolVersion, db1) \<Rightarrow> (Inr (response\<lparr>gv_ProtocolVersion := protocolVersion\<rparr>), db1))"

subsection \<open>getFeeStats\<close>

record protocol_FeeDistribution =
  pf_Max :: u64
  pf_Min :: u64
  pf_Mode :: u64
  pf_P10 :: u64
  pf_P20 :: u64
  pf_P30 :: u64
  pf_P40 :: u64
  pf_P50 :: u64
  pf_P60 :: u64
  pf_P70 :: u64
  pf_P80 :: u64
  pf_P90 :: u64
  pf_P95 :: u64
  pf_P99 :: u64
  pf_TransactionCount :: u32
  pf_LedgerCount :: u32

record GetFeeStatsResponse =
  gf_SorobanInclusionFee :: protocol_FeeDistribution
  gf_InclusionFee :: protocol_FeeDistribution
  gf_LatestLedger :: u32

definition convertFeeDistribution :: "FeeDistribution \<Rightarrow> protocol_FeeDistribution" where
  "convertFeeDistribution d =
     \<lparr>pf_Max = fd_Max d, pf_Min = fd_Min d, pf_Mode = fd_Mode d, pf_P10 = fd_P10 d,
      pf_P20 = fd_P20 d, pf_P30 = fd_P30 d, pf_P40 = fd_P40 d, pf_P50 = fd_P50 d,
      pf_P60 = fd_P60 d, pf_P70 = fd_P70 d, pf_P80 = fd_P80 d, pf_P90 = fd_P90 d,
      pf_P95 = fd_P95 d, pf_P99 = fd_P99 d, pf_TransactionCount = fd_FeeCount d,
      pf_LedgerCount = fd_LedgerCount d\<rparr>"

text \<open>A failed range query is only logged; the range is then the zero value.\<close>

definition NewGetFeeStatsHandler ::
  "engine \<Rightarrow> FeeWindows \<Rightarrow> 'v DB \<Rightarrow> GetFeeStatsResponse answer" where
  "NewGetFeeStatsHandler E windows db =
     (let response = (\<lambda>latest.
            \<lparr>gf_SorobanInclusionFee = convertFeeDistribution
               (GetFeeDistribution (fws_SorobanInclusionFeeWindow windows)),
             gf_InclusionFee = convertFeeDistribution
               (GetFeeDistribution (fws_ClassicFeeWindow windows)),
             gf_LatestLedger = latest\<rparr>) in
      case reader_GetLedgerRange E db of
        Inl (Panic m) \<Rightarrow> Inl (HPanic m)
      | Inl (Err m) \<Rightarrow> Inr (response 0)
      | Inr ledgerRange \<Rightarrow> Inr (response (li_Sequence (lr_LastLedger ledgerRange))))"

subsection \<open>getTransaction\<close>

definition tx_status :: "Transaction \<Rightarrow> string" where
  "tx_status tx = (if t_Successful tx then TransactionStatusSuccess else TransactionStatusFailed)"

definition details_of :: "Transaction \<Rightarrow> TransactionDetails" where
  "details_of tx = zero_TransactionDetails
     \<lparr>td_ApplicationOrder := t_ApplicationOrder tx, td_FeeBump := t_FeeBump tx,
      td_Ledger := li_Sequence (t_Ledger tx)\<rparr>"

definition xdr_details :: "Transaction \<Rightarrow> TransactionDetails \<Rightarrow> TransactionDetails" where
  "xdr_details tx d = d
     \<lparr>td_ResultXDR := EncodeToString (t_Result tx),
      td_EnvelopeXDR := EncodeToString (t_Envelope tx),
      td_ResultMetaXDR := EncodeToString (t_Meta tx),
      td_DiagnosticEventsXDR := base64EncodeSlice (t_Events tx)\<rparr>"

definition getTransaction_details ::
  "xdr2json_lib \<Rightarrow> string \<Rightarrow> string \<Rightarrow> Transaction \<Rightarrow> TransactionDetails answer" where
  "getTransaction_details C format hash tx =
     (let d = (details_of tx)\<lparr>td_TransactionHash := hash\<rparr> in
      bind_res
        (if format = FormatJSON then
           bind_res (map_err (jerr InternalError) (transactionToJSON C tx))
             (\<lambda>(result, envelope, meta).
           bind_res (map_err (jerr InternalError) (jsonifySlice C ''DiagnosticEvent'' (t_Events tx)))
             (\<lambda>diagEvents.
               Inr (d\<lparr>td_ResultJSON := result, td_EnvelopeJSON := envelope,
                      td_ResultMetaJSON := meta, td_DiagnosticEventsJSON := diagEvents\<rparr>)))
         else Inr (xdr_details tx d))
        (\<lambda>d'. Inr (d'\<lparr>td_Status := tx_status tx\<rparr>)))"

definition methods_GetTransaction ::
  "engine \<Rightarrow> 'v event_pkg \<Rightarrow> xdr2json_lib \<Rightarrow> transactionHandler \<Rightarrow> 'v DB \<Rightarrow> GetTransactionRequest \<Rightarrow>
   GetTransactionResponse answer" where
  "methods_GetTransaction E V C reader db request =
     (case IsValidFormat (gt_Format request) of
        Some err \<Rightarrow> Inl (JErr InvalidParams err)
      | None \<Rightarrow>
     if length (gt_Hash request) div 2 \<noteq> 32 then
       Inl (JErr InvalidParams (''unexpected hash length ('' @ show_nat (length (gt_Hash request)) @ '')''))
     else
     bind_res (map_err (jerr_fmt InvalidParams (\<lambda>m. ''incorrect hash: '' @ m))
         (hex_decode (gt_Hash request))) (\<lambda>txHash.
     bind_res (map_err (jerr_fmt InternalError (\<lambda>m. ''unable to get ledger range: '' @ m))
         (reader_GetLedgerRange E db)) (\<lambda>storeRange.
       let response = \<lparr>gtx_LatestLedger = li_Sequence (lr_LastLedger storeRange),
             gtx_LatestLedgerCloseTime = li_CloseTime (lr_LastLedger storeRange),
             gtx_OldestLedger = li_Sequence (lr_FirstLedger storeRange),
             gtx_OldestLedgerCloseTime = li_CloseTime (lr_FirstLedger storeRange),
             gtx_Details = zero_TransactionDetails\<lparr>td_TransactionHash := gt_Hash request\<rparr>,
             gtx_LedgerCloseTime = 0\<rparr> in
       case GetTransaction E V reader txHash (db_tables db) of
         Inl err \<Rightarrow>
           if err = ErrNoTransaction then
             Inr (response\<lparr>gtx_Details := (gtx_Details response)
                    \<lparr>td_Status := TransactionStatusNotFound\<rparr>\<rparr>)
           else Inl (jerr InternalError err)
       | Inr tx \<Rightarrow>
           bind_res (getTransaction_details C (gt_Format request) (gt_Hash request) tx)
             (\<lambda>d. Inr (response\<lparr>gtx_Details := d,
                               gtx_LedgerCloseTime := li_CloseTime (t_Ledger tx)\<rparr>)))))"

subsection \<open>Ingested transactions are served\<close>

lemma trims_keeps_tx:
  assumes "trims E T l w t = (None, t')" and "table_ok (transactions t)"
    and "map_of (transactions t) h = Some r" and "tr_ledger_sequence r = l"
    and "unat l + 1 < 2 ^ 31" and "0 < w"
  shows "map_of (transactions t') h = Some r"
proof -
  obtain e1 t1 where t1: "trimLedgers E l w t = (e1, t1)" by fastforce
  with assms(1) have e1: "e1 = None" by (cases e1) (simp_all add: trims_def)
  obtain e2 t2 where t2: "trimTransactions E l w t1 = (e2, t2)" by fastforce
  with assms(1) t1 e1 have e2: "e2 = None" by (cases e2) (simp_all add: trims_def)
  have t3: "trimEvents E T l w t2 = (None, t')"
    using assms(1) t1 e1 t2 e2 by (simp add: trims_def)
  have same: "transactions t1 = transactions t" "transactions t' = transactions t2"
    using t1 t3 by (auto elim: trimLedgers_cases trimEvents_cases)
  show ?thesis
    using t2
  proof (cases rule: trimTransactions_cases)
    case cut
    have "in_window l w l" using assms(6) by (simp add: in_window_def unat_gt_0 Suc_le_eq)
    then have "\<not> l < l + 1 - w" using cutoff_iff(1) [of l w l] assms(5) cut(2) by simp
    then show ?thesis
      using assms(2-4) same by (simp add: cut(3) map_of_delete_rows)
  qed (use same e2 assms(3) in auto)
qed

lemma ingest_indexes:
  assumes "ingest E P rw N n s = (None, s')" and "service_inv (Following n, s)"
    and "nw_GetLedger N n = Inr m" and "lcm_LedgerSequence m = n" and "unat n + 1 < 2 ^ 31"
    and "0 < rw_historyRetentionWindow rw"
    and "ledger_valid P (rw_passphrase rw) (db_tables (sv_db s)) m txs"
    and "tx \<in> set txs" and "h \<in> set (tx_hashes tx)"
  shows "map_of (transactions (db_tables (sv_db s'))) h =
    Some \<lparr>tr_ledger_sequence = n, tr_application_order = uint (tx_Index tx)\<rparr>"
proof -
  let ?row = "\<lparr>tr_ledger_sequence = n, tr_application_order = uint (tx_Index tx)\<rparr>"
  obtain w where w: "NewTx E rw (sv_db s) = Inr w"
    using assms(1,3) by (cases "NewTx E rw (sv_db s)") (auto simp: ingest_def)
  then have wt: "w_tables w = Some (db_tables (sv_db s))"
    and wp: "th_passphrase (w_txWriter w) = rw_passphrase rw" "th_stmtCache (w_txWriter w)"
    and ww: "w_historyRetentionWindow w = rw_historyRetentionWindow rw"
    by (auto simp: NewTx_def split: option.splits)
  obtain e1 w1 fees where i: "ingestLedgerCloseMeta E P m w (sv_feeWindows s) = (e1, w1, fees)"
    by (metis prod_cases3)
  then have e1: "e1 = None"
    using assms(1,3) w by (cases e1) (auto simp: ingest_def split: prod.splits)
  from ingestLedgerCloseMeta_None [OF i [unfolded e1] wt] obtain t1 t2 t3 where
    i1: "InsertLedger E m (db_tables (sv_db s)) = (None, t1)" and
    i2: "InsertTransactions E (w_txWriter w) m t1 = (None, t2)" and
    i3: "InsertEvents E P (w_eventWriter w) m t2 = (None, t3)" and w1: "w1 = w\<lparr>w_tables := Some t3\<rparr>"
    by blast
  have ok: "ledgers_ok (ledger_close_meta (db_tables (sv_db s)))"
    "table_ok (transactions (db_tables (sv_db s)))"
    using assms(2) by (simp_all add: store_inv_def store_ok_def)
  have same: "transactions t1 = transactions (db_tables (sv_db s))"
    using InsertLedger_ok [OF ok(1) i1] by simp
  have "reads_txs (th_passphrase (w_txWriter w)) m txs" "distinct (all_hashes txs)"
    "table_ok (transactions t1)"
    using assms(7) wp ok same by (simp_all add: ledger_valid_def)
  note post = InsertTransactions_ok [OF this(1) wp(2) this(2,3) i2]
  have same3: "transactions t3 = transactions t2"
    using i3 by (auto simp: InsertEvents_def split: if_splits sum.splits dest: insert_tx_events_ledgers)
  have row: "map_of (transactions t3) h = Some ?row" "table_ok (transactions t3)"
    using post(1,2) assms(4,8,9) by (simp_all add: same3)
  obtain e2 w2 db2 where c: "Commit E (pk_toid P) m w1 (sv_db s) = (e2, w2, db2)"
    by (metis prod_cases3)
  have s': "e2 = None" "sv_db s' = db2"
    using assms(1,3) w i e1 c by (auto simp: ingest_def split: prod.splits)
  from c s'(1) have "committed (pk_toid P) m w1 (sv_db s) db2" by (auto elim: Commit_cases)
  then obtain E' t' where
    tr: "trims E' (pk_toid P) n (rw_historyRetentionWindow rw) t3 = (None, t')" "db_tables db2 = t'"
    using assms(4) w1 ww by (auto simp: committed_def)
  from trims_keeps_tx [OF tr(1) row(2,1) _ assms(5,6)] tr(2) s'(2) show ?thesis by simp
qed

lemma GetTransaction_stored:
  assumes "store_ok t" and "no_faults E" and "map_of (ledger_close_meta t) n = Some m"
    and "map_of (transactions t) h =
      Some \<lparr>tr_ledger_sequence = n, tr_application_order = uint (tx_Index tx)\<rparr>"
    and "reads_txs (th_passphrase txn) m txs" and "tx \<in> set txs" and "length txs < 2 ^ 32"
  shows "GetTransaction E V txn h t = ParseTransaction V m tx"
proof -
  obtain i where i: "i < length txs" "tx = txs ! i" using assms(6) by (auto simp: in_set_conv_nth)
  have "eng_fault E (SelectTransaction h) = None" "table_ok (ledger_close_meta t)"
    "table_ok (transactions t)"
    using assms(1,2) by (simp_all add: no_faults_def store_ok_def ledgers_ok_def)
  from getTransactionByHash_found [OF this(2,3,1) assms(3) _ assms(5) i(1) assms(7)] assms(4) i(2)
  show ?thesis by (simp add: GetTransaction_def)
qed

lemma ParseTransaction_fields:
  assumes "ParseTransaction V m tx = Inr p"
  shows "tx_ResultXDR tx = Inr (t_Result p)" and "tx_MetaXDR tx = Inr (t_Meta p)"
    and "tx_EnvelopeXDR tx = Inr (t_Envelope p)" and "t_Ledger p = ledger_info m"
    and "t_Successful p = tx_Successful tx" and "t_FeeBump p = tx_IsFeeBump tx"
  using assms by (auto simp: ParseTransaction_def bind_res_Inr_iff)

lemma reader_range_nonempty:
  assumes "db_ok db" and "no_faults E" and "ledger_close_meta (db_tables db) \<noteq> []"
  shows "reader_GetLedgerRange E db = Inr
    \<lparr>lr_FirstLedger = ledger_info (snd (hd (ledger_close_meta (db_tables db)))),
     lr_LastLedger = ledger_info (snd (last (ledger_close_meta (db_tables db))))\<rparr>"
proof -
  have ok: "ledgers_ok (ledger_close_meta (db_tables db))" using assms(1) by (simp add: db_ok_def)
  have "reader_GetLedgerRange E db = getLedgerRangeWithoutCache E (db_tables db)"
    using coherent_range [OF ok _ _ assms(2)] assms(1)
    by (simp add: reader_GetLedgerRange_def db_ok_def)
  with range_without_cache [of "db_tables db" E] ok assms(2,3) show ?thesis
    by (simp add: no_faults_def ledgers_ok_def)
qed

text \<open>A read transaction of a non-empty store sees its tables, its oldest and its newest ledger.\<close>

lemma reader_opens:
  assumes "db_ok db" and "no_faults E" and "ledger_close_meta (db_tables db) \<noteq> []"
  obtains r rng where "NewLedgerReaderTx E db = Inr r" and "r_tables r = db_tables db"
    and "readerTx_GetLedgerRange E r = Inr rng"
    and "li_Sequence (lr_FirstLedger rng) = fst (hd (ledger_close_meta (db_tables db)))"
    and "li_Sequence (lr_LastLedger rng) = fst (last (ledger_close_meta (db_tables db)))"
proof -
  let ?t = "db_tables db"
  have ok: "ledgers_ok (ledger_close_meta ?t)" using assms(1) by (simp add: db_ok_def)
  from assms(2) obtain r where r: "NewLedgerReaderTx E db = Inr r" "r_tables r = ?t"
    by (simp add: NewLedgerReaderTx_def no_faults_def)
  have "reader_ok r" by (rule NewLedgerReaderTx_ok [OF assms(1) r(1)])
  with reader_range [OF this assms(2)] range_without_cache [of ?t E] ok assms(2,3) r(2)
  have "readerTx_GetLedgerRange E r = Inr \<lparr>lr_FirstLedger = ledger_info (snd (hd (ledger_close_meta ?t))),
      lr_LastLedger = ledger_info (snd (last (ledger_close_meta ?t)))\<rparr>"
    by (simp add: ledgers_ok_def no_faults_def)
  moreover have "lcm_LedgerSequence (snd (hd (ledger_close_meta ?t))) = fst (hd (ledger_close_meta ?t))"
    using ok hd_in_set [OF assms(3)] by (auto simp: ledgers_ok_def split: prod.splits)
  ultimately show ?thesis
    using that r ledgers_ok_last [OF ok assms(3)] by (simp add: ledger_info_def)
qed

lemma served_after_ingest:
  assumes "no_faults E" and "toid_spec (pk_toid P)" and "0 < rw_historyRetentionWindow rw"
    and "service_inv (Following n, s)" and "nw_GetLedger N n = Inr m"
    and "lcm_LedgerSequence m = n" and "0 < n" and "unat n + 1 < 2 ^ 31"
    and "ledger_valid P (rw_passphrase rw) (db_tables (sv_db s)) m txs"
    and "fees_valid (sv_feeWindows s) m"
    and "tx \<in> set txs" and "h \<in> set (tx_hashes tx)" and "length h = 32"
    and "ParseTransaction V m tx = Inr p" and "th_passphrase reader = rw_passphrase rw"
    and "format = '''' \<or> format = FormatBase64"
  shows "\<exists>s' resp env res meta. ingest E P rw N n s = (None, s') \<and>
    methods_GetTransaction E V C reader (sv_db s') \<lparr>gt_Hash = hex_encode h, gt_Format = format\<rparr> =
      Inr resp \<and>
    td_Status (gtx_Details resp) =
      (if tx_Successful tx then TransactionStatusSuccess else TransactionStatusFailed) \<and>
    td_TransactionHash (gtx_Details resp) = hex_encode h \<and> td_Ledger (gtx_Details resp) = n \<and>
    tx_EnvelopeXDR tx = Inr env \<and> td_EnvelopeXDR (gtx_Details resp) = EncodeToString env \<and>
    tx_ResultXDR tx = Inr res \<and> td_ResultXDR (gtx_Details resp) = EncodeToString res \<and>
    tx_MetaXDR tx = Inr meta \<and> td_ResultMetaXDR (gtx_Details resp) = EncodeToString meta \<and>
    gtx_LatestLedger resp = n"
proof -
  from ingest_succeeds [OF assms(1-10)] obtain s' where
    s': "ingest E P rw N n s = (None, s')" "service_inv (Following (n + 1), s')"
      "map_of (ledger_close_meta (db_tables (sv_db s'))) n = Some m" by blast
  let ?t = "db_tables (sv_db s')"
  note row = ingest_indexes [OF s'(1) assms(4-6,8,3,9,11,12)]
  have ok: "store_ok ?t" "db_ok (sv_db s')" "ledger_close_meta ?t \<noteq> []"
    and nxt: "n + 1 = fst (last (ledger_close_meta ?t)) + 1"
    using s'(2,3) by (auto simp: store_inv_def expects_def)
  have "reads_txs (th_passphrase reader) m txs" "length txs < 2 ^ 32"
    using assms(9,15) by (simp_all add: ledger_valid_def)
  note get = GetTransaction_stored [OF ok(1) assms(1) s'(3) row this(1) assms(11) this(2), of V]
  note range = reader_range_nonempty [OF ok(2) assms(1) ok(3)]
  have "li_Sequence (ledger_info (snd (last (ledger_close_meta ?t)))) = n"
    using ledgers_ok_last [OF _ ok(3)] ok(1) nxt by (simp add: ledger_info_def store_ok_def)
  moreover have "IsValidFormat format = None" "format \<noteq> FormatJSON"
    using assms(16) by (auto simp: IsValidFormat_None FormatJSON_def FormatBase64_def)
  ultimately show ?thesis
    using s'(1) range get assms(6,13,14) ParseTransaction_fields [OF assms(14)]
    by (simp add: methods_GetTransaction_def hex_encode_length hex_decode_encode Let_def
        getTransaction_details_def xdr_details_def details_of_def tx_status_def ledger_info_def)
qed

text \<open>C13: Once a ledger is ingested, \<^verbatim>\<open>getTransaction\<close> asked for the hash of any of its
  transactions, outer or inner, answers that transaction: its status, its ledger and the base64
  text of exactly the result, envelope and meta the network reported; and the ledger range it
  reports ends at the ingested ledger.\<close>

theorem ingested_transaction_served:
  assumes "no_faults E" and "toid_spec (pk_toid P)" and "0 < rw_historyRetentionWindow rw"
    and "service_inv (Following n, s)" and "nw_GetLedger N n = Inr m"
    and "lcm_LedgerSequence m = n" and "0 < n" and "unat n + 1 < 2 ^ 31"
    and "ledger_valid P (rw_passphrase rw) (db_tables (sv_db s)) m txs"
    and "fees_valid (sv_feeWindows s) m"
    and "tx \<in> set txs" and "h \<in> set (tx_hashes tx)" and "length h = 32"
    and "ParseTransaction V m tx = Inr p" and "th_passphrase reader = rw_passphrase rw"
    and "format = '''' \<or> format = FormatBase64"
  shows "\<exists>s' resp env res meta. ingest E P rw N n s = (None, s') \<and>
    methods_GetTransaction E V C reader (sv_db s') \<lparr>gt_Hash = hex_encode h, gt_Format = format\<rparr> =
      Inr resp \<and>
    td_Status (gtx_Details resp) =
      (if tx_Successful tx then TransactionStatusSuccess else TransactionStatusFailed) \<and>
    td_TransactionHash (gtx_Details resp) = hex_encode h \<and> td_Ledger (gtx_Details resp) = n \<and>
    tx_EnvelopeXDR tx = Inr env \<and> td_EnvelopeXDR (gtx_Details resp) = EncodeToString env \<and>
    tx_ResultXDR tx = Inr res \<and> td_ResultXDR (gtx_Details resp) = EncodeToString res \<and>
    tx_MetaXDR tx = Inr meta \<and> td_ResultMetaXDR (gtx_Details resp) = EncodeToString meta \<and>
    gtx_LatestLedger resp = n"
  using assms by (rule served_after_ingest)

definition plain_json :: xdr2json_lib where
  "plain_json xdrTypeName field = (xdrTypeName, [])"

text \<open>The transaction of the example network, ingested as ledger 8.\<close>

lemma example_ingestible:
  obtains s p where "service_inv (Following 8, s)"
    and "ledger_valid example_pkgs (rw_passphrase example_rw) (db_tables (sv_db s)) (example_ledger 8 [event_tx]) [event_tx]"
    and "fees_valid (sv_feeWindows s) (example_ledger 8 [event_tx])"
    and "ParseTransaction blob_events (example_ledger 8 [event_tx]) event_tx = Inr p"
proof -
  from example_run obtain s where s: "service_inv (Following 8, s)"
    "db_tables (sv_db s) = three_ledgers" "sv_feeWindows s = example_windows" by blast
  have t: "transactions three_ledgers = []" by (simp add: three_ledgers_def empty_tables_def)
  obtain p where "ParseTransaction blob_events (example_ledger 8 [event_tx]) event_tx = Inr p"
    by (simp add: ParseTransaction_def event_tx_def example_tx_def blob_events_def
        transactionEventsIntoDiagnosticEvents_def)
  moreover have "ledger_valid example_pkgs (rw_passphrase example_rw) (db_tables (sv_db s))
      (example_ledger 8 [event_tx]) [event_tx]"
    using example_ledger_valid [OF t, of 8] s(2) by (simp add: example_rw_def)
  ultimately show ?thesis using that [OF s(1)] example_fees_valid [of 8] s(3) by simp
qed

lemma example_ingested_facts:
  "example_hash \<in> set (tx_hashes event_tx)" "length example_hash = 32" "tx_Successful event_tx"
  "nw_GetLedger example_network 8 = Inr (example_ledger 8 [event_tx])"
  "lcm_LedgerSequence (example_ledger 8 [event_tx]) = 8" "0 < rw_historyRetentionWindow example_rw"
  "th_passphrase writing_txs = rw_passphrase example_rw"
  by (simp_all add: tx_hashes_def event_tx_def example_hash_def example_tx_def example_network_def
      example_ledger_def example_rw_def writing_txs_def)

theorem ingested_transaction_served_witness:
  "\<exists>s s' resp. ingest calm_engine example_pkgs example_rw example_network 8 s = (None, s') \<and>
     methods_GetTransaction calm_engine blob_events plain_json writing_txs (sv_db s')
       \<lparr>gt_Hash = hex_encode example_hash, gt_Format = ''base64''\<rparr> = Inr resp \<and>
     td_Status (gtx_Details resp) = ''SUCCESS'' \<and> td_Ledger (gtx_Details resp) = 8"
proof -
  note f = example_ingested_facts
  obtain s p where s: "service_inv (Following 8, s)"
    "ledger_valid example_pkgs (rw_passphrase example_rw) (db_tables (sv_db s)) (example_ledger 8 [event_tx]) [event_tx]"
    "fees_valid (sv_feeWindows s) (example_ledger 8 [event_tx])"
    "ParseTransaction blob_events (example_ledger 8 [event_tx]) event_tx = Inr p"
    by (rule example_ingestible)
  from ingested_transaction_served [OF calm_engine_no_faults _ f(6) s(1) f(4,5) _ _ s(2,3) _ f(1,2) s(4) f(7),
      of "''base64''" plain_json] f(3)
  show ?thesis
    by (fastforce simp: toid_layout_spec FormatBase64_def TransactionStatusSuccess_def)
qed

text \<open>\<^verbatim>\<open>getHealth\<close> on a store with ledgers reports healthy exactly when the newest stored
  ledger closed no longer ago than the configured latency, and then names the oldest and the
  newest stored ledger; in every other case it answers an internal error.\<close>

theorem health_decides_latency:
  assumes "db_ok db" and "no_faults E" and "ledger_close_meta (db_tables db) \<noteq> []"
    and "0 < fst (last (ledger_close_meta (db_tables db)))"
    and "0 \<le> latency" and "latency < maxDuration"
  shows "case NewHealthCheck E now window latency db of
      Inr r \<Rightarrow>
        now - lcm_LedgerCloseTime (snd (last (ledger_close_meta (db_tables db)))) * Second \<le> latency \<and>
        gh_OldestLedger r = fst (hd (ledger_close_meta (db_tables db))) \<and>
        gh_LatestLedger r = fst (last (ledger_close_meta (db_tables db)))
    | Inl e \<Rightarrow>
        latency < now - lcm_LedgerCloseTime (snd (last (ledger_close_meta (db_tables db)))) * Second \<and>
        (\<exists>msg. e = JErr InternalError msg)"
proof -
  let ?tbl = "ledger_close_meta (db_tables db)"
  have ok: "ledgers_ok ?tbl" using assms(1) by (simp add: db_ok_def)
  have l: "lcm_LedgerSequence (snd (last ?tbl)) = fst (last ?tbl)"
    using ledgers_ok_last [OF ok assms(3)] by simp
  have h: "lcm_LedgerSequence (snd (hd ?tbl)) = fst (hd ?tbl)"
    using ok hd_in_set [OF assms(3)] by (auto simp: ledgers_ok_def split: prod.splits)
  have seq: "\<not> fst (last ?tbl) < 1" using assms(4) by (simp add: word_less_nat_alt)
  have sat: "latency < saturate d \<longleftrightarrow> latency < d" for d
    using assms(5,6) by (auto simp: saturate_def)
  show ?thesis
    using reader_range_nonempty [OF assms(1-3)] seq
    by (simp add: NewHealthCheck_def ledger_info_def Let_def l h sat not_less)
qed

theorem health_decides_latency_witness:
  "\<exists>r. NewHealthCheck calm_engine (40 * Second) 2 (30 * Second) (OpenSQLiteDB three_ledgers) = Inr r \<and>
     gh_OldestLedger r = 5 \<and> gh_LatestLedger r = 7"
proof -
  let ?db = "OpenSQLiteDB three_ledgers"
  have ok: "db_ok ?db"
    using three_ledgers_ok by (intro OpenSQLiteDB_ok) (simp add: store_ok_def)
  have t: "ledger_close_meta (db_tables ?db) =
      [(5, example_ledger 5 []), (6, example_ledger 6 []), (7, example_ledger 7 [])]"
    by (simp add: OpenSQLiteDB_def three_ledgers_def)
  have time: "lcm_LedgerCloseTime (example_ledger 7 []) = 35" by (simp add: example_ledger_def)
  have d: "0 \<le> 30 * Second" "30 * Second < maxDuration" by (simp_all add: Second_def maxDuration_def)
  have "ledger_close_meta (db_tables ?db) \<noteq> []" "0 < fst (last (ledger_close_meta (db_tables ?db)))"
    by (simp_all add: t)
  from health_decides_latency [OF ok calm_engine_no_faults this d, of "40 * Second" 2] show ?thesis
    by (cases "NewHealthCheck calm_engine (40 * Second) 2 (30 * Second) ?db")
      (simp_all add: time t Second_def)
qed

end
