(* ===== verification/LedgersMethod.thy ===== *)
theory LedgersMethod
  imports Handlers
begin

text \<open>
  \<^verbatim>\<open>rpcdatastore/ledger_reader.go\<close> and \<^verbatim>\<open>methods/get_ledgers.go\<close>: pages of ledgers from the
  local store and, for the part before it, from a remote object store. The remote backend is a
  parameter. Its loop runs over 32-bit sequence numbers and never ends when the range ends at
  the largest one: it is a partial function, \<open>None\<close> standing for a call that does not return.
\<close>

subsection \<open>The datastore reader\<close>

record 'v ledger_backend =
  bk_PrepareRange :: "u32 \<Rightarrow> u32 \<Rightarrow> go_error option"
  bk_GetLedger :: "u32 \<Rightarrow> 'v LedgerCloseMeta res"

text \<open>\<^verbatim>\<open>for sequence := From(); sequence <= To(); sequence++\<close>\<close>

partial_function (option) ds_loop ::
  "'v ledger_backend \<Rightarrow> u32 \<Rightarrow> u32 \<Rightarrow> 'v LedgerCloseMeta list \<Rightarrow> ('v LedgerCloseMeta list res) option"
where
  "ds_loop B sequence upTo ledgers =
     (if sequence \<le> upTo then
        (case bk_GetLedger B sequence of
           Inl err \<Rightarrow> Some (Inl err)
         | Inr ledger \<Rightarrow> ds_loop B (sequence + 1) upTo (ledgers @ [ledger]))
      else Some (Inr ledgers))"

declare ds_loop.simps [code]

text \<open>\<open>NewBufferedBackend\<close> answers an error or a backend.\<close>

definition ds_GetLedgers ::
  "('v ledger_backend) res \<Rightarrow> u32 \<Rightarrow> u32 \<Rightarrow> ('v LedgerCloseMeta list res) option" where
  "ds_GetLedgers newBufferedBackend start end =
     (case newBufferedBackend of
        Inl err \<Rightarrow> Some (Inl (wrap_err ''failed to create buffered storage backend: '' err))
      | Inr B \<Rightarrow>
          (case bk_PrepareRange B start end of
             Some err \<Rightarrow> Some (Inl err)
           | None \<Rightarrow> ds_loop B start end []))"

definition GetAvailableLedgerRange :: "LedgerSeqRange res" where
  "GetAvailableLedgerRange = Inr \<lparr>lsr_FirstLedger = 2, lsr_LastLedger = 0\<rparr>"

subsection \<open>getLedgers\<close>

record 'v ledgersHandler =
  lh_maxLimit :: nat
  lh_defaultLimit :: nat
  lh_datastore :: "('v ledger_backend) res option"
    \<comment> \<open>what \<^verbatim>\<open>NewBufferedBackend\<close> answers when a datastore is configured\<close>

definition parseLedgerInfo ::
  "xdr2json_lib \<Rightarrow> 'v LedgerCloseMeta \<Rightarrow> string \<Rightarrow> protocol_LedgerInfo res" where
  "parseLedgerInfo C ledger format =
     (let ledgerInfo = \<lparr>pli_Hash = hex_encode (lcm_LedgerHash ledger),
            pli_Sequence = lcm_LedgerSequence ledger,
            pli_LedgerCloseTime = lcm_LedgerCloseTime ledger, pli_LedgerHeader = [],
            pli_LedgerHeaderJSON = [], pli_LedgerMetadata = [], pli_LedgerMetadataJSON = []\<rparr> in
      if format = FormatJSON then
        bind_res (ledgerToJSON C ledger) (\<lambda>(meta, header).
          Inr (ledgerInfo\<lparr>pli_LedgerMetadataJSON := meta, pli_LedgerHeaderJSON := header\<rparr>))
      else
        bind_res (map_err (wrap_err ''error marshaling ledger close meta: '') (lcm_MarshalBinary ledger))
          (\<lambda>closeMetaB.
        bind_res (map_err (wrap_err ''error marshaling ledger header: '') (lcm_HeaderMarshalBinary ledger))
          (\<lambda>headerB.
            Inr (ledgerInfo\<lparr>pli_LedgerMetadata := EncodeToString closeMetaB,
                            pli_LedgerHeader := EncodeToString headerB\<rparr>))))"

definition fetchFromLocalDB ::
  "engine \<Rightarrow> 'v ledgerReaderTx \<Rightarrow> u32 \<Rightarrow> u32 \<Rightarrow> ('v LedgerCloseMeta list) answer" where
  "fetchFromLocalDB E readTx start end =
     map_err (jerr_fmt InternalError (\<lambda>m. ''error fetching ledgers from db: '' @ m))
       (readerTx_BatchGetLedgers E readTx start end)"

definition fetchFromDatastore ::
  "('v ledger_backend) res option \<Rightarrow> u32 \<Rightarrow> u32 \<Rightarrow> ('v LedgerCloseMeta list) answer option" where
  "fetchFromDatastore D start end =
     (case D of
        None \<Rightarrow> Some (Inl (JErr InvalidParams ''datastore ledger reader not configured''))
      | Some newBufferedBackend \<Rightarrow>
          map_option (map_err (jerr_fmt InternalError
              (\<lambda>m. ''error fetching ledgers from datastore: '' @ m)))
            (ds_GetLedgers newBufferedBackend start end))"

text \<open>The conversion loop, which stops once \<open>limit\<close> ledgers are converted.\<close>

fun convert_ledgers ::
  "xdr2json_lib \<Rightarrow> string \<Rightarrow> nat \<Rightarrow> 'v LedgerCloseMeta list \<Rightarrow> protocol_LedgerInfo list \<Rightarrow>
   (protocol_LedgerInfo list) answer" where
  "convert_ledgers C format limit [] result = Inr result"
| "convert_ledgers C format limit (ledger # ledgers) result =
     (if limit \<le> length result then Inr result
      else bind_res (map_err (jerr_fmt InternalError (\<lambda>m. ''error processing ledger '' @
               show_u32 (lcm_LedgerSequence ledger) @ '': '' @ m)) (parseLedgerInfo C ledger format))
             (\<lambda>info. convert_ledgers C format limit ledgers (result @ [info])))"

definition fetchLedgers ::
  "engine \<Rightarrow> xdr2json_lib \<Rightarrow> ('v ledger_backend) res option \<Rightarrow> u32 \<Rightarrow> u32 \<Rightarrow> string \<Rightarrow> 'v ledgerReaderTx \<Rightarrow>
   LedgerSeqRange \<Rightarrow> (protocol_LedgerInfo list) answer option" where
  "fetchLedgers E C D start end format readTx localLedgerRange =
     (let limit = end - start + 1;
          first = lsr_FirstLedger localLedgerRange;
          fetched =
            (if start \<ge> first then Some (fetchFromLocalDB E readTx start end)
             else if end < first then fetchFromDatastore D start end
             else map_option (\<lambda>r. bind_res r (\<lambda>dataStoreLedgers.
                    bind_res (fetchFromLocalDB E readTx first end)
                      (\<lambda>localLedgers. Inr (dataStoreLedgers @ localLedgers))))
                  (fetchFromDatastore D start (first - 1)))
      in map_option (\<lambda>r. bind_res r (\<lambda>ledgers. convert_ledgers C format (unat limit) ledgers []))
           fetched)"

definition ledgers_parseCursor :: "string \<Rightarrow> LedgerSeqRange \<Rightarrow> u32 res" where
  "ledgers_parseCursor cursor ledgerRange =
     bind_res (ParseUint 32 cursor) (\<lambda>cursorInt.
       let start = of_nat cursorInt + 1 in
       if \<not> IsLedgerWithinRange start ledgerRange then
         Inl (Err (''cursor must be between the oldest ledger: '' @
           show_u32 (lsr_FirstLedger ledgerRange) @ '' and the latest ledger: '' @
           show_u32 (lsr_LastLedger ledgerRange) @ '' for this rpc instance''))
       else Inr start)"

definition ledgers_initializePagination ::
  "'v ledgersHandler \<Rightarrow> GetLedgersRequest \<Rightarrow> LedgerSeqRange \<Rightarrow> (u32 \<times> nat) res" where
  "ledgers_initializePagination h request ledgerRange =
     (case glr_Pagination request of
        None \<Rightarrow> Inr (glr_StartLedger request, lh_defaultLimit h)
      | Some p \<Rightarrow>
          bind_res (if lp_Cursor p \<noteq> [] then ledgers_parseCursor (lp_Cursor p) ledgerRange
                    else Inr (glr_StartLedger request))
            (\<lambda>start. Inr (start, if lp_Limit p \<le> 0 then lh_defaultLimit h else lp_Limit p)))"

text \<open>An index out of range panics: \<^verbatim>\<open>ledgers[len(ledgers)-1]\<close> on an empty slice.\<close>

definition getLedgers ::
  "engine \<Rightarrow> xdr2json_lib \<Rightarrow> 'v ledgersHandler \<Rightarrow> 'v DB \<Rightarrow> GetLedgersRequest \<Rightarrow>
   GetLedgersResponse answer option" where
  "getLedgers E C h db request =
     (case NewLedgerReaderTx E db of
        Inl err \<Rightarrow> Some (Inl (jerr InternalError err))
      | Inr readTx \<Rightarrow>
     (case readerTx_GetLedgerRange E readTx of
        Inl err \<Rightarrow> Some (Inl (jerr InternalError err))
      | Inr ledgerRange \<Rightarrow>
     let local = ToLedgerSeqRange ledgerRange;
         available = (case lh_datastore h of
             None \<Rightarrow> local
           | Some _ \<Rightarrow> (case GetAvailableLedgerRange of
                 Inl _ \<Rightarrow> local
               | Inr dsRange \<Rightarrow> local\<lparr>lsr_FirstLedger :=
                   min (lsr_FirstLedger dsRange) (lsr_FirstLedger local)\<rparr>))
     in case GetLedgersRequest_Validate request (lh_maxLimit h) available of
          Some err \<Rightarrow> Some (Inl (JErr InvalidRequest err))
        | None \<Rightarrow>
     (case ledgers_initializePagination h request available of
        Inl err \<Rightarrow> Some (Inl (jerr InvalidParams err))
      | Inr (start, limit) \<Rightarrow>
     let end = start + of_nat limit - 1 in
     map_option (\<lambda>r. bind_res r (\<lambda>ledgers.
         if ledgers = [] then Inl (HPanic ''index out of range [-1]'')
         else Inr \<lparr>glp_Ledgers = ledgers,
                   glp_LatestLedger = li_Sequence (lr_LastLedger ledgerRange),
                   glp_LatestLedgerCloseTime = li_CloseTime (lr_LastLedger ledgerRange),
                   glp_OldestLedger = li_Sequence (lr_FirstLedger ledgerRange),
                   glp_OldestLedgerCloseTime = li_CloseTime (lr_FirstLedger ledgerRange),
                   glp_Cursor = itoa (uint (pli_Sequence (last ledgers)))\<rparr>))
       (fetchLedgers E C (lh_datastore h) start end (glr_Format request) readTx local))))"

subsection \<open>The remote loop\<close>

lemma ds_loop_returns:
  assumes "unat upTo < 2 ^ 32 - 1"
  shows "\<exists>r. ds_loop B k upTo ms = Some r"
proof (induction "unat upTo + 1 - unat k" arbitrary: k ms)
  case 0
  then have "\<not> k \<le> upTo" by (simp add: word_le_nat_alt)
  then show ?case by (subst ds_loop.simps) simp
next
  case (Suc d)
  then have k: "k \<le> upTo" by (simp add: word_le_nat_alt)
  then have "unat k < 2 ^ 32 - 1" using assms by (simp add: word_le_nat_alt)
  then have "unat (k + 1) = Suc (unat k)" by (rule unat_Suc_u32)
  with Suc.hyps(2) have "d = unat upTo + 1 - unat (k + 1)" by simp
  note IH = Suc.hyps(1) [OF this]
  show ?case
    using k IH by (subst ds_loop.simps) (auto split: sum.splits)
qed

lemma ds_loop_diverges:
  assumes "\<forall>k. \<exists>m. bk_GetLedger B k = Inr m"
  shows "ds_loop B k (2 ^ 32 - 1) ms = None"
proof -
  have "upTo = 2 ^ 32 - 1 \<longrightarrow> (\<forall>k. \<exists>m. bk_GetLedger B k = Inr m) \<longrightarrow> False"
    if "ds_loop B k upTo ms = Some r" for k upTo ms r
    using that
  proof (induction rule: ds_loop.raw_induct [rotated, consumes 1, case_names step])
    case (step f B k upTo ms r)
    have top: "k \<le> upTo" if "upTo = 2 ^ 32 - 1"
      using that unat_less_2p32 [of k] by (simp add: word_le_nat_alt)
    show ?case
    proof (intro impI)
      assume u: "upTo = 2 ^ 32 - 1" and all: "\<forall>k. \<exists>m. bk_GetLedger B k = Inr m"
      from all obtain m where "bk_GetLedger B k = Inr m" by blast
      with step(2) top [OF u]
      have "f B (k + 1) upTo (ms @ [m]) = Some r" by simp
      from step(1) [OF this] u all show False by blast
    qed
  qed
  with assms show ?thesis by (cases "ds_loop B k (2 ^ 32 - 1) ms") blast+
qed

text \<open>A backend that serves every ledger, each under its own number.\<close>

definition serves_all :: "xdr2json_lib \<Rightarrow> string \<Rightarrow> 'v ledger_backend \<Rightarrow> bool" where
  "serves_all C format B \<longleftrightarrow> (\<forall>a b. bk_PrepareRange B a b = None) \<and>
     (\<forall>k. \<exists>m info. bk_GetLedger B k = Inr m \<and> lcm_LedgerSequence m = k \<and>
        parseLedgerInfo C m format = Inr info)"

definition printable :: "xdr2json_lib \<Rightarrow> string \<Rightarrow> 'v LedgerCloseMeta \<Rightarrow> bool" where
  "printable C format m \<longleftrightarrow> (\<exists>info. parseLedgerInfo C m format = Inr info)"

abbreviation seqs_of :: "'v LedgerCloseMeta list \<Rightarrow> nat list" where
  "seqs_of ms \<equiv> map (\<lambda>m. unat (lcm_LedgerSequence m)) ms"

lemma ds_loop_serves:
  assumes "unat upTo < 2 ^ 32 - 1" and "serves_all C format B"
  shows "\<exists>ms. ds_loop B k upTo acc = Some (Inr (acc @ ms)) \<and> list_all (printable C format) ms \<and>
    seqs_of ms = [unat k ..< unat upTo + 1]"
proof (induction "unat upTo + 1 - unat k" arbitrary: k acc)
  case 0
  then have "\<not> k \<le> upTo" by (simp add: word_le_nat_alt)
  with 0 show ?case by (subst ds_loop.simps) simp
next
  case (Suc d)
  then have k: "k \<le> upTo" by (simp add: word_le_nat_alt)
  then have "unat k < 2 ^ 32 - 1" using assms(1) by (simp add: word_le_nat_alt)
  then have k1: "unat (k + 1) = Suc (unat k)" by (rule unat_Suc_u32)
  with Suc.hyps(2) have d: "d = unat upTo + 1 - unat (k + 1)" by simp
  obtain m where m: "bk_GetLedger B k = Inr m" "lcm_LedgerSequence m = k" "printable C format m"
    using assms(2) unfolding serves_all_def printable_def by blast
  from Suc.hyps(1) [OF d, of "acc @ [m]"] obtain ms where
    ms: "ds_loop B (k + 1) upTo (acc @ [m]) = Some (Inr ((acc @ [m]) @ ms))"
      "list_all (printable C format) ms" "seqs_of ms = [unat (k + 1) ..< unat upTo + 1]" by blast
  have "ds_loop B k upTo acc = Some (Inr (acc @ m # ms))"
    using k m(1) ms(1) by (subst ds_loop.simps) simp
  moreover have "seqs_of (m # ms) = [unat k ..< unat upTo + 1]"
    using k m(2) ms(3) k1 by (simp add: word_le_nat_alt upt_conv_Cons)
  ultimately show ?case using m(3) ms(2) by (intro exI [of _ "m # ms"]) simp
qed

subsection \<open>Local pages\<close>

lemma filter_upt_between:
  "filter (\<lambda>x. a \<le> x \<and> x \<le> b) [c ..< d] = [max a c ..< min (b + 1) d]"
proof (induction d)
  case (Suc d)
  then show ?case
    by (cases "c \<le> d") (auto simp: max_def min_def)
qed simp

lemma gap_free_bounds:
  assumes "gap_free t" and "ledger_close_meta t \<noteq> []"
  shows "map (\<lambda>(k, m). unat k) (ledger_close_meta t) =
    [unat (fst (hd (ledger_close_meta t))) ..< unat (fst (last (ledger_close_meta t))) + 1]"
proof -
  let ?u = "\<lambda>(k, m). unat k"
  obtain a b where ab: "map ?u (ledger_close_meta t) = [a ..< b]"
    using assms(1) by (auto simp: gap_free_def)
  then have "a < b" using assms(2) by (metis list.map_disc_iff upt_eq_Nil_conv not_le)
  moreover have "unat (fst (hd (ledger_close_meta t))) = hd (map ?u (ledger_close_meta t))"
    "unat (fst (last (ledger_close_meta t))) = last (map ?u (ledger_close_meta t))"
    using assms(2) by (simp_all add: hd_map last_map case_prod_beta)
  ultimately show ?thesis using ab by simp
qed

lemma local_batch:
  assumes "ledgers_ok (ledger_close_meta t)" and "gap_free t" and "ledger_close_meta t \<noteq> []"
    and "no_faults E" and "\<forall>n. eng_order E n = [0..<n]" and "a \<le> b"
    and "\<forall>(k, m) \<in> set (ledger_close_meta t). printable C format m"
  shows "\<exists>ms. BatchGetLedgers E a b t = Inr ms \<and> list_all (printable C format) ms \<and>
    seqs_of ms = [max (unat a) (unat (fst (hd (ledger_close_meta t)))) ..<
      min (unat b + 1) (unat (fst (last (ledger_close_meta t))) + 1)]"
proof -
  let ?tbl = "ledger_close_meta t"
  let ?rows = "select_rows (\<lambda>k r. k \<ge> a \<and> k \<le> b) ?tbl"
  have "unordered E (map snd ?rows) = map snd ?rows"
    unfolding unordered_def assms(5) [rule_format] by (rule map_nth)
  then have "BatchGetLedgers E a b t = Inr (map snd ?rows)"
    using assms(4,6) by (simp add: BatchGetLedgers_def exec_stmt_def no_faults_def)
  moreover have "seqs_of (map snd ?rows) = map (\<lambda>(k, m). unat k) ?rows"
    using assms(1) by (auto simp: ledgers_ok_def select_rows_def)
  moreover have "map (\<lambda>(k, m). unat k) ?rows =
      filter (\<lambda>x. unat a \<le> x \<and> x \<le> unat b) (map (\<lambda>(k, m). unat k) ?tbl)"
    by (simp add: select_rows_def filter_map comp_def split_def word_le_nat_alt)
  moreover have "list_all (printable C format) (map snd ?rows)"
    using assms(7) by (auto simp: list_all_iff select_rows_def)
  ultimately show ?thesis
    by (simp only: gap_free_bounds [OF assms(2,3)] filter_upt_between) blast
qed

lemma convert_ledgers_all:
  assumes "list_all (printable C format) ms" and "length result + length ms \<le> limit"
  shows "\<exists>infos. convert_ledgers C format limit ms result = Inr (result @ infos) \<and>
    map (\<lambda>i. unat (pli_Sequence i)) infos = seqs_of ms"
  using assms
proof (induction ms arbitrary: result)
  case (Cons m ms)
  then obtain info where i: "parseLedgerInfo C m format = Inr info"
    by (auto simp: printable_def)
  then have s: "pli_Sequence info = lcm_LedgerSequence m"
    by (auto simp: parseLedgerInfo_def Let_def bind_res_Inr_iff split: if_splits)
  from Cons.IH [of "result @ [info]"] Cons.prems obtain infos where
    "convert_ledgers C format limit ms (result @ [info]) = Inr ((result @ [info]) @ infos)"
    "map (\<lambda>i. unat (pli_Sequence i)) infos = seqs_of ms" by auto
  with i s Cons.prems(2) show ?case by (intro exI [of _ "info # infos"]) simp
qed simp

subsection \<open>Pages\<close>

text \<open>Ledgers before the local range come from a datastore that serves all of them.\<close>

definition source_ok ::
  "xdr2json_lib \<Rightarrow> string \<Rightarrow> ('v ledger_backend) res option \<Rightarrow> u32 \<Rightarrow> u32 \<Rightarrow> bool" where
  "source_ok C format D first start \<longleftrightarrow>
     (case D of None \<Rightarrow> first \<le> start | Some nb \<Rightarrow> (\<exists>B. nb = Inr B \<and> serves_all C format B))"

text \<open>The store as a page request meets it.\<close>

definition readable :: "engine \<Rightarrow> xdr2json_lib \<Rightarrow> string \<Rightarrow> 'v tables \<Rightarrow> bool" where
  "readable E C format t \<longleftrightarrow> no_faults E \<and> (\<forall>n. eng_order E n = [0..<n]) \<and>
     ledgers_ok (ledger_close_meta t) \<and> gap_free t \<and> ledger_close_meta t \<noteq> [] \<and>
     (\<forall>(k, m) \<in> set (ledger_close_meta t). printable C format m)"

lemma local_page:
  assumes "readable E C format (r_tables r)" and "a \<le> b"
  shows "\<exists>ms. fetchFromLocalDB E r a b = Inr ms \<and> list_all (printable C format) ms \<and>
    seqs_of ms = [max (unat a) (unat (fst (hd (ledger_close_meta (r_tables r))))) ..<
      min (unat b + 1) (unat (fst (last (ledger_close_meta (r_tables r)))) + 1)]"
  using local_batch [of "r_tables r" E a b C format] assms
  by (auto simp: readable_def fetchFromLocalDB_def readerTx_BatchGetLedgers_def)

lemma remote_page:
  assumes "serves_all C format B" and "unat b < 2 ^ 32 - 1"
  shows "\<exists>ms. fetchFromDatastore (Some (Inr B)) a b = Some (Inr ms) \<and>
    list_all (printable C format) ms \<and> seqs_of ms = [unat a ..< unat b + 1]"
  using ds_loop_serves [OF assms(2,1), of a "[]"] assms(1)
  by (auto simp: fetchFromDatastore_def ds_GetLedgers_def serves_all_def)

lemma fetched_page:
  assumes "readable E C format (r_tables r)" and "source_ok C format D first s"
    and "first = fst (hd (ledger_close_meta (r_tables r)))"
    and "last' = fst (last (ledger_close_meta (r_tables r)))"
    and "s \<le> e" and "s \<le> last'" and "unat e < 2 ^ 32 - 1" and "0 < first"
  shows "\<exists>ms. (if s \<ge> first then Some (fetchFromLocalDB E r s e)
      else if e < first then fetchFromDatastore D s e
      else map_option (\<lambda>r'. bind_res r' (\<lambda>dataStoreLedgers.
             bind_res (fetchFromLocalDB E r first e)
               (\<lambda>localLedgers. Inr (dataStoreLedgers @ localLedgers))))
           (fetchFromDatastore D s (first - 1))) = Some (Inr ms) \<and>
    list_all (printable C format) ms \<and> seqs_of ms = [unat s ..< min (unat e + 1) (unat last' + 1)]"
proof -
  let ?t = "r_tables r"
  have ok: "ledgers_ok (ledger_close_meta ?t)" "ledger_close_meta ?t \<noteq> []"
    using assms(1) by (simp_all add: readable_def)
  have le: "first \<le> last'"
    using ok assms(3,4) table_ok_last_greatest [of "ledger_close_meta ?t" first "snd (hd (ledger_close_meta ?t))"]
    by (simp add: ledgers_ok_def)
  consider (local) "first \<le> s" | (remote) "s < first" "e < first" | (both) "s < first" "first \<le> e"
    by (meson not_less)
  then show ?thesis
  proof cases
    case local
    with local_page [OF assms(1,5)] assms(3,4) show ?thesis
      by (auto simp: word_le_nat_alt max_def)
  next
    case remote
    then obtain B where "D = Some (Inr B)" "serves_all C format B"
      using assms(2) by (auto simp: source_ok_def split: option.splits)
    with remote_page [of C format B e s] assms(7) remote le show ?thesis
      by (simp add: not_le word_le_nat_alt word_less_nat_alt)
  next
    case both
    then obtain B where B: "D = Some (Inr B)" "serves_all C format B"
      using assms(2) by (auto simp: source_ok_def split: option.splits)
    have f1: "unat (first - 1) = unat first - 1"
      using assms(8) by (simp add: unat_minus_one word_gt_0)
    then have "unat (first - 1) < 2 ^ 32 - 1" using unat_less_2p32 [of first] assms(8)
      by (simp add: word_less_nat_alt)
    have f2: "unat (first - 1) + 1 = unat first" using f1 assms(8) by (simp add: word_less_nat_alt)
    from remote_page [OF B(2) \<open>unat (first - 1) < 2 ^ 32 - 1\<close>, of s, unfolded f2] obtain ms where
      ms: "fetchFromDatastore D s (first - 1) = Some (Inr ms)" "list_all (printable C format) ms"
        "seqs_of ms = [unat s ..< unat first]"
      using B(1) by auto
    from local_page [OF assms(1) both(2)] assms(3,4) obtain ls where
      ls: "fetchFromLocalDB E r first e = Inr ls" "list_all (printable C format) ls"
        "seqs_of ls = [unat first ..< min (unat e + 1) (unat last' + 1)]" by auto
    have "unat s \<le> unat first" "unat first \<le> min (unat e + 1) (unat last' + 1)"
      using both le by (simp_all add: word_less_nat_alt word_le_nat_alt)
    then have "[unat s ..< unat first] @ [unat first ..< min (unat e + 1) (unat last' + 1)] =
        [unat s ..< min (unat e + 1) (unat last' + 1)]"
      using upt_add_eq_append [of "unat s" "unat first"]
      by (metis le_add_diff_inverse)
    then have "seqs_of (ms @ ls) = [unat s ..< min (unat e + 1) (unat last' + 1)]"
      using ms(3) ls(3) by simp
    moreover have "list_all (printable C format) (ms @ ls)" using ms(2) ls(2) by simp
    moreover have "\<not> first \<le> s" "\<not> e < first" using both by (simp_all add: not_le not_less)
    ultimately show ?thesis
      using ms(1) ls(1) by (intro exI [of _ "ms @ ls"] conjI) simp_all
  qed
qed

lemma fetchLedgers_page:
  assumes "readable E C format (r_tables r)" and "source_ok C format D first s"
    and "first = fst (hd (ledger_close_meta (r_tables r)))"
    and "last' = fst (last (ledger_close_meta (r_tables r)))"
    and "0 < n" and "unat s + n < 2 ^ 32" and "s \<le> last'" and "0 < first"
    and "lsr_FirstLedger rng = first"
  shows "\<exists>infos. fetchLedgers E C D s (s + of_nat n - 1) format r rng = Some (Inr infos) \<and>
    map (\<lambda>i. unat (pli_Sequence i)) infos = [unat s ..< min (unat s + n) (unat last' + 1)]"
proof -
  let ?e = "s + of_nat n - 1"
  have n1: "unat (of_nat (n - 1) :: u32) = n - 1" using assms(6) by (intro unat_of_nat_u32) simp
  have "?e = s + of_nat (n - 1)" using assms(5) by (simp add: of_nat_diff)
  moreover have "unat (s + of_nat (n - 1)) = unat s + (n - 1)"
    using unat_add_u32 [of s "of_nat (n - 1)"] n1 assms(6) by simp
  ultimately have e: "unat ?e = unat s + n - 1" using assms(5) by (metis Nat.add_diff_assoc Suc_leI One_nat_def)
  have lim: "?e - s + 1 = of_nat n" by simp
  have "s \<le> ?e" "unat ?e < 2 ^ 32 - 1" using e assms(5,6) by (simp_all add: word_le_nat_alt)
  from fetched_page [OF assms(1-4) this(1) assms(7) this(2) assms(8)] obtain ms where
    ms: "(if s \<ge> first then Some (fetchFromLocalDB E r s ?e)
      else if ?e < first then fetchFromDatastore D s ?e
      else map_option (\<lambda>r'. bind_res r' (\<lambda>dataStoreLedgers.
             bind_res (fetchFromLocalDB E r first ?e)
               (\<lambda>localLedgers. Inr (dataStoreLedgers @ localLedgers))))
           (fetchFromDatastore D s (first - 1))) = Some (Inr ms)"
    "list_all (printable C format) ms"
    "seqs_of ms = [unat s ..< min (unat ?e + 1) (unat last' + 1)]" by blast
  have e1: "unat ?e + 1 = unat s + n" using e assms(5) by simp
  have "length ms = length (seqs_of ms)" by simp
  also have "\<dots> = min (unat s + n) (unat last' + 1) - unat s" by (simp only: ms(3) length_upt e1)
  finally have "length ms \<le> n" by linarith
  moreover have "unat (of_nat n :: u32) = n" using assms(6) by (intro unat_of_nat_u32) simp
  ultimately obtain infos where "convert_ledgers C format (unat (of_nat n :: u32)) ms [] = Inr infos"
    "map (\<lambda>i. unat (pli_Sequence i)) infos = seqs_of ms"
    using convert_ledgers_all [OF ms(2), of "[]" n] by auto
  then show ?thesis
    using ms(1,3) by (simp only: fetchLedgers_def Let_def lim assms(9) e1) simp
qed

definition available_range :: "'v ledgersHandler \<Rightarrow> u32 \<Rightarrow> u32 \<Rightarrow> LedgerSeqRange" where
  "available_range h first last' =
     \<lparr>lsr_FirstLedger = (if lh_datastore h = None then first else min 2 first), lsr_LastLedger = last'\<rparr>"

lemma getLedgers_page:
  assumes "db_ok db" and "readable E C (glr_Format req) (db_tables db)"
    and "first = fst (hd (ledger_close_meta (db_tables db)))"
    and "last' = fst (last (ledger_close_meta (db_tables db)))" and "0 < first"
    and "\<forall>nb. lh_datastore h = Some nb \<longrightarrow> (\<exists>B. nb = Inr B \<and> serves_all C (glr_Format req) B)"
    and "GetLedgersRequest_Validate req (lh_maxLimit h) (available_range h first last') = None"
    and "ledgers_initializePagination h req (available_range h first last') = Inr (s, n)"
    and "IsLedgerWithinRange s (available_range h first last')"
    and "0 < n" and "unat s + n < 2 ^ 32"
  shows "\<exists>resp. getLedgers E C h db req = Some (Inr resp) \<and>
    map (\<lambda>i. unat (pli_Sequence i)) (glp_Ledgers resp) = [unat s ..< min (unat s + n) (unat last' + 1)] \<and>
    glp_Cursor resp = itoa (int (min (unat s + n) (unat last' + 1)) - 1)"
proof -
  let ?t = "db_tables db"
  have "no_faults E" "ledger_close_meta ?t \<noteq> []" using assms(2) by (simp_all add: readable_def)
  from reader_opens [OF assms(1) this] assms(3,4) obtain r rng where
    new: "NewLedgerReaderTx E db = Inr r" and tbl: "r_tables r = ?t" and
    rng: "readerTx_GetLedgerRange E r = Inr rng" and
    ends: "li_Sequence (lr_FirstLedger rng) = first" "li_Sequence (lr_LastLedger rng) = last'"
    by metis
  have src: "source_ok C (glr_Format req) (lh_datastore h) first s"
    using assms(6,9) by (auto simp: source_ok_def available_range_def IsLedgerWithinRange_def
        split: option.splits)
  have "s \<le> last'" using assms(9) by (simp add: IsLedgerWithinRange_def available_range_def)
  from fetchLedgers_page [of E C "glr_Format req" r, OF _ src _ _ assms(10,11) this assms(5),
      of "\<lparr>lsr_FirstLedger = first, lsr_LastLedger = last'\<rparr>"] assms(2,3,4)
  obtain infos where
    infos: "fetchLedgers E C (lh_datastore h) s (s + of_nat n - 1) (glr_Format req) r
        \<lparr>lsr_FirstLedger = first, lsr_LastLedger = last'\<rparr> = Some (Inr infos)"
      "map (\<lambda>i. unat (pli_Sequence i)) infos = [unat s ..< min (unat s + n) (unat last' + 1)]"
    by (auto simp: tbl)
  have lt: "unat s < min (unat s + n) (unat last' + 1)"
    using \<open>s \<le> last'\<close> assms(10) by (simp add: word_le_nat_alt)
  then have ne': "infos \<noteq> []"
    using infos(2) by (metis list.map_disc_iff upt_eq_Nil_conv not_le neq0_conv less_nat_zero_code)
  then have "unat (pli_Sequence (last infos)) = last (map (\<lambda>i. unat (pli_Sequence i)) infos)"
    by (simp add: last_map)
  also have "\<dots> = min (unat s + n) (unat last' + 1) - 1" using lt by (simp only: infos(2) last_upt)
  finally have cur: "uint (pli_Sequence (last infos)) = int (min (unat s + n) (unat last' + 1)) - 1"
    using lt by (simp add: uint_nat of_nat_diff)
  have avail: "(case lh_datastore h of None \<Rightarrow> \<lparr>lsr_FirstLedger = first, lsr_LastLedger = last'\<rparr>
      | Some _ \<Rightarrow> \<lparr>lsr_FirstLedger = min 2 first, lsr_LastLedger = last'\<rparr>) =
      available_range h first last'"
    by (simp add: available_range_def split: option.splits)
  show ?thesis
    using new rng infos ne' cur assms(7,8) avail
    by (simp add: getLedgers_def ToLedgerSeqRange_def ends GetAvailableLedgerRange_def
        cong: option.case_cong)
qed

subsection \<open>Properties\<close>

definition first_page :: "u32 \<Rightarrow> nat \<Rightarrow> string \<Rightarrow> GetLedgersRequest" where
  "first_page s n format = \<lparr>glr_StartLedger = s,
     glr_Pagination = Some \<lparr>lp_Cursor = [], lp_Limit = n\<rparr>, glr_Format = format\<rparr>"

definition next_page :: "string \<Rightarrow> nat \<Rightarrow> string \<Rightarrow> GetLedgersRequest" where
  "next_page cursor n format = \<lparr>glr_StartLedger = 0,
     glr_Pagination = Some \<lparr>lp_Cursor = cursor, lp_Limit = n\<rparr>, glr_Format = format\<rparr>"

abbreviation page_seqs :: "GetLedgersResponse \<Rightarrow> nat list" where
  "page_seqs resp \<equiv> map (\<lambda>i. unat (pli_Sequence i)) (glp_Ledgers resp)"

lemma itoa_nonempty: "0 \<le> x \<Longrightarrow> itoa x \<noteq> []"
  by (simp add: itoa_def sprintf0_nonempty)

lemma ledgers_parseCursor_itoa:
  assumes "0 < k" and "k < 2 ^ 32" and "IsLedgerWithinRange (of_nat k) rng"
  shows "ledgers_parseCursor (itoa (int k - 1)) rng = Inr (of_nat k)"
proof -
  have eq: "int k - 1 = int (k - 1)" using assms(1) by simp
  have "int k - 1 < 2 ^ 32" using assms(2) by simp
  then have "ParseUint 32 (sprintf0 0 (int k - 1)) = Inr (nat (int k - 1))"
    using assms(1) by (intro ParseUint_sprintf0) simp_all
  then have p: "ParseUint 32 (itoa (int k - 1)) = Inr (k - 1)"
    unfolding itoa_def by (simp only: eq nat_int)
  have "(of_nat (k - 1) :: u32) + 1 = of_nat k"
    using assms(1) by (metis Suc_pred' add.commute of_nat_Suc)
  with p assms(3) show ?thesis by (simp add: ledgers_parseCursor_def)
qed


definition example_backend :: "int ledger_backend" where
  "example_backend = \<lparr>bk_PrepareRange = (\<lambda>_ _. None), bk_GetLedger = (\<lambda>k. Inr (example_ledger k []))\<rparr>"

definition example_handler :: "int ledgersHandler" where
  "example_handler = \<lparr>lh_maxLimit = 200, lh_defaultLimit = 50, lh_datastore = Some (Inr example_backend)\<rparr>"

lemma example_printable: "printable C ''base64'' (example_ledger k txs)"
  by (simp add: printable_def parseLedgerInfo_def example_ledger_def FormatJSON_def)




end
