(* ===== verification/EventsMethod.thy ===== *)
theory EventsMethod
  imports Handlers
begin

text \<open>
  \<^verbatim>\<open>methods/get_events.go\<close>: the handler of \<^verbatim>\<open>getEvents\<close>. It combines the filters of the request
  into conditions on columns, which the database applies first, scans the rows of the cursor
  range, keeps those the request matches up to the limit, and formats them. A panic inside
  the scan function is the error kept in its state.
\<close>

subsection \<open>time.RFC3339\<close>

text \<open>The proleptic Gregorian date of a day, counted from 1970-01-01.\<close>

definition civil_from_days :: "int \<Rightarrow> int \<times> int \<times> int" where
  "civil_from_days days =
     (let z = days + 719468;
          era = z div 146097;
          doe = z mod 146097;
          yoe = (doe - doe div 1460 + doe div 36524 - doe div 146096) div 365;
          doy = doe - (365 * yoe + yoe div 4 - yoe div 100);
          mp = (5 * doy + 2) div 153;
          d = doy - (153 * mp + 2) div 5 + 1;
          m = (if mp < 10 then mp + 3 else mp - 9);
          y = yoe + era * 400 + (if m \<le> 2 then 1 else 0)
      in (y, m, d))"

text \<open>\<^verbatim>\<open>time.Unix(t, 0).UTC().Format(time.RFC3339)\<close>\<close>

definition format_rfc3339 :: "i64 \<Rightarrow> string" where
  "format_rfc3339 t =
     (case civil_from_days (t div 86400) of (y, m, d) \<Rightarrow>
      let s = t mod 86400 in
      (if y < 0 then ''-'' @ sprintf0 4 (- y) else sprintf0 4 y) @ ''-'' @ sprintf0 2 m @ ''-'' @
      sprintf0 2 d @ ''T'' @ sprintf0 2 (s div 3600) @ '':'' @ sprintf0 2 (s div 60 mod 60) @ '':'' @
      sprintf0 2 (s mod 60) @ ''Z'')"

text \<open>\<^verbatim>\<open>strkey.MustEncode\<close> panics with the error of \<^verbatim>\<open>Encode\<close>.\<close>

fun as_panic :: "go_error \<Rightarrow> go_error" where
  "as_panic (Err m) = Panic m"
| "as_panic (Panic m) = Panic m"

subsection \<open>Combining the filters\<close>

definition LedgerScanLimit :: u32 where
  "LedgerScanLimit = 10000"

record eventsRPCHandler =
  eh_maxLimit :: nat
  eh_defaultLimit :: nat

fun combine_ids :: "strkey_pkg \<Rightarrow> string list \<Rightarrow> string list \<Rightarrow> bytes list \<Rightarrow> (bytes list) res" where
  "combine_ids K [] seen ids = Inr ids"
| "combine_ids K (contractID # rest) seen ids =
     (if contractID \<in> set seen then combine_ids K rest seen ids
      else (case sk_Decode K contractID of
              Inl _ \<Rightarrow> Inl (Err (''invalid contract ID: '' @ contractID))
            | Inr b \<Rightarrow> combine_ids K rest (contractID # seen) (ids @ [b])))"

definition combineContractIDs :: "strkey_pkg \<Rightarrow> 'v EventFilter list \<Rightarrow> (bytes list) res" where
  "combineContractIDs K filters = combine_ids K (concat (map ef_ContractIDs filters)) [] []"

text \<open>A missing name reads the map's zero value. The result is a set in the code: its order is
  that of a map iteration, which no use of it depends on.\<close>

definition combineEventTypes :: "'v EventFilter list \<Rightarrow> int list" where
  "combineEventTypes filters =
     remdups (map (\<lambda>n. case GetEventTypeXDRFromEventType n of Some x \<Rightarrow> x | None \<Rightarrow> 0)
       (concat (map (\<lambda>f. EventTypeSet_Keys (ef_EventType f)) filters)))"

text \<open>One list per topic position; \<open>None\<close> is the nil slice. Writing past the positions panics.\<close>

fun add_segments ::
  "'v scval_pkg \<Rightarrow> nat \<Rightarrow> 'v SegmentFilter list \<Rightarrow> (bytes list option) list \<Rightarrow>
   ((bytes list option) list) res" where
  "add_segments X i [] acc = Inr acc"
| "add_segments X i (s # ss) acc =
     (case (sf_Wildcard s, sf_ScVal s) of
        (None, Some v) \<Rightarrow>
          bind_res (map_err (wrap_err ''failed to marshal segment: '') (sv_MarshalBinary X v)) (\<lambda>b.
            if i < length acc then
              add_segments X (Suc i) ss
                (acc[i := Some ((case acc ! i of None \<Rightarrow> [] | Some bs \<Rightarrow> bs) @ [b])])
            else Inl (Panic ''index out of range''))
      | _ \<Rightarrow> add_segments X (Suc i) ss acc)"

fun add_topics ::
  "'v scval_pkg \<Rightarrow> 'v TopicFilter list \<Rightarrow> (bytes list option) list \<Rightarrow> ((bytes list option) list) res" where
  "add_topics X [] acc = Inr acc"
| "add_topics X (t # ts) acc = bind_res (add_segments X 0 t acc) (add_topics X ts)"

fun combine_topics ::
  "'v scval_pkg \<Rightarrow> 'v EventFilter list \<Rightarrow> (bytes list option) list \<Rightarrow> ((bytes list option) list) res" where
  "combine_topics X [] acc = Inr acc"
| "combine_topics X (f # fs) acc =
     (if ef_Topics f = [] then Inr []
      else bind_res (add_topics X (ef_Topics f) acc) (combine_topics X fs))"

definition combineTopics ::
  "'v scval_pkg \<Rightarrow> 'v EventFilter list \<Rightarrow> ((bytes list option) list) res" where
  "combineTopics X filters = combine_topics X filters (replicate MaxTopicCount None)"

subsection \<open>Formatting an event\<close>

record 'v event_entry =
  en_cursor :: Cursor
  en_ledgerCloseTimestamp :: i64
  en_event :: "'v DiagnosticEvent"
  en_txHash :: bytes

definition zero_EventInfo :: EventInfo where
  "zero_EventInfo = \<lparr>ei_EventType = [], ei_Ledger = 0, ei_LedgerClosedAt = [], ei_ContractID = [],
     ei_ID = [], ei_OpIndex = 0, ei_TxIndex = 0, ei_InSuccessfulContractCall = False,
     ei_TransactionHash = [], ei_TopicXDR = [], ei_TopicJSON = [], ei_ValueXDR = [],
     ei_ValueJSON = []\<rparr>"

definition event_payload ::
  "'v pkgs \<Rightarrow> xdr2json_lib \<Rightarrow> string \<Rightarrow> 'v ContractEventV0 \<Rightarrow> EventInfo \<Rightarrow> EventInfo res" where
  "event_payload P C format v0 info =
     (if format = FormatJSON then
        bind_res (traverse (\<lambda>topic. ConvertInterface C ''ScVal'' (sv_MarshalBinary (pk_scval P) topic))
            (v0_Topics v0)) (\<lambda>topics.
        bind_res (ConvertInterface C ''ScVal'' (sv_MarshalBinary (pk_scval P) (v0_Data v0))) (\<lambda>value.
          Inr (info\<lparr>ei_TopicJSON := topics, ei_ValueJSON := value\<rparr>)))
      else
        bind_res (traverse (sv_MarshalBase64 (pk_scval P)) (v0_Topics v0)) (\<lambda>topic.
        bind_res (sv_MarshalBase64 (pk_scval P) (v0_Data v0)) (\<lambda>data.
          Inr (info\<lparr>ei_TopicXDR := topic, ei_ValueXDR := data\<rparr>))))"

definition eventInfoForEvent ::
  "'v pkgs \<Rightarrow> xdr2json_lib \<Rightarrow> 'v DiagnosticEvent \<Rightarrow> Cursor \<Rightarrow> string \<Rightarrow> string \<Rightarrow> string \<Rightarrow> EventInfo res" where
  "eventInfoForEvent P C event cursor ledgerClosedAt txHash format =
     (case ce_Body (de_Event event) of
        None \<Rightarrow> Inl (Err ''unknown event version'')
      | Some v0 \<Rightarrow>
     (case GetEventTypeFromEventTypeXDR (ce_Type (de_Event event)) of
        None \<Rightarrow> Inl (Err (''unknown XDR ContractEventType type: '' @ itoa (ce_Type (de_Event event))))
      | Some eventType \<Rightarrow>
     (case Cursor_String (pk_toid P) cursor of
        None \<Rightarrow> Inl (Panic ''toid'')
      | Some eid \<Rightarrow>
          bind_res (event_payload P C format v0
            (zero_EventInfo\<lparr>ei_EventType := eventType, ei_Ledger := sint (c_Ledger cursor),
               ei_LedgerClosedAt := ledgerClosedAt, ei_ID := eid,
               ei_InSuccessfulContractCall := de_InSuccessfulContractCall event,
               ei_TransactionHash := txHash, ei_OpIndex := c_Op cursor, ei_TxIndex := c_Tx cursor\<rparr>))
          (\<lambda>info. case ce_ContractId (de_Event event) of
             None \<Rightarrow> Inr info
           | Some c \<Rightarrow> bind_res (map_err as_panic (sk_MustEncode (pk_strkey P) c))
               (\<lambda>s. Inr (info\<lparr>ei_ContractID := s\<rparr>))))))"

definition entry_info ::
  "'v pkgs \<Rightarrow> xdr2json_lib \<Rightarrow> string \<Rightarrow> 'v event_entry \<Rightarrow> EventInfo res" where
  "entry_info P C format entry =
     eventInfoForEvent P C (en_event entry) (en_cursor entry)
       (format_rfc3339 (en_ledgerCloseTimestamp entry)) (hex_encode (en_txHash entry)) format"

subsection \<open>The handler\<close>

definition eventScanFunction ::
  "'v pkgs \<Rightarrow> 'v GetEventsRequest \<Rightarrow> nat \<Rightarrow> 'v DiagnosticEvent \<Rightarrow> Cursor \<Rightarrow> i64 \<Rightarrow> bytes \<Rightarrow>
   ('v event_entry list) res \<Rightarrow> bool \<times> ('v event_entry list) res" where
  "eventScanFunction P request limit event cursor ledgerCloseTimestamp txHash found =
     (case found of
        Inl p \<Rightarrow> (False, Inl p)
      | Inr es \<Rightarrow>
          (case GetEventsRequest_Matches (pk_strkey P) (pk_scval P) request event of
             Inl p \<Rightarrow> (False, Inl p)
           | Inr ok \<Rightarrow>
               let es' = (if ok then es @ [\<lparr>en_cursor = cursor,
                     en_ledgerCloseTimestamp = ledgerCloseTimestamp, en_event = event,
                     en_txHash = txHash\<rparr>] else es)
               in (length es' < limit, Inr es')))"

definition request_start :: "'v GetEventsRequest \<Rightarrow> Cursor" where
  "request_start request =
     (case ger_Pagination request of
        Some p \<Rightarrow> (case po_Cursor p of
            Some c \<Rightarrow> Cursor (c_Ledger c) (c_Tx c) (c_Op c) (c_Event c + 1)
          | None \<Rightarrow> Cursor (ger_StartLedger request) 0 0 0)
      | None \<Rightarrow> Cursor (ger_StartLedger request) 0 0 0)"

definition request_limit :: "eventsRPCHandler \<Rightarrow> 'v GetEventsRequest \<Rightarrow> nat" where
  "request_limit h request =
     (case ger_Pagination request of
        Some p \<Rightarrow> if po_Limit p > 0 then po_Limit p else eh_defaultLimit h
      | None \<Rightarrow> eh_defaultLimit h)"

definition request_end :: "'v GetEventsRequest \<Rightarrow> Cursor \<Rightarrow> LedgerRange \<Rightarrow> u32" where
  "request_end request start ledgerRange =
     (let endLedger = min (li_Sequence (lr_LastLedger ledgerRange) + 1) (c_Ledger start + LedgerScanLimit)
      in if ger_EndLedger request \<noteq> 0 then min (ger_EndLedger request) endLedger else endLedger)"

fun plain_wrap :: "string \<Rightarrow> go_error \<Rightarrow> handler_error" where
  "plain_wrap pre (Err m) = PlainErr (pre @ m)"
| "plain_wrap pre (Panic m) = HPanic m"

definition page_cursor :: "toid_pkg \<Rightarrow> EventInfo list \<Rightarrow> nat \<Rightarrow> u32 \<Rightarrow> string answer" where
  "page_cursor T results limit endLedger =
     (if length results = limit then
        (if results = [] then Inl (HPanic ''index out of range [-1]'') else Inr (ei_ID (last results)))
      else (case Cursor_String T (case MaxCursor T of Cursor l t op ev \<Rightarrow> Cursor (endLedger - 1) t op ev) of
              None \<Rightarrow> Inl (HPanic ''toid'')
            | Some c \<Rightarrow> Inr c))"

definition getEvents ::
  "engine \<Rightarrow> 'v pkgs \<Rightarrow> xdr2json_lib \<Rightarrow> eventsRPCHandler \<Rightarrow> 'v DB \<Rightarrow> 'v GetEventsRequest \<Rightarrow>
   GetEventsResponse answer" where
  "getEvents E P C h db request =
     (case GetEventsRequest_Valid (pk_strkey P) request (eh_maxLimit h) of
        Some err \<Rightarrow> Inl (JErr InvalidParams err)
      | None \<Rightarrow>
     bind_res (map_err (jerr InternalError) (reader_GetLedgerRange E db)) (\<lambda>ledgerRange.
     let start = request_start request;
         limit = request_limit h request;
         endLedger = request_end request start ledgerRange;
         cursorRange = \<lparr>cr_Start = start, cr_End = Cursor endLedger 0 0 0\<rparr> in
     if c_Ledger start < li_Sequence (lr_FirstLedger ledgerRange) \<or>
        c_Ledger start > li_Sequence (lr_LastLedger ledgerRange) then
       Inl (JErr InvalidRequest (''startLedger must be within the ledger range: '' @
         show_u32 (li_Sequence (lr_FirstLedger ledgerRange)) @ '' - '' @
         show_u32 (li_Sequence (lr_LastLedger ledgerRange))))
     else
     bind_res (map_err (jerr InvalidParams) (combineContractIDs (pk_strkey P) (ger_Filters request)))
       (\<lambda>contractIDs.
     bind_res (map_err (jerr InvalidParams) (combineTopics (pk_scval P) (ger_Filters request)))
       (\<lambda>topics.
     case GetEvents E P cursorRange contractIDs topics (combineEventTypes (ger_Filters request))
            (eventScanFunction P request limit) (db_tables db) (Inr []) of
       (_, Inl p) \<Rightarrow> Inl (jerr InvalidRequest (as_panic p))
     | (Some err, _) \<Rightarrow> Inl (jerr InvalidRequest err)
     | (None, Inr found) \<Rightarrow>
         bind_res (map_err (plain_wrap ''could not parse event: '')
             (traverse (entry_info P C (ger_Format request)) found)) (\<lambda>results.
         bind_res (page_cursor (pk_toid P) results limit endLedger) (\<lambda>cursor.
           Inr \<lparr>gep_Events = results, gep_Cursor = cursor,
                gep_LatestLedger = li_Sequence (lr_LastLedger ledgerRange),
                gep_OldestLedger = li_Sequence (lr_FirstLedger ledgerRange),
                gep_LatestLedgerCloseTime = li_CloseTime (lr_LastLedger ledgerRange),
                gep_OldestLedgerCloseTime = li_CloseTime (lr_FirstLedger ledgerRange)\<rparr>))))))"

subsection \<open>The combined conditions\<close>

text \<open>A segment that names a value, rather than a wildcard.\<close>

definition concrete :: "'v SegmentFilter \<Rightarrow> 'v \<Rightarrow> bool" where
  "concrete s v \<longleftrightarrow> sf_Wildcard s = None \<and> sf_ScVal s = Some v"

definition selective :: "'v TopicFilter \<Rightarrow> bool" where
  "selective t \<longleftrightarrow> (\<exists>s \<in> set t. \<exists>v. concrete s v)"

lemma combine_ids_ok:
  assumes "\<forall>x \<in> set xs. \<exists>b. sk_Decode K x = Inr b"
    and "\<forall>x \<in> set seen. \<exists>b \<in> set ids. sk_Decode K x = Inr b"
    and "\<forall>b \<in> set ids. \<exists>x. sk_Decode K x = Inr b" and "ids = [] \<longleftrightarrow> seen = []"
  shows "\<exists>ids'. combine_ids K xs seen ids = Inr ids' \<and>
    (\<forall>x \<in> set xs \<union> set seen. \<exists>b \<in> set ids'. sk_Decode K x = Inr b) \<and>
    (\<forall>b \<in> set ids'. \<exists>x. sk_Decode K x = Inr b) \<and> (ids' = [] \<longleftrightarrow> xs = [] \<and> seen = [])"
  using assms
proof (induction xs arbitrary: seen ids)
  case (Cons x xs)
  show ?case
  proof (cases "x \<in> set seen")
    case True
    from Cons.IH [of seen ids] Cons.prems obtain ids' where ids':
      "combine_ids K xs seen ids = Inr ids'"
      "\<forall>x \<in> set xs \<union> set seen. \<exists>b \<in> set ids'. sk_Decode K x = Inr b"
      "\<forall>b \<in> set ids'. \<exists>x. sk_Decode K x = Inr b" "ids' = [] \<longleftrightarrow> xs = [] \<and> seen = []" by auto
    then show ?thesis using True by (intro exI [of _ ids']) auto
  next
    case False
    from Cons.prems(1) obtain b where b: "sk_Decode K x = Inr b" by auto
    with Cons.IH [of "x # seen" "ids @ [b]"] Cons.prems False show ?thesis by auto
  qed
qed auto

lemma combineContractIDs_ok:
  assumes "\<forall>f \<in> set fs. EventFilter_Valid K f = None"
  shows "\<exists>ids. combineContractIDs K fs = Inr ids \<and>
    (\<forall>f \<in> set fs. \<forall>x \<in> set (ef_ContractIDs f). \<exists>b \<in> set ids. sk_Decode K x = Inr b) \<and>
    (\<forall>b \<in> set ids. \<exists>x. sk_Decode K x = Inr b) \<and>
    (ids = [] \<longleftrightarrow> (\<forall>f \<in> set fs. ef_ContractIDs f = []))"
proof -
  have "\<forall>x \<in> set (concat (map ef_ContractIDs fs)). \<exists>b. sk_Decode K x = Inr b"
    using assms by (auto simp: EventFilter_Valid_None)
  from combine_ids_ok [OF this, of "[]" "[]"] show ?thesis
    by (auto simp: combineContractIDs_def)
qed

definition grows :: "(bytes list option) list \<Rightarrow> (bytes list option) list \<Rightarrow> bool" where
  "grows acc acc' \<longleftrightarrow> length acc' = length acc \<and>
     (\<forall>j < length acc. \<forall>bs. acc ! j = Some bs \<longrightarrow> (\<exists>bs'. acc' ! j = Some bs' \<and> set bs \<subseteq> set bs'))"

lemma grows_refl [simp]: "grows acc acc"
  by (simp add: grows_def)

lemma grows_trans: "grows a b \<Longrightarrow> grows b c \<Longrightarrow> grows a c"
  unfolding grows_def by (fastforce dest: spec)

definition covers ::
  "'v scval_pkg \<Rightarrow> (bytes list option) list \<Rightarrow> nat \<Rightarrow> 'v SegmentFilter list \<Rightarrow> bool" where
  "covers X acc i ss \<longleftrightarrow> (\<forall>j < length ss. \<forall>v b. concrete (ss ! j) v \<longrightarrow> sv_MarshalBinary X v = Inr b \<longrightarrow>
     i + j < length acc \<and> (\<exists>bs. acc ! (i + j) = Some bs \<and> b \<in> set bs))"

lemma grows_at:
  "grows acc acc' \<Longrightarrow> j < length acc \<Longrightarrow> acc ! j = Some bs \<Longrightarrow>
    \<exists>bs'. acc' ! j = Some bs' \<and> set bs \<subseteq> set bs'"
  by (simp add: grows_def)

lemma covers_at:
  "covers X acc i ss \<Longrightarrow> j < length ss \<Longrightarrow> concrete (ss ! j) v \<Longrightarrow> sv_MarshalBinary X v = Inr b \<Longrightarrow>
    i + j < length acc \<and> (\<exists>bs. acc ! (i + j) = Some bs \<and> b \<in> set bs)"
  by (simp add: covers_def)

lemma covers_grows:
  assumes "covers X acc i ss" and "grows acc acc'"
  shows "covers X acc' i ss"
  unfolding covers_def
proof (intro allI impI)
  fix j v b
  assume "j < length ss" "concrete (ss ! j) v" "sv_MarshalBinary X v = Inr b"
  from covers_at [OF assms(1) this] obtain bs where
    bs: "i + j < length acc" "acc ! (i + j) = Some bs" "b \<in> set bs" by blast
  from grows_at [OF assms(2) bs(1,2)] bs(3) have "\<exists>bs'. acc' ! (i + j) = Some bs' \<and> b \<in> set bs'"
    by blast
  then show "i + j < length acc' \<and> (\<exists>bs. acc' ! (i + j) = Some bs \<and> b \<in> set bs)"
    using bs(1) assms(2) by (simp add: grows_def)
qed

lemma covers_Cons:
  "covers X acc (Suc i) ss \<Longrightarrow>
   (\<And>v b. concrete s v \<Longrightarrow> sv_MarshalBinary X v = Inr b \<Longrightarrow>
      i < length acc \<and> (\<exists>bs. acc ! i = Some bs \<and> b \<in> set bs)) \<Longrightarrow> covers X acc i (s # ss)"
  unfolding covers_def by (auto simp: less_Suc_eq_0_disj)

text \<open>The values of a topic filter are at the four positions and can be marshalled.\<close>

definition fits_columns :: "'v scval_pkg \<Rightarrow> nat \<Rightarrow> nat \<Rightarrow> 'v SegmentFilter list \<Rightarrow> bool" where
  "fits_columns X n i ss \<longleftrightarrow> (\<forall>j < length ss. \<forall>v. concrete (ss ! j) v \<longrightarrow>
     i + j < n \<and> (\<exists>b. sv_MarshalBinary X v = Inr b))"

lemma add_segments_ok:
  assumes "fits_columns X (length acc) i ss"
  shows "\<exists>acc'. add_segments X i ss acc = Inr acc' \<and> grows acc acc' \<and> covers X acc' i ss \<and>
    (\<not> selective ss \<longrightarrow> acc' = acc)"
  using assms
proof (induction ss arbitrary: i acc)
  case Nil
  then show ?case by (simp add: covers_def)
next
  case (Cons s ss)
  have rest: "fits_columns X (length acc) (Suc i) ss"
    using Cons.prems by (auto simp: fits_columns_def)
  show ?case
  proof (cases "\<exists>v. concrete s v")
    case False
    then have "add_segments X i (s # ss) acc = add_segments X (Suc i) ss acc"
      by (auto simp: concrete_def split: option.splits)
    with Cons.IH [OF rest] False show ?thesis
      by (auto intro!: covers_Cons simp: selective_def)
  next
    case True
    then obtain v where v: "concrete s v" by blast
    with Cons.prems obtain b where b: "sv_MarshalBinary X v = Inr b" and i: "i < length acc"
      by (force simp: fits_columns_def)
    let ?bs = "(case acc ! i of None \<Rightarrow> [] | Some bs \<Rightarrow> bs) @ [b]"
    let ?acc1 = "acc[i := Some ?bs]"
    have g1: "grows acc ?acc1"
      unfolding grows_def
    proof (intro conjI allI impI)
      fix j bs
      assume "j < length acc" "acc ! j = Some bs"
      then show "\<exists>bs'. ?acc1 ! j = Some bs' \<and> set bs \<subseteq> set bs'" by (cases "j = i") auto
    qed simp
    have step: "add_segments X i (s # ss) acc = add_segments X (Suc i) ss ?acc1"
      using v b i by (simp add: concrete_def)
    from Cons.IH [of ?acc1 "Suc i"] rest obtain acc' where
      acc': "add_segments X (Suc i) ss ?acc1 = Inr acc'" "grows ?acc1 acc'" "covers X acc' (Suc i) ss"
      by auto
    have "\<exists>bs'. acc' ! i = Some bs' \<and> set ?bs \<subseteq> set bs'"
      using acc'(2) i by (auto simp: grows_def)
    then have "covers X acc' i (s # ss)"
      using v b i acc'(2,3) by (intro covers_Cons) (auto simp: concrete_def grows_def)
    with step acc' grows_trans [OF g1 acc'(2)] v show ?thesis by (auto simp: selective_def)
  qed
qed

lemma add_topics_ok:
  assumes "\<forall>t \<in> set ts. fits_columns X (length acc) 0 t"
  shows "\<exists>acc'. add_topics X ts acc = Inr acc' \<and> grows acc acc' \<and> (\<forall>t \<in> set ts. covers X acc' 0 t) \<and>
    ((\<forall>t \<in> set ts. \<not> selective t) \<longrightarrow> acc' = acc)"
  using assms
proof (induction ts arbitrary: acc)
  case (Cons t ts)
  then obtain acc1 where acc1: "add_segments X 0 t acc = Inr acc1" "grows acc acc1" "covers X acc1 0 t"
    "\<not> selective t \<longrightarrow> acc1 = acc"
    using add_segments_ok [of X acc 0 t] by auto
  have "length acc1 = length acc" using acc1(2) by (simp add: grows_def)
  with Cons.IH [of acc1] Cons.prems obtain acc' where
    acc': "add_topics X ts acc1 = Inr acc'" "grows acc1 acc'" "\<forall>t \<in> set ts. covers X acc' 0 t"
      "(\<forall>t \<in> set ts. \<not> selective t) \<longrightarrow> acc' = acc1" by auto
  have "grows acc acc'" by (rule grows_trans [OF acc1(2) acc'(2)])
  moreover have "covers X acc' 0 t" by (rule covers_grows [OF acc1(3) acc'(2)])
  ultimately show ?case using acc1(1,4) acc' by simp
qed simp

lemma combine_topics_ok:
  assumes "\<forall>f \<in> set fs. \<forall>t \<in> set (ef_Topics f). fits_columns X (length acc) 0 t"
  shows "\<exists>acc'. combine_topics X fs acc = Inr acc' \<and>
    (if \<exists>f \<in> set fs. ef_Topics f = [] then acc' = []
     else grows acc acc' \<and> (\<forall>f \<in> set fs. \<forall>t \<in> set (ef_Topics f). covers X acc' 0 t) \<and>
       ((\<forall>f \<in> set fs. \<forall>t \<in> set (ef_Topics f). \<not> selective t) \<longrightarrow> acc' = acc))"
  using assms
proof (induction fs arbitrary: acc)
  case (Cons f fs)
  show ?case
  proof (cases "ef_Topics f = []")
    case False
    obtain acc1 where acc1: "add_topics X (ef_Topics f) acc = Inr acc1" "grows acc acc1"
      "\<forall>t \<in> set (ef_Topics f). covers X acc1 0 t"
      "(\<forall>t \<in> set (ef_Topics f). \<not> selective t) \<longrightarrow> acc1 = acc"
      using add_topics_ok [of "ef_Topics f" X acc] Cons.prems by auto
    have "length acc1 = length acc" using acc1(2) by (simp add: grows_def)
    with Cons.IH [of acc1] Cons.prems obtain acc' where
      acc': "combine_topics X fs acc1 = Inr acc'"
        "if \<exists>f \<in> set fs. ef_Topics f = [] then acc' = []
         else grows acc1 acc' \<and> (\<forall>f \<in> set fs. \<forall>t \<in> set (ef_Topics f). covers X acc' 0 t) \<and>
           ((\<forall>f \<in> set fs. \<forall>t \<in> set (ef_Topics f). \<not> selective t) \<longrightarrow> acc' = acc1)" by auto
    show ?thesis
    proof (cases "\<exists>f \<in> set fs. ef_Topics f = []")
      case True
      with acc' acc1(1) False show ?thesis by simp
    next
      case F: False
      with acc' have g: "grows acc1 acc'" "\<forall>f \<in> set fs. \<forall>t \<in> set (ef_Topics f). covers X acc' 0 t"
        "(\<forall>f \<in> set fs. \<forall>t \<in> set (ef_Topics f). \<not> selective t) \<longrightarrow> acc' = acc1" by simp_all
      have "\<forall>t \<in> set (ef_Topics f). covers X acc' 0 t" using acc1(3) covers_grows g(1) by blast
      moreover have "grows acc acc'" using grows_trans acc1(2) g(1) by blast
      ultimately show ?thesis using acc'(1) acc1(1,4) False F g(2,3) by simp
    qed
  qed simp
qed simp

text \<open>What the code relies on of \<^verbatim>\<open>xdr.ScVal\<close>: values marshal, and equal values to equal bytes.\<close>

definition scval_spec :: "'v scval_pkg \<Rightarrow> bool" where
  "scval_spec X \<longleftrightarrow> (\<forall>v. \<exists>b. sv_MarshalBinary X v = Inr b) \<and>
     (\<forall>u v. sv_Equals X u v \<longrightarrow> sv_MarshalBinary X u = sv_MarshalBinary X v)"

text \<open>The columns of a row are those of the event it holds, as \<open>event_to_row\<close> writes them.\<close>

definition row_holds :: "'v pkgs \<Rightarrow> event_row \<Rightarrow> 'v DiagnosticEvent \<Rightarrow> bool" where
  "row_holds P r e \<longleftrightarrow> ev_SafeUnmarshal (pk_event P) (er_event_data r) = Inr e \<and>
     length (er_transaction_hash r) = 32 \<and> event_ids_ok (de_Event e) \<and>
     er_contract_id r = ce_ContractId (de_Event e) \<and> er_event_type r = ce_Type (de_Event e) \<and>
     (\<exists>v0. ce_Body (de_Event e) = Some v0 \<and>
        topic_columns (pk_scval P) (v0_Topics v0) = Inr (er_topics r))"

text \<open>
  The filters agree on which columns they constrain: either all name contract ids or none does,
  the same for types, and for topics that some filter leaves them open, or every topic filter
  names a value, or none does.
\<close>

definition uniform :: "'v EventFilter list \<Rightarrow> bool" where
  "uniform fs \<longleftrightarrow>
     ((\<forall>f \<in> set fs. ef_ContractIDs f = []) \<or> (\<forall>f \<in> set fs. ef_ContractIDs f \<noteq> [])) \<and>
     ((\<forall>f \<in> set fs. ef_EventType f = []) \<or> (\<forall>f \<in> set fs. ef_EventType f \<noteq> [])) \<and>
     ((\<exists>f \<in> set fs. ef_Topics f = []) \<or>
      (\<forall>f \<in> set fs. \<forall>t \<in> set (ef_Topics f). selective t) \<or>
      (\<forall>f \<in> set fs. \<forall>t \<in> set (ef_Topics f). \<not> selective t))"

lemma topic_lang_concrete:
  "topic_lang eq t vs \<Longrightarrow> j < length t \<Longrightarrow> concrete (t ! j) v \<Longrightarrow> j < length vs \<and> eq v (vs ! j)"
proof (induction arbitrary: j rule: topic_lang.induct)
  case (one t vs w)
  then show ?case by (cases j) (auto simp: concrete_def)
next
  case (val u w t vs)
  then show ?case by (cases j) (auto simp: concrete_def)
qed (auto simp: concrete_def)

lemma valid_topic_fits:
  assumes "TopicFilter_Valid t = None" and "scval_spec X"
  shows "fits_columns X MaxTopicCount 0 t"
proof -
  from assms(1) obtain topics where len: "length topics \<le> MaxTopicCount" and
    t: "t = topics \<or> (\<exists>s. sf_Wildcard s = Some WildCardZeroOrMore \<and> t = topics @ [s])"
    by (auto simp: TopicFilter_Valid_None)
  have "j < length topics" if "j < length t" "concrete (t ! j) v" for j v
    using t that by (auto simp: concrete_def nth_append less_Suc_eq split: if_splits)
  with len assms(2) show ?thesis by (fastforce simp: fits_columns_def scval_spec_def)
qed

lemma topic_columns_at:
  assumes "topic_columns X vs = Inr cols" and "j < length vs" and "j < MaxTopicCount"
  shows "\<exists>b. sv_MarshalBinary X (vs ! j) = Inr b \<and> cols ! j = Some b"
proof -
  from assms(1) obtain segs where
    segs: "traverse (sv_MarshalBinary X) (take MaxTopicCount vs) = Inr segs"
      "cols = map Some segs @ replicate (MaxTopicCount - length segs) None"
    by (auto simp: topic_columns_def bind_res_Inr_iff)
  then have l: "list_all2 (\<lambda>x y. sv_MarshalBinary X x = Inr y) (take MaxTopicCount vs) segs"
    by (simp add: traverse_Inr_iff)
  then have "j < length segs" using assms(2,3) by (auto dest: list_all2_lengthD)
  with list_all2_nthD2 [OF l this] segs(2) assms(2,3) show ?thesis by (simp add: nth_append)
qed

lemma prefilter_topics:
  assumes "combineTopics X fs = Inr topics" and "\<forall>f \<in> set fs. EventFilter_Valid K f = None"
    and "scval_spec X" and "uniform fs" and "f \<in> set fs" and "filter_lang K X f ev"
    and "ce_Body ev = Some v0" and "topic_columns X (v0_Topics v0) = Inr (er_topics r)"
  shows "topic_condition topics r"
proof -
  have "\<forall>f \<in> set fs. \<forall>t \<in> set (ef_Topics f). fits_columns X (length (replicate MaxTopicCount None :: bytes list option list)) 0 t"
    using assms(2) valid_topic_fits [OF _ assms(3)] by (auto simp: EventFilter_Valid_None)
  from combine_topics_ok [OF this] assms(1) have comb:
    "if \<exists>f \<in> set fs. ef_Topics f = [] then topics = []
     else grows (replicate MaxTopicCount None) topics \<and>
       (\<forall>f \<in> set fs. \<forall>t \<in> set (ef_Topics f). covers X topics 0 t) \<and>
       ((\<forall>f \<in> set fs. \<forall>t \<in> set (ef_Topics f). \<not> selective t) \<longrightarrow> topics = replicate MaxTopicCount None)"
    by (auto simp: combineTopics_def)
  show ?thesis
  proof (cases "(\<exists>f \<in> set fs. ef_Topics f = []) \<or> (\<forall>f \<in> set fs. \<forall>t \<in> set (ef_Topics f). \<not> selective t)")
    case True
    with comb show ?thesis by (auto simp: topic_condition_def split: if_splits)
  next
    case False
    with assms(4,5,6,7) obtain t where t: "t \<in> set (ef_Topics f)" "selective t"
      "topic_lang (sv_Equals X) t (v0_Topics v0)"
      by (fastforce simp: uniform_def filter_lang_def)
    from t(2) obtain j v where j: "j < length t" "concrete (t ! j) v"
      by (auto simp: selective_def in_set_conv_nth)
    have m: "j < length (v0_Topics v0)" "sv_Equals X v (v0_Topics v0 ! j)"
      using topic_lang_concrete [OF t(3) j] by simp_all
    obtain b where b: "sv_MarshalBinary X v = Inr b" using assms(3) unfolding scval_spec_def by blast
    have "covers X topics 0 t" "length topics = MaxTopicCount"
      using comb False assms(5) t(1) by (auto simp: grows_def split: if_splits)
    from covers_at [OF this(1) j b] this(2) obtain bs where
      bs: "j < length topics" "topics ! j = Some bs" "b \<in> set bs" "j < MaxTopicCount" by auto
    from topic_columns_at [OF assms(8) m(1) bs(4)] m(2) b assms(3) have "er_topics r ! j = Some b"
      by (auto simp: scval_spec_def)
    with bs show ?thesis by (auto simp: topic_condition_def)
  qed
qed

lemma prefilter_sound:
  assumes "combineTopics (pk_scval P) fs = Inr topics" and "combineContractIDs (pk_strkey P) fs = Inr ids"
    and "\<forall>f \<in> set fs. EventFilter_Valid (pk_strkey P) f = None"
    and "strkey_spec (pk_strkey P)" and "scval_spec (pk_scval P)" and "uniform fs"
    and "f \<in> set fs" and "filter_lang (pk_strkey P) (pk_scval P) f (de_Event e)" and "row_holds P r e"
  shows "columns_match ids topics (combineEventTypes fs) r"
  unfolding columns_match_def
proof (intro conjI)
  let ?K = "pk_strkey P"
  note lang = assms(8) [unfolded filter_lang_def] and row = assms(9) [unfolded row_holds_def]
  show "topic_condition topics r"
    using row by (auto intro: prefilter_topics [OF assms(1,3,5,6,7,8)])
  show "ids = [] \<or> (\<exists>c \<in> set ids. er_contract_id r = Some c)"
  proof (cases "ids = []")
    case False
    from combineContractIDs_ok [OF assms(3)] assms(2) have
      all: "\<forall>f \<in> set fs. \<forall>x \<in> set (ef_ContractIDs f). \<exists>b \<in> set ids. sk_Decode ?K x = Inr b" and
      "\<not> (\<forall>f \<in> set fs. ef_ContractIDs f = [])" using False by auto
    then have "ef_ContractIDs f \<noteq> []" using assms(6,7) by (auto simp: uniform_def)
    with lang obtain c x where c: "ce_ContractId (de_Event e) = Some c" "x \<in> set (ef_ContractIDs f)"
      "sk_MustEncode ?K c = Inr x" by auto
    have "length c = 32" using row c(1) by (simp add: event_ids_ok_def)
    with assms(4) c(3) have "sk_Decode ?K x = Inr c" by (fastforce simp: strkey_spec_def)
    with all c(1,2) assms(7) row show ?thesis by fastforce
  qed simp
  show "combineEventTypes fs = [] \<or> er_event_type r \<in> set (combineEventTypes fs)"
  proof (cases "combineEventTypes fs = []")
    case False
    then have "ef_EventType f \<noteq> []"
      using assms(6,7) by (auto simp: uniform_def combineEventTypes_def EventTypeSet_Keys_def)
    with lang obtain n where "n \<in> set (ef_EventType f)"
      "GetEventTypeXDRFromEventType n = Some (ce_Type (de_Event e))" by auto
    with assms(7) row show ?thesis
      by (force simp: combineEventTypes_def EventTypeSet_Keys_def)
  qed simp
qed

subsection \<open>The scan\<close>

definition entry_of :: "'v scanned \<Rightarrow> 'v event_entry" where
  "entry_of x = (case x of (e, c, tm, h) \<Rightarrow>
     \<lparr>en_cursor = c, en_ledgerCloseTimestamp = tm, en_event = e, en_txHash = h\<rparr>)"

lemma scan_list_take:
  assumes "\<forall>x \<in> set xs.
      GetEventsRequest_Matches (pk_strkey P) (pk_scval P) g (fst x) = Inr (M (fst x))"
    and "length es < limit"
  shows "scan_list (eventScanFunction P g limit) xs (Inr es) =
    Inr (es @ take (limit - length es) (map entry_of (filter (\<lambda>x. M (fst x)) xs)))"
  using assms
proof (induction xs arbitrary: es)
  case (Cons x xs)
  obtain e c tm h where x: "x = (e, c, tm, h)" by (cases x)
  have m: "GetEventsRequest_Matches (pk_strkey P) (pk_scval P) g e = Inr (M e)"
    using Cons.prems(1) x by auto
  have f: "eventScanFunction P g limit e c tm h (Inr es') =
      (let es'' = (if M e then es' @ [entry_of x] else es') in (length es'' < limit, Inr es''))" for es'
    using m by (simp add: eventScanFunction_def x entry_of_def)
  let ?es = "es @ [entry_of x]"
  show ?case
  proof (cases "M e \<and> \<not> length ?es < limit")
    case True
    then have "limit - length es = 1" using Cons.prems(2) by auto
    with True Cons.prems(2) f show ?thesis by (simp add: x)
  next
    case False
    have IH: "scan_list (eventScanFunction P g limit) xs (Inr es') =
        Inr (es' @ take (limit - length es') (map entry_of (filter (\<lambda>x. M (fst x)) xs)))"
      if "length es' < limit" for es'
      using Cons.IH [of es'] Cons.prems(1) that by auto
    show ?thesis
    proof (cases "M e")
      case True
      with False have l: "length ?es < limit" by simp
      then have "limit - length es = Suc (limit - length ?es)" by simp
      with True l IH [OF l] f show ?thesis by (simp add: x)
    next
      case F: False
      with Cons.prems(2) IH [OF Cons.prems(2)] f show ?thesis by (simp add: x)
    qed
  qed
qed simp

text \<open>The events a request asks for: those of its cursor range that satisfy its filters.\<close>

definition wanted ::
  "'v pkgs \<Rightarrow> 'v GetEventsRequest \<Rightarrow> CursorRange \<Rightarrow> (string, event_row) table \<Rightarrow> 'v event_entry list" where
  "wanted P g rng tbl = map entry_of (filter
     (\<lambda>x. cr_Start rng \<le> fst (snd x) \<and> fst (snd x) < cr_End rng \<and>
        request_lang (pk_strkey P) (pk_scval P) g (de_Event (fst x)))
     (map (decode_row P) tbl))"

lemma rows_in_range:
  assumes "\<forall>(k, r) \<in> set tbl. \<exists>e. row_holds P r e"
    and "\<And>k r e. (k, r) \<in> set tbl \<Longrightarrow> row_holds P r e \<Longrightarrow>
      request_lang (pk_strkey P) (pk_scval P) g (de_Event e) \<Longrightarrow> Q r"
  shows "map entry_of (filter (\<lambda>x. request_lang (pk_strkey P) (pk_scval P) g (de_Event (fst x)))
      (map (decode_row P) (rows_between (pk_toid P) rng Q tbl))) = wanted P g rng tbl"
proof -
  have "filter (\<lambda>x. request_lang (pk_strkey P) (pk_scval P) g (de_Event (fst x)))
      (map (decode_row P) (rows_between (pk_toid P) rng Q tbl)) =
    filter (\<lambda>x. cr_Start rng \<le> fst (snd x) \<and> fst (snd x) < cr_End rng \<and>
        request_lang (pk_strkey P) (pk_scval P) g (de_Event (fst x))) (map (decode_row P) tbl)"
    unfolding rows_between_def filter_map filter_filter
  proof (intro arg_cong [of _ _ "map (decode_row P)"] filter_cong [OF refl])
    fix kr
    assume kr: "kr \<in> set tbl"
    obtain k r where eq: "kr = (k, r)" by fastforce
    with kr assms(1) obtain e where e: "row_holds P r e" by auto
    then have "decode_row P (k, r) = (e, cursor_of (pk_toid P) k, er_ledger_close_time r, er_transaction_hash r)"
      by (simp add: decode_row_def row_holds_def)
    with assms(2) [OF kr [unfolded eq] e]
    show "((\<lambda>(k, r). cr_Start rng \<le> cursor_of (pk_toid P) k \<and> cursor_of (pk_toid P) k < cr_End rng \<and> Q r) kr \<and>
        ((\<lambda>x. request_lang (pk_strkey P) (pk_scval P) g (de_Event (fst x))) \<circ> decode_row P) kr) =
      ((\<lambda>x. cr_Start rng \<le> fst (snd x) \<and> fst (snd x) < cr_End rng \<and>
        request_lang (pk_strkey P) (pk_scval P) g (de_Event (fst x))) \<circ> decode_row P) kr"
      by (auto simp: eq)
  qed
  then show ?thesis by (simp add: wanted_def)
qed

subsection \<open>Properties\<close>

text \<open>A store of events as ingestion fills it, read without faults.\<close>

definition event_store_ok :: "engine \<Rightarrow> 'v pkgs \<Rightarrow> 'v DB \<Rightarrow> bool" where
  "event_store_ok E P db \<longleftrightarrow> no_faults E \<and> db_ok db \<and> ledger_close_meta (db_tables db) \<noteq> [] \<and>
     toid_spec (pk_toid P) \<and> strkey_spec (pk_strkey P) \<and> scval_spec (pk_scval P) \<and>
     events_ok (events (db_tables db)) \<and>
     (\<forall>(k, r) \<in> set (events (db_tables db)). \<exists>e. row_holds P r e) \<and>
     unat (fst (last (ledger_close_meta (db_tables db)))) + 1 < 2 ^ 31"

definition db_range :: "'v DB \<Rightarrow> LedgerRange" where
  "db_range db = \<lparr>lr_FirstLedger = ledger_info (snd (hd (ledger_close_meta (db_tables db)))),
     lr_LastLedger = ledger_info (snd (last (ledger_close_meta (db_tables db))))\<rparr>"

definition request_range :: "'v DB \<Rightarrow> 'v GetEventsRequest \<Rightarrow> CursorRange" where
  "request_range db g = \<lparr>cr_Start = request_start g,
     cr_End = Cursor (request_end g (request_start g) (db_range db)) 0 0 0\<rparr>"

definition start_in_range :: "'v DB \<Rightarrow> 'v GetEventsRequest \<Rightarrow> bool" where
  "start_in_range db g \<longleftrightarrow> valid_cursor (request_start g) \<and>
     li_Sequence (lr_FirstLedger (db_range db)) \<le> c_Ledger (request_start g) \<and>
     c_Ledger (request_start g) \<le> li_Sequence (lr_LastLedger (db_range db))"

lemma request_end_bounds:
  assumes "event_store_ok E P db" and "start_in_range db g"
  shows "0 < request_end g (request_start g) (db_range db)"
    and "unat (request_end g (request_start g) (db_range db)) < 2 ^ 31"
proof -
  let ?l = "fst (last (ledger_close_meta (db_tables db)))"
  have ok: "ledgers_ok (ledger_close_meta (db_tables db))" "ledger_close_meta (db_tables db) \<noteq> []"
    and l: "unat ?l + 1 < 2 ^ 31"
    using assms(1) by (simp_all add: event_store_ok_def db_ok_def)
  have s: "li_Sequence (lr_LastLedger (db_range db)) = ?l"
    using ledgers_ok_last [OF ok] by (simp add: db_range_def ledger_info_def)
  have st: "unat (c_Ledger (request_start g)) \<le> unat ?l"
    using assms(2) s by (simp add: start_in_range_def word_le_nat_alt)
  have l1: "unat (?l + 1) = unat ?l + 1" using l by (simp add: unat_Suc_u32)
  have "unat LedgerScanLimit = 10000" by (simp add: LedgerScanLimit_def)
  then have "unat (c_Ledger (request_start g) + LedgerScanLimit) =
      unat (c_Ledger (request_start g)) + 10000"
    using unat_add_u32 [of "c_Ledger (request_start g)" LedgerScanLimit] st l by simp
  then have "0 < c_Ledger (request_start g) + LedgerScanLimit" by (simp add: word_less_nat_alt)
  moreover have "0 < ?l + 1" using l1 by (simp add: word_less_nat_alt)
  ultimately have m: "0 < min (?l + 1) (c_Ledger (request_start g) + LedgerScanLimit)" by simp
  then show "0 < request_end g (request_start g) (db_range db)"
    by (simp add: request_end_def s Let_def word_neq_0_conv)
  have "request_end g (request_start g) (db_range db) \<le> ?l + 1"
    by (simp add: request_end_def s Let_def min.coboundedI1 min.coboundedI2)
  then show "unat (request_end g (request_start g) (db_range db)) < 2 ^ 31"
    using l l1 by (simp add: word_le_nat_alt)
qed

lemma page_cursor_total:
  assumes "toid_spec T" and "0 < limit" and "0 < endLedger" and "unat endLedger < 2 ^ 31"
  shows "\<exists>c. page_cursor T results limit endLedger = Inr c"
proof -
  have "unat (endLedger - 1) = unat endLedger - 1"
    using assms(3) by (simp add: unat_minus_one word_gt_0)
  then have "valid_cursor (Cursor (endLedger - 1) 0 0 0)"
    using assms(4) by (intro valid_ledger_cursor) simp
  then have "valid_cursor (case MaxCursor T of Cursor l t op ev \<Rightarrow> Cursor (endLedger - 1) t op ev)"
    using assms(1) by (simp add: MaxCursor_def toid_spec_def valid_cursor_def)
  then show ?thesis using assms(1,2) by (auto simp: page_cursor_def Cursor_String_valid)
qed

lemma getEvents_by_scan:
  assumes "event_store_ok E P db" and "GetEventsRequest_Valid (pk_strkey P) g (eh_maxLimit h) = None"
    and "start_in_range db g" and "0 < request_limit h g"
    and "combineContractIDs (pk_strkey P) (ger_Filters g) = Inr ids"
    and "combineTopics (pk_scval P) (ger_Filters g) = Inr topics"
    and "GetEvents E P (request_range db g) ids topics (combineEventTypes (ger_Filters g))
      (eventScanFunction P g (request_limit h g)) (db_tables db) (Inr []) = (None, Inr found)"
    and "traverse (entry_info P C (ger_Format g)) found = Inr infos"
  shows "\<exists>resp. getEvents E P C h db g = Inr resp \<and> gep_Events resp = infos"
proof -
  note ok = assms(1) [unfolded event_store_ok_def]
  obtain c where "page_cursor (pk_toid P) infos (request_limit h g)
      (request_end g (request_start g) (db_range db)) = Inr c"
    using page_cursor_total [OF _ assms(4) request_end_bounds [OF assms(1,3)]] ok by blast
  moreover have "reader_GetLedgerRange E db = Inr (db_range db)"
    using reader_range_nonempty [of db E] ok by (simp add: db_range_def)
  ultimately show ?thesis
    using assms(2,3,5-8)
    by (simp add: getEvents_def Let_def request_range_def start_in_range_def not_less)
qed

text \<open>What the handler hands to the database, and what it finds with it.\<close>

lemma request_conditions:
  assumes "event_store_ok E P db" and "GetEventsRequest_Valid (pk_strkey P) g (eh_maxLimit h) = None"
  obtains ids topics where "combineContractIDs (pk_strkey P) (ger_Filters g) = Inr ids"
    and "combineTopics (pk_scval P) (ger_Filters g) = Inr topics" and "length topics \<le> MaxTopicCount"
    and "\<forall>b \<in> set ids. length b = 32" and "ids = [] \<longleftrightarrow> (\<forall>f \<in> set (ger_Filters g). ef_ContractIDs f = [])"
proof -
  note ok = assms(1) [unfolded event_store_ok_def]
  have fv: "\<forall>f \<in> set (ger_Filters g). EventFilter_Valid (pk_strkey P) f = None"
    using assms(2) by (simp add: GetEventsRequest_Valid_None)
  from combineContractIDs_ok [OF fv] obtain ids where
    ids: "combineContractIDs (pk_strkey P) (ger_Filters g) = Inr ids"
      "\<forall>b \<in> set ids. \<exists>x. sk_Decode (pk_strkey P) x = Inr b"
      "ids = [] \<longleftrightarrow> (\<forall>f \<in> set (ger_Filters g). ef_ContractIDs f = [])"
    by auto
  have "\<forall>f \<in> set (ger_Filters g). \<forall>t \<in> set (ef_Topics f).
      fits_columns (pk_scval P) (length (replicate MaxTopicCount None :: bytes list option list)) 0 t"
    using fv valid_topic_fits [of _ "pk_scval P"] ok by (auto simp: EventFilter_Valid_None)
  from combine_topics_ok [OF this] obtain topics where
    "combineTopics (pk_scval P) (ger_Filters g) = Inr topics" "length topics \<le> MaxTopicCount"
    by (auto simp: combineTopics_def grows_def split: if_splits)
  moreover have "\<forall>b \<in> set ids. length b = 32" using ids(2) ok by (auto simp: strkey_spec_def)
  ultimately show ?thesis using that ids(1,3) by blast
qed

lemma scan_finds:
  assumes "event_store_ok E P db" and "GetEventsRequest_Valid (pk_strkey P) g (eh_maxLimit h) = None"
    and "decoded_request g" and "start_in_range db g" and "0 < request_limit h g"
    and "length topics \<le> MaxTopicCount" and "\<forall>b \<in> set ids. length b = 32"
  shows "GetEvents E P (request_range db g) ids topics types
      (eventScanFunction P g (request_limit h g)) (db_tables db) (Inr []) =
    (None, Inr (take (request_limit h g) (map entry_of (filter
        (\<lambda>x. request_lang (pk_strkey P) (pk_scval P) g (de_Event (fst x)))
        (map (decode_row P) (rows_between (pk_toid P) (request_range db g)
          (columns_match ids topics types) (events (db_tables db))))))))"
    (is "_ = (None, Inr (take _ (map _ (filter ?lang (map _ ?rows)))))")
proof -
  let ?t = "db_tables db" and ?f = "eventScanFunction P g (request_limit h g)"
  note ok = assms(1) [unfolded event_store_ok_def]
  have "range_valid (request_range db g)"
    using assms(4) request_end_bounds(2) [OF assms(1,4)] valid_ledger_cursor
    by (simp add: range_valid_def request_range_def start_in_range_def)
  moreover have "\<forall>(k, r) \<in> set (events ?t). row_decodes (pk_event P) r"
    using ok by (fastforce simp: row_decodes_def row_holds_def)
  ultimately have scan: "GetEvents E P (request_range db g) ids topics types ?f ?t (Inr []) =
      (None, scan_list ?f (map (decode_row P) ?rows) (Inr []))"
    using ok assms(6,7) by (intro GetEvents_scan) auto
  have "GetEventsRequest_Matches (pk_strkey P) (pk_scval P) g (fst x) = Inr (?lang x)"
    if "x \<in> set (map (decode_row P) ?rows)" for x
  proof -
    from that obtain k r where "(k, r) \<in> set (events ?t)" "x = decode_row P (k, r)"
      by (auto simp: rows_between_def)
    moreover from this ok obtain e where "row_holds P r e" by auto
    ultimately have "event_ids_ok (de_Event (fst x))" by (simp add: decode_row_def row_holds_def)
    with request_matches_lang [OF assms(2,3)] ok show ?thesis by blast
  qed
  with scan_list_take [of "map (decode_row P) ?rows" P g
      "\<lambda>e. request_lang (pk_strkey P) (pk_scval P) g (de_Event e)" "[]" "request_limit h g"] assms(5)
  have "scan_list ?f (map (decode_row P) ?rows) (Inr []) =
      Inr (take (request_limit h g) (map entry_of (filter ?lang (map (decode_row P) ?rows))))"
    by auto
  with scan show ?thesis by simp
qed

lemma conditions_sound:
  assumes "event_store_ok E P db" and "GetEventsRequest_Valid (pk_strkey P) g (eh_maxLimit h) = None"
    and "uniform (ger_Filters g)" and "combineContractIDs (pk_strkey P) (ger_Filters g) = Inr ids"
    and "combineTopics (pk_scval P) (ger_Filters g) = Inr topics"
    and "row_holds P r e" and "request_lang (pk_strkey P) (pk_scval P) g (de_Event e)"
  shows "columns_match ids topics (combineEventTypes (ger_Filters g)) r"
proof (cases "ger_Filters g = []")
  case True
  with assms(4,5) show ?thesis
    by (auto simp: combineContractIDs_def combineTopics_def combineEventTypes_def columns_match_def
        topic_condition_def)
next
  case False
  with assms(7) obtain f where
    "f \<in> set (ger_Filters g)" "filter_lang (pk_strkey P) (pk_scval P) f (de_Event e)"
    by (auto simp: request_lang_def)
  moreover have "\<forall>f \<in> set (ger_Filters g). EventFilter_Valid (pk_strkey P) f = None"
    using assms(2) by (simp add: GetEventsRequest_Valid_None)
  ultimately show ?thesis
    using prefilter_sound [OF assms(5,4) _ _ _ assms(3)] assms(1,6)
    unfolding event_store_ok_def by blast
qed

text \<open>C3: For a valid request whose filters agree on which columns they constrain, the
  method \<^verbatim>\<open>getEvents\<close> answers, in cursor order, exactly the events of the requested range that some filter accepts,
  cut to the limit: neither the conditions handed to the database nor the early end of the scan
  lose or add one.\<close>

theorem getEvents_exact:
  assumes "event_store_ok E P db" and "GetEventsRequest_Valid (pk_strkey P) g (eh_maxLimit h) = None"
    and "decoded_request g" and "uniform (ger_Filters g)" and "start_in_range db g"
    and "0 < request_limit h g"
    and "traverse (entry_info P C (ger_Format g))
      (take (request_limit h g) (wanted P g (request_range db g) (events (db_tables db)))) = Inr infos"
  shows "\<exists>resp. getEvents E P C h db g = Inr resp \<and> gep_Events resp = infos"
proof -
  from request_conditions [OF assms(1,2)] obtain ids topics where
    c: "combineContractIDs (pk_strkey P) (ger_Filters g) = Inr ids"
      "combineTopics (pk_scval P) (ger_Filters g) = Inr topics" and
    l: "length topics \<le> MaxTopicCount" "\<forall>b \<in> set ids. length b = 32" by metis
  let ?rows = "rows_between (pk_toid P) (request_range db g)
    (columns_match ids topics (combineEventTypes (ger_Filters g))) (events (db_tables db))"
  have "map entry_of (filter (\<lambda>x. request_lang (pk_strkey P) (pk_scval P) g (de_Event (fst x)))
      (map (decode_row P) ?rows)) = wanted P g (request_range db g) (events (db_tables db))"
    using assms(1) conditions_sound [OF assms(1,2,4) c]
    by (intro rows_in_range) (auto simp: event_store_ok_def)
  with scan_finds [OF assms(1-3,5,6) l, of "combineEventTypes (ger_Filters g)"] assms(7)
  show ?thesis by (intro getEvents_by_scan [OF assms(1,2,5,6) c]) simp_all
qed

text \<open>The store of the examples: three ledgers and one event, of the second of them.\<close>

definition event_row_of :: "int DiagnosticEvent \<Rightarrow> event_row" where
  "event_row_of e = \<lparr>er_contract_id = ce_ContractId (de_Event e), er_event_type = 1,
     er_event_data = ''blob'', er_ledger_close_time = 30, er_transaction_hash = example_hash,
     er_topics = [Some (itoa 7), Some (itoa 8), None, None]\<rparr>"

definition event_db :: "int DiagnosticEvent \<Rightarrow> int DB" where
  "event_db e = OpenSQLiteDB (three_ledgers\<lparr>events := [(cursor_text (Cursor 6 1 0 0), event_row_of e)]\<rparr>)"

definition event_pkgs :: "int DiagnosticEvent \<Rightarrow> int pkgs" where
  "event_pkgs e = example_pkgs\<lparr>pk_event := blob_events\<lparr>ev_SafeUnmarshal := \<lambda>_. Inr e\<rparr>\<rparr>"

definition events_handler :: eventsRPCHandler where
  "events_handler = \<lparr>eh_maxLimit = 100, eh_defaultLimit = 10\<rparr>"

lemma event_pkgs_simps [simp]:
  "pk_toid (event_pkgs e) = toid_layout" "pk_strkey (event_pkgs e) = plain_strkey"
  "pk_scval (event_pkgs e) = int_scvals" "ev_SafeUnmarshal (pk_event (event_pkgs e)) = (\<lambda>_. Inr e)"
  by (simp_all add: event_pkgs_def)

lemma event_db_simps [simp]:
  "db_tables (event_db e) = three_ledgers\<lparr>events := [(cursor_text (Cursor 6 1 0 0), event_row_of e)]\<rparr>"
  by (simp add: event_db_def OpenSQLiteDB_def)

lemma event_db_range:
  "li_Sequence (lr_FirstLedger (db_range (event_db e))) = 5"
  "li_Sequence (lr_LastLedger (db_range (event_db e))) = 7"
  by (simp_all add: db_range_def three_ledgers_def ledger_info_def example_ledger_def)

lemma event_store:
  assumes "event_ids_ok (de_Event e)" and "ce_Type (de_Event e) = 1"
    and "ce_Body (de_Event e) = Some \<lparr>v0_Topics = [7, 8], v0_Data = 0\<rparr>"
  shows "event_store_ok calm_engine (event_pkgs e) (event_db e)"
proof -
  let ?t = "three_ledgers\<lparr>events := [(cursor_text (Cursor 6 1 0 0), event_row_of e)]\<rparr>"
  have v: "valid_cursor (Cursor 6 1 0 0)" by (simp add: valid_cursor_def)
  have "row_holds (event_pkgs e) (event_row_of e) e"
    using assms by (simp add: row_holds_def event_row_of_def topic_columns_def int_scvals_def
        example_hash_def numeral_eq_Suc MaxTopicCount_def)
  moreover have "store_ok ?t"
    using three_ledgers_ok v by (auto simp: store_ok_def events_ok_def table_ok_def)
  then have "db_ok (event_db e)" unfolding event_db_def by (intro OpenSQLiteDB_ok) (simp add: store_ok_def)
  moreover have "scval_spec int_scvals" by (simp add: scval_spec_def int_scvals_def)
  moreover have "events_ok (events ?t)" using v by (auto simp: events_ok_def table_ok_def)
  ultimately show ?thesis
    by (auto simp: event_store_ok_def calm_engine_no_faults toid_layout_spec plain_strkey_spec)
      (simp_all add: three_ledgers_def)
qed

theorem getEvents_exact_witness:
  "\<exists>resp. getEvents calm_engine (event_pkgs example_event) plain_json events_handler
      (event_db example_event) example_request = Inr resp \<and> map ei_TxIndex (gep_Events resp) = [1]"
proof -
  let ?P = "event_pkgs example_event" and ?db = "event_db example_event"
  have store: "event_store_ok calm_engine ?P ?db"
    by (intro event_store) (simp_all add: example_event_def event_ids_ok_def)
  have valid: "GetEventsRequest_Valid (pk_strkey ?P) example_request (eh_maxLimit events_handler) = None"
    using example_request_valid by (simp add: events_handler_def)
  have uni: "uniform (ger_Filters example_request)"
    by (simp add: uniform_def example_request_def selective_def concrete_def)
  have start: "request_start example_request = Cursor 5 0 0 0"
    by (simp add: request_start_def example_request_def)
  have rng: "start_in_range ?db example_request"
    by (simp add: start_in_range_def event_db_range start valid_cursor_def)
  have lim: "request_limit events_handler example_request = 10"
    by (simp add: request_limit_def example_request_def events_handler_def)
  have v: "valid_cursor (Cursor 6 1 0 0)" by (simp add: valid_cursor_def)
  have en: "request_end example_request (Cursor 5 0 0 0) (db_range ?db) = 8"
    by (simp add: request_end_def event_db_range LedgerScanLimit_def)
      (simp add: example_request_def)
  have ids: "event_ids_ok (de_Event example_event)" by (simp add: event_ids_ok_def example_event_def)
  have "GetEventsRequest_Matches plain_strkey int_scvals example_request example_event = Inr True"
    by code_simp
  with request_matches_lang [OF example_request_valid example_request_decoded plain_strkey_spec ids]
  have lang: "request_lang plain_strkey int_scvals example_request (de_Event example_event)" by simp
  let ?e = "\<lparr>en_cursor = Cursor 6 1 0 0, en_ledgerCloseTimestamp = 30, en_event = example_event,
      en_txHash = example_hash\<rparr>"
  have "wanted ?P example_request (request_range ?db example_request) (events (db_tables ?db)) = [?e]"
    using lang cursor_of_text [OF toid_layout_spec v]
    by (simp add: wanted_def decode_row_def entry_of_def request_range_def start en cursor_order)
      (simp add: event_row_of_def)
  moreover have "\<exists>info. entry_info ?P plain_json (ger_Format example_request) ?e = Inr info \<and> ei_TxIndex info = 1"
    by (simp add: entry_info_def eventInfoForEvent_def example_event_def example_request_def
        Cursor_String_valid [OF toid_layout_spec v] event_payload_def int_scvals_def plain_strkey_def
        FormatJSON_def GetEventTypeFromEventTypeXDR_def ContractEventTypeContract_def)
  ultimately show ?thesis
    using getEvents_exact [OF store valid example_request_decoded uni rng, of plain_json] lim
    by fastforce
qed


definition bare_event :: "int DiagnosticEvent" where
  "bare_event = \<lparr>de_InSuccessfulContractCall = True,
     de_Event = \<lparr>ce_ContractId = None, ce_Type = 1, ce_Body = Some \<lparr>v0_Topics = [7, 8], v0_Data = 0\<rparr>\<rparr>\<rparr>"

text \<open>A filter for one contract, and one that accepts every event.\<close>

definition two_filters :: "int GetEventsRequest" where
  "two_filters = example_request\<lparr>ger_Filters :=
     [\<lparr>ef_EventType = [], ef_ContractIDs = [replicate 32 CHR ''C''], ef_Topics = []\<rparr>,
      \<lparr>ef_EventType = [], ef_ContractIDs = [], ef_Topics = []\<rparr>]\<rparr>"


end
