(* ===== verification/TransactionsMethod.thy ===== *)
theory TransactionsMethod
  imports Handlers
begin

text \<open>
  \<^verbatim>\<open>methods/get_transactions.go\<close>: the handler of \<^verbatim>\<open>getTransactions\<close>, which walks the stored
  ledgers from the start of the page and collects their transactions up to the limit. The
  loop over the ledgers counts in signed 32 bits; \<open>None\<close> is a loop that does not end.
\<close>

subsection \<open>The handler\<close>

text \<open>\<^verbatim>\<open>toid.ID\<close>, three signed 32-bit numbers.\<close>

record toid_ID =
  tid_Ledger :: int
  tid_Tx :: int
  tid_Op :: int

definition wrap32 :: "int \<Rightarrow> int" where
  "wrap32 n = sint (word_of_int n :: u32)"

definition toid_New :: "int \<Rightarrow> int \<Rightarrow> int \<Rightarrow> toid_ID" where
  "toid_New l t op = \<lparr>tid_Ledger = l, tid_Tx = t, tid_Op = op\<rparr>"

lemma toid_New_simps [simp]:
  "tid_Ledger (toid_New l t op) = l" "tid_Tx (toid_New l t op) = t" "tid_Op (toid_New l t op) = op"
  by (simp_all add: toid_New_def)

text \<open>\<^verbatim>\<open>ID.String\<close>; \<open>None\<close> when it panics.\<close>

definition toid_String :: "toid_pkg \<Rightarrow> toid_ID \<Rightarrow> string option" where
  "toid_String T c = map_option itoa (toid_ToInt64 T (tid_Ledger c) (tid_Tx c) (tid_Op c))"

record transactionsRPCHandler =
  tr_maxLimit :: nat
  tr_defaultLimit :: nat
  tr_networkPassphrase :: string

definition tx_initializePagination ::
  "toid_pkg \<Rightarrow> transactionsRPCHandler \<Rightarrow> GetTransactionsRequest \<Rightarrow> (toid_ID \<times> nat) answer" where
  "tx_initializePagination T h request =
     (let start = toid_New (sint (gtr_StartLedger request)) 1 1 in
      case gtr_Pagination request of
        None \<Rightarrow> Inr (start, tr_defaultLimit h)
      | Some p \<Rightarrow>
          bind_res
            (if lp_Cursor p \<noteq> '''' then
               bind_res (map_err (jerr InvalidParams) (ParseInt 64 (lp_Cursor p))) (\<lambda>cursorInt.
                 case toid_Parse T cursorInt of (l, t, op) \<Rightarrow> Inr (toid_New l (wrap32 (t + 1)) op))
             else Inr start)
            (\<lambda>start. Inr (start, if lp_Limit p > 0 then lp_Limit p else tr_defaultLimit h)))"

definition fetchLedgerData ::
  "engine \<Rightarrow> 'v ledgerReaderTx \<Rightarrow> u32 \<Rightarrow> 'v LedgerCloseMeta answer" where
  "fetchLedgerData E readTx ledgerSeq =
     bind_res (map_err (jerr InternalError) (readerTx_GetLedger E readTx ledgerSeq)) (\<lambda>r.
       case r of
         None \<Rightarrow> Inl (JErr InvalidParams (''database does not contain metadata for ledger: '' @ show_u32 ledgerSeq))
       | Some ledger \<Rightarrow> Inr ledger)"

definition info_details :: "xdr2json_lib \<Rightarrow> string \<Rightarrow> Transaction \<Rightarrow> TransactionDetails answer" where
  "info_details C format tx =
     (let d = (details_of tx)\<lparr>td_TransactionHash := t_TransactionHash tx\<rparr> in
      bind_res
        (if format = FormatJSON then
           bind_res (map_err (jerr InternalError) (transactionToJSON C tx)) (\<lambda>(result, envelope, meta).
           bind_res (map_err (jerr InternalError) (jsonifySlice C ''DiagnosticEvent'' (t_Events tx)))
             (\<lambda>diagEvents.
               Inr (d\<lparr>td_ResultJSON := result, td_ResultMetaJSON := envelope,
                      td_EnvelopeJSON := meta, td_DiagnosticEventsJSON := diagEvents\<rparr>)))
         else Inr (xdr_details tx d))
        (\<lambda>d'. Inr (d'\<lparr>td_Status := tx_status tx\<rparr>)))"

definition tx_info ::
  "'v event_pkg \<Rightarrow> xdr2json_lib \<Rightarrow> string \<Rightarrow> 'v LedgerCloseMeta \<Rightarrow> 'v LedgerTransaction \<Rightarrow>
   TransactionInfo answer" where
  "tx_info V C format ledger ingestTx =
     bind_res (map_err (jerr InternalError) (ParseTransaction V ledger ingestTx)) (\<lambda>tx.
     bind_res (info_details C format tx) (\<lambda>d.
       Inr \<lparr>ti_Details = d, ti_LedgerCloseTime = li_CloseTime (t_Ledger tx)\<rparr>))"

text \<open>The loop over the transactions of a ledger, on what is left to read. \<open>io.EOF\<close> ends it.\<close>

function process_loop ::
  "('v LedgerTransaction \<Rightarrow> TransactionInfo answer) \<Rightarrow> nat \<Rightarrow> int \<Rightarrow> int \<Rightarrow>
   'v LedgerTransaction res list \<Rightarrow> toid_ID \<Rightarrow> TransactionInfo list \<Rightarrow>
   (toid_ID \<times> bool \<times> TransactionInfo list) answer" where
  "process_loop info limit i txCount reads cursor txns =
     (if i > txCount then Inr (cursor, False, txns)
      else let cursor = cursor\<lparr>tid_Tx := wrap32 i\<rparr> in
        case reads of
          [] \<Rightarrow> Inr (cursor, False, txns)
        | Inl (Err e) # rest \<Rightarrow>
            if e = ''EOF'' then Inr (cursor, False, txns) else Inl (JErr InvalidParams e)
        | Inl (Panic p) # rest \<Rightarrow> Inl (HPanic p)
        | Inr ingestTx # rest \<Rightarrow>
            bind_res (info ingestTx) (\<lambda>txInfo.
              let txns = txns @ [txInfo] in
              if length txns \<ge> limit then Inr (cursor, True, txns)
              else process_loop info limit (i + 1) txCount rest cursor txns))"
  by pat_completeness auto

termination
  by (relation "measure (\<lambda>(info, limit, i, txCount, reads, cursor, txns). nat (txCount + 1 - i))") auto

declare process_loop.simps [simp del]

text \<open>A failed \<^verbatim>\<open>Seek\<close> leaves the reader where it was, at its first transaction.\<close>

definition processTransactionsInLedger ::
  "'v event_pkg \<Rightarrow> xdr2json_lib \<Rightarrow> transactionsRPCHandler \<Rightarrow> 'v LedgerCloseMeta \<Rightarrow> toid_ID \<Rightarrow>
   TransactionInfo list \<Rightarrow> nat \<Rightarrow> string \<Rightarrow> (toid_ID \<times> bool \<times> TransactionInfo list) answer" where
  "processTransactionsInLedger V C h ledger start txns limit format =
     bind_res (map_err (jerr InternalError) (lcm_Reader ledger (tr_networkPassphrase h))) (\<lambda>reader.
     let ledgerSeq = lcm_LedgerSequence ledger; here = sint ledgerSeq = tid_Ledger start;
         startTxIdx = (if here then tid_Tx start else 1) in
     bind_res
       (if here then
          (case lcm_Seek ledger (tr_networkPassphrase h) (startTxIdx - 1) of
             Inl ierr \<Rightarrow> if ierr = Err ''EOF'' then Inr reader else Inl (jerr InternalError ierr)
           | Inr reads \<Rightarrow> Inr reads)
        else Inr reader)
       (\<lambda>reads. process_loop (tx_info V C format ledger) limit startTxIdx
          (int (lcm_CountTransactions ledger)) reads (toid_New (sint ledgerSeq) 0 1) txns))"

partial_function (option) ledger_loop ::
  "engine \<Rightarrow> 'v event_pkg \<Rightarrow> xdr2json_lib \<Rightarrow> transactionsRPCHandler \<Rightarrow> 'v ledgerReaderTx \<Rightarrow> string \<Rightarrow>
   toid_ID \<Rightarrow> nat \<Rightarrow> int \<Rightarrow> int \<Rightarrow> toid_ID \<Rightarrow> TransactionInfo list \<Rightarrow>
   (toid_ID \<times> TransactionInfo list) answer option" where
  "ledger_loop E V C h readTx format start limit lastSeq ledgerSeq cursor txns =
     (if ledgerSeq \<le> lastSeq then
        (case fetchLedgerData E readTx (word_of_int ledgerSeq) of
           Inl err \<Rightarrow> Some (Inl err)
         | Inr ledger \<Rightarrow>
             (case processTransactionsInLedger V C h ledger start txns limit format of
                Inl err \<Rightarrow> Some (Inl err)
              | Inr (cursor, finished, txns) \<Rightarrow>
                  if finished then Some (Inr (cursor, txns))
                  else ledger_loop E V C h readTx format start limit lastSeq
                         (wrap32 (ledgerSeq + 1)) cursor txns))
      else Some (Inr (cursor, txns)))"

definition getTransactionsByLedgerSequence ::
  "engine \<Rightarrow> toid_pkg \<Rightarrow> 'v event_pkg \<Rightarrow> xdr2json_lib \<Rightarrow> transactionsRPCHandler \<Rightarrow> 'v DB \<Rightarrow>
   GetTransactionsRequest \<Rightarrow> GetTransactionsResponse answer option" where
  "getTransactionsByLedgerSequence E T V C h db request =
     (case NewLedgerReaderTx E db of
        Inl err \<Rightarrow> Some (Inl (jerr InternalError err))
      | Inr readTx \<Rightarrow>
     (case readerTx_GetLedgerRange E readTx of
        Inl err \<Rightarrow> Some (Inl (jerr InternalError err))
      | Inr ledgerRange \<Rightarrow>
     (case GetTransactionsRequest_IsValid request (tr_maxLimit h) (ToLedgerSeqRange ledgerRange) of
        Some err \<Rightarrow> Some (Inl (JErr InvalidRequest err))
      | None \<Rightarrow>
     (case tx_initializePagination T h request of
        Inl err \<Rightarrow> Some (Inl err)
      | Inr (start, limit) \<Rightarrow>
     map_option (\<lambda>r. bind_res r (\<lambda>(cursor, txns).
         case toid_String T cursor of
           None \<Rightarrow> Inl (HPanic ''toid'')
         | Some c \<Rightarrow>
             Inr \<lparr>gtp_Transactions = txns,
                  gtp_LatestLedger = li_Sequence (lr_LastLedger ledgerRange),
                  gtp_LatestLedgerCloseTime = li_CloseTime (lr_LastLedger ledgerRange),
                  gtp_OldestLedger = li_Sequence (lr_FirstLedger ledgerRange),
                  gtp_OldestLedgerCloseTime = li_CloseTime (lr_FirstLedger ledgerRange),
                  gtp_Cursor = c\<rparr>))
       (ledger_loop E V C h readTx (gtr_Format request) start limit
          (sint (li_Sequence (lr_LastLedger ledgerRange))) (tid_Ledger start) (toid_New 0 0 0) [])))))"

subsection \<open>One ledger\<close>

lemma uint_small: "0 \<le> n \<Longrightarrow> n < 2 ^ 31 \<Longrightarrow> uint (word_of_int n :: u32) = n"
  by (simp add: uint_word_of_int take_bit_int_eq_self)

lemma wrap32_small: "0 \<le> n \<Longrightarrow> n < 2 ^ 31 \<Longrightarrow> wrap32 n = n"
  by (simp add: wrap32_def sint_small_u32 uint_small)

text \<open>A ledger of the network whose transactions all have an answer.\<close>

definition ledger_serves ::
  "'v event_pkg \<Rightarrow> xdr2json_lib \<Rightarrow> string \<Rightarrow> string \<Rightarrow> 'v LedgerCloseMeta \<Rightarrow> TransactionInfo list \<Rightarrow> bool" where
  "ledger_serves V C passphrase format m infos \<longleftrightarrow>
     (\<exists>txs. reads_txs passphrase m txs \<and> length txs < 2 ^ 20 \<and>
        (\<forall>i \<ge> length txs. lcm_Seek m passphrase (int i) = Inl (Err ''EOF'')) \<and>
        traverse (tx_info V C format m) txs = Inr infos)"

lemma process_loop_reads:
  assumes "traverse info txs = Inr infos" and "i + int (length txs) = int n + 1" and "1 \<le> i"
    and "n < 2 ^ 31" and "length acc < limit"
  shows "process_loop info limit i (int n) (map Inr txs) cursor acc =
    Inr (if infos = [] then cursor
         else cursor\<lparr>tid_Tx := i + int (min (limit - length acc) (length infos)) - 1\<rparr>,
      limit \<le> length acc + length infos, acc @ take (limit - length acc) infos)"
  using assms
proof (induction txs arbitrary: infos i cursor acc)
  case Nil
  then show ?case by (simp add: process_loop.simps)
next
  case (Cons tx txs)
  from Cons.prems(1) obtain x xs where x: "info tx = Inr x" "traverse info txs = Inr xs" "infos = x # xs"
    by (auto split: sum.splits)
  have i: "i \<le> int n" "wrap32 i = i" using Cons.prems by (auto intro!: wrap32_small)
  let ?c = "cursor\<lparr>tid_Tx := i\<rparr>"
  show ?case
  proof (cases "limit \<le> Suc (length acc)")
    case True
    with Cons.prems(5) have "limit - length acc = 1" by simp
    with True i x show ?thesis by (simp add: process_loop.simps [of _ _ i])
  next
    case False
    then have d: "limit - length acc = Suc (limit - Suc (length acc))" by simp
    have "process_loop info limit (i + 1) (int n) (map Inr txs) ?c (acc @ [x]) =
      Inr (if xs = [] then ?c
         else ?c\<lparr>tid_Tx := i + 1 + int (min (limit - length (acc @ [x])) (length xs)) - 1\<rparr>,
        limit \<le> length (acc @ [x]) + length xs, (acc @ [x]) @ take (limit - length (acc @ [x])) xs)"
      using Cons.prems False x(2) by (intro Cons.IH) auto
    then show ?thesis using i x False by (auto simp: process_loop.simps [of _ _ i] d)
  qed
qed

definition skipped :: "toid_ID \<Rightarrow> int \<Rightarrow> nat" where
  "skipped start s = (if s = tid_Ledger start then nat (tid_Tx start) - 1 else 0)"

lemma process_ledger:
  assumes "ledger_serves V C (tr_networkPassphrase h) format m infos"
    and "sint (lcm_LedgerSequence m) = s" and "1 \<le> tid_Tx start" and "length acc < limit"
  shows "processTransactionsInLedger V C h m start acc limit format =
    (let rest = drop (skipped start s) infos in
     Inr (toid_New s (if rest = [] then 0 else int (skipped start s + min (limit - length acc) (length rest))) 1,
       limit \<le> length acc + length rest, acc @ take (limit - length acc) rest))"
proof -
  let ?k = "skipped start s" and ?p = "tr_networkPassphrase h"
  from assms(1) obtain txs where txs: "reads_txs ?p m txs" "length txs < 2 ^ 20"
    "\<forall>i \<ge> length txs. lcm_Seek m ?p (int i) = Inl (Err ''EOF'')" "traverse (tx_info V C format m) txs = Inr infos"
    by (auto simp: ledger_serves_def)
  have len: "length infos = length txs" using txs(4) by (rule traverse_length)
  have rd: "lcm_Reader m ?p = Inr (map Inr txs)" "lcm_CountTransactions m = length txs"
    using txs(1) by (simp_all add: reads_txs_def)
  have k: "(if s = tid_Ledger start then tid_Tx start else 1) = int ?k + 1"
    using assms(3) by (simp add: skipped_def)
  have seek: "lcm_Seek m ?p (int ?k) =
      (if ?k < length txs then Inr (map Inr (drop ?k txs)) else Inl (Err ''EOF''))"
    using txs(1,3) by (simp add: reads_txs_def)
  show ?thesis
  proof (cases "?k < length txs")
    case True
    have "traverse (tx_info V C format m) (drop ?k txs) = Inr (drop ?k infos)"
      using txs(4) by (simp add: traverse_Inr_iff list_all2_dropI)
    from process_loop_reads [OF this, of "int ?k + 1" "length txs"] True txs(2) len assms(4)
    have "process_loop (tx_info V C format m) limit (int ?k + 1) (int (length txs)) (map Inr (drop ?k txs))
        (toid_New s 0 1) acc =
      Inr (toid_New s (int (?k + min (limit - length acc) (length (drop ?k infos)))) 1,
        limit \<le> length acc + length (drop ?k infos), acc @ take (limit - length acc) (drop ?k infos))"
      by (simp add: toid_New_def)
    moreover have "s \<noteq> tid_Ledger start \<Longrightarrow> map Inr (drop ?k txs) = map Inr txs" by (simp add: skipped_def)
    ultimately show ?thesis
      using rd k seek True len assms(2)
      by (auto simp: processTransactionsInLedger_def Let_def split: if_splits)
  next
    case False
    then have "process_loop (tx_info V C format m) limit (int ?k + 1) (int (length txs)) rs (toid_New s 0 1) acc =
        Inr (toid_New s 0 1, False, acc)" for rs
      by (simp add: process_loop.simps)
    with rd k seek False len assms(2,4) show ?thesis
      by (auto simp: processTransactionsInLedger_def Let_def split: if_splits)
  qed
qed

subsection \<open>A range of ledgers\<close>

text \<open>What is left to answer from a position up to the last ledger.\<close>

definition remaining :: "(int \<Rightarrow> TransactionInfo list) \<Rightarrow> toid_ID \<Rightarrow> int \<Rightarrow> TransactionInfo list" where
  "remaining infos start s = drop (skipped start s) (infos s)"

definition from_pos :: "(int \<Rightarrow> TransactionInfo list) \<Rightarrow> int \<Rightarrow> toid_ID \<Rightarrow> TransactionInfo list" where
  "from_pos infos lastSeq start = concat (map (remaining infos start) [tid_Ledger start..lastSeq])"

definition serves_range ::
  "engine \<Rightarrow> 'v event_pkg \<Rightarrow> xdr2json_lib \<Rightarrow> string \<Rightarrow> string \<Rightarrow> 'v ledgerReaderTx \<Rightarrow>
   (int \<Rightarrow> TransactionInfo list) \<Rightarrow> int \<Rightarrow> int \<Rightarrow> bool" where
  "serves_range E V C passphrase format readTx infos first lastSeq \<longleftrightarrow> 0 \<le> first \<and> lastSeq + 1 < 2 ^ 31 \<and>
     (\<forall>s \<in> {first..lastSeq}. \<exists>m. readerTx_GetLedger E readTx (word_of_int s) = Inr (Some m) \<and>
        sint (lcm_LedgerSequence m) = s \<and> ledger_serves V C passphrase format m (infos s))"

lemma skipped_New: "skipped (toid_New s (int n + 1) op) s = n"
  by (simp add: skipped_def toid_New_def)

lemma remaining_later: "tid_Ledger start < s \<Longrightarrow> remaining infos start s = infos s"
  by (simp add: remaining_def skipped_def)

lemma later_remaining:
  "tid_Ledger start < s \<Longrightarrow> concat (map (remaining infos start) [s..lastSeq]) = concat (map infos [s..lastSeq])"
  by (intro arg_cong [of _ _ concat] map_cong) (auto simp: remaining_later)

text \<open>Where a full page ends, what follows its cursor is what it left.\<close>

lemma from_after_page:
  assumes "s \<le> lastSeq" and "tid_Ledger start \<le> s" and "0 < k" and "k \<le> length (remaining infos start s)"
  shows "from_pos infos lastSeq (toid_New s (int (skipped start s + k) + 1) 1) =
    drop k (concat (map (remaining infos start) [s..lastSeq]))"
proof -
  let ?c = "toid_New s (int (skipped start s + k) + 1) 1"
  have "skipped ?c s = skipped start s + k" by (rule skipped_New)
  then have c: "remaining infos ?c s = drop k (remaining infos start s)"
    by (simp add: remaining_def add.commute)
  have up: "[s..lastSeq] = s # [s + 1..lastSeq]" using assms(1) by (simp add: upto_rec1)
  have "from_pos infos lastSeq ?c = drop k (remaining infos start s) @ concat (map infos [s + 1..lastSeq])"
    using later_remaining [of ?c "s + 1"] c up by (simp add: from_pos_def toid_New_def)
  also have "\<dots> = drop k (remaining infos start s @ concat (map infos [s + 1..lastSeq]))"
    using assms(4) by simp
  also have "concat (map infos [s + 1..lastSeq]) = concat (map (remaining infos start) [s + 1..lastSeq])"
    using later_remaining [of start "s + 1"] assms(2) by simp
  finally show ?thesis using up by simp
qed

definition cursor_ok :: "toid_ID \<Rightarrow> bool" where
  "cursor_ok c \<longleftrightarrow> toid_in_range (tid_Ledger c) (tid_Tx c) (tid_Op c)"

lemma remaining_length:
  "remaining infos start s \<noteq> [] \<Longrightarrow> skipped start s + length (remaining infos start s) = length (infos s)"
  by (simp add: remaining_def)

lemma ledger_loop_page:
  assumes "serves_range E V C (tr_networkPassphrase h) format readTx infos s lastSeq"
    and "1 \<le> tid_Tx start" and "tid_Ledger start \<le> s" and "length acc < limit"
    and "\<forall>l. length (infos l) < 2 ^ 20"
    and "cursor_ok cursor"
  shows "\<exists>c. ledger_loop E V C h readTx format start limit lastSeq s cursor acc =
      Some (Inr (c, acc @ take (limit - length acc) (concat (map (remaining infos start) [s..lastSeq])))) \<and>
    cursor_ok c \<and>
    (limit - length acc \<le> length (concat (map (remaining infos start) [s..lastSeq])) \<longrightarrow>
      s \<le> tid_Ledger c \<and> tid_Ledger c \<le> lastSeq \<and> 0 < tid_Tx c \<and>
      from_pos infos lastSeq (c\<lparr>tid_Tx := tid_Tx c + 1\<rparr>) =
        drop (limit - length acc) (concat (map (remaining infos start) [s..lastSeq])))"
  using assms(1,3,4,6)
proof (induction "nat (lastSeq + 1 - s)" arbitrary: s cursor acc)
  case 0
  then show ?case by (simp add: ledger_loop.simps)
next
  case (Suc n)
  then have le: "s \<le> lastSeq" by simp
  let ?r = "remaining infos start s" and ?k = "limit - length acc"
  have up: "[s..lastSeq] = s # [s + 1..lastSeq]" using le by (simp add: upto_rec1)
  have "s \<in> {s..lastSeq}" using le by simp
  with Suc.prems(1) obtain m where m: "readerTx_GetLedger E readTx (word_of_int s) = Inr (Some m)"
    "sint (lcm_LedgerSequence m) = s" "ledger_serves V C (tr_networkPassphrase h) format m (infos s)"
    unfolding serves_range_def by blast
  have proc: "processTransactionsInLedger V C h m start acc limit format =
      Inr (toid_New s (if ?r = [] then 0 else int (skipped start s + min ?k (length ?r))) 1,
        limit \<le> length acc + length ?r, acc @ take ?k ?r)"
    using process_ledger [OF m(3,2) assms(2) Suc.prems(3)] by (simp add: Let_def remaining_def)
  have wrap: "wrap32 (s + 1) = s + 1" using Suc.prems(1) le by (intro wrap32_small) (auto simp: serves_range_def)
  show ?case
  proof (cases "limit \<le> length acc + length ?r")
    case True
    then have k: "?k \<le> length ?r" "0 < ?k" using Suc.prems(3) by auto
    then have ne: "?r \<noteq> []" by auto
    let ?c = "toid_New s (int (skipped start s + ?k)) 1"
    have "ledger_loop E V C h readTx format start limit lastSeq s cursor acc = Some (Inr (?c, acc @ take ?k ?r))"
      using le m(1) proc True k ne
      by (simp add: ledger_loop.simps [where ledgerSeq = s] fetchLedgerData_def min_absorb1)
    moreover have "skipped start s + ?k < 2 ^ 20"
      using remaining_length [OF ne] k(1) assms(5) by (metis add_le_cancel_left le_less_trans)
    moreover have "from_pos infos lastSeq (?c\<lparr>tid_Tx := tid_Tx ?c + 1\<rparr>) =
        drop ?k (concat (map (remaining infos start) [s..lastSeq]))"
      using from_after_page [OF le Suc.prems(2) k(2,1)] by (simp add: toid_New_def)
    moreover have "cursor_ok ?c"
      using Suc.prems(1) le calculation(2) by (simp add: cursor_ok_def toid_New_def toid_in_range_def serves_range_def)
    ultimately show ?thesis using k le up by (intro exI [of _ ?c]) (simp add: toid_New_def)
  next
    case False
    let ?acc = "acc @ ?r"
    let ?c0 = "toid_New s (if ?r = [] then 0 else int (skipped start s + min ?k (length ?r))) 1"
    have "ledger_loop E V C h readTx format start limit lastSeq s cursor acc =
        ledger_loop E V C h readTx format start limit lastSeq (s + 1) ?c0 ?acc"
      using le m(1) proc False wrap
      by (simp add: ledger_loop.simps [where ledgerSeq = s] fetchLedgerData_def)
    moreover have "n = nat (lastSeq + 1 - (s + 1))" "tid_Ledger start \<le> s + 1" "length ?acc < limit"
      "serves_range E V C (tr_networkPassphrase h) format readTx infos (s + 1) lastSeq"
      using Suc.hyps(2) Suc.prems False by (auto simp: serves_range_def)
    moreover have "cursor_ok ?c0"
      using Suc.prems(1) le False remaining_length [of infos start s] spec [OF assms(5), of s]
      by (auto simp: cursor_ok_def toid_New_def toid_in_range_def serves_range_def)
    note Suc.hyps(1) [OF calculation(2,5,3,4) this]
    moreover have "drop ?k (?r @ xs) = drop (limit - length ?acc) xs"
      "acc @ take ?k (?r @ xs) = ?acc @ take (limit - length ?acc) xs" for xs
      using False by simp_all
    ultimately show ?thesis using False up by fastforce
  qed
qed

subsection \<open>Pages\<close>

text \<open>A store without gaps whose ledgers all answer, read without faults.\<close>

definition tx_store_ok ::
  "engine \<Rightarrow> 'v event_pkg \<Rightarrow> xdr2json_lib \<Rightarrow> string \<Rightarrow> string \<Rightarrow> 'v DB \<Rightarrow> (int \<Rightarrow> TransactionInfo list) \<Rightarrow> bool" where
  "tx_store_ok E V C passphrase format db infos \<longleftrightarrow> no_faults E \<and> db_ok db \<and> gap_free (db_tables db) \<and>
     ledger_close_meta (db_tables db) \<noteq> [] \<and>
     unat (fst (last (ledger_close_meta (db_tables db)))) + 1 < 2 ^ 31 \<and>
     (\<forall>(k, m) \<in> set (ledger_close_meta (db_tables db)). ledger_serves V C passphrase format m (infos (uint k))) \<and>
     (\<forall>l. length (infos l) < 2 ^ 20)"

definition oldest :: "'v DB \<Rightarrow> int" where
  "oldest db = uint (fst (hd (ledger_close_meta (db_tables db))))"

definition newest :: "'v DB \<Rightarrow> int" where
  "newest db = uint (fst (last (ledger_close_meta (db_tables db))))"

lemma gap_free_member:
  assumes "gap_free t" and "ledger_close_meta t \<noteq> []"
    and "uint (fst (hd (ledger_close_meta t))) \<le> s" and "s \<le> uint (fst (last (ledger_close_meta t)))"
  obtains m where "(word_of_int s, m) \<in> set (ledger_close_meta t)" and "uint (word_of_int s :: u32) = s"
proof -
  let ?L = "ledger_close_meta t"
  from assms(1) obtain a b where ab: "map (\<lambda>(k, m). unat k) ?L = [a ..< b]" by (auto simp: gap_free_def)
  then have lt: "a < b" using assms(2) by (metis list.map_disc_iff upt_eq_Nil_conv not_le)
  have "unat (fst (hd ?L)) = hd [a ..< b]" "unat (fst (last ?L)) = last [a ..< b]"
    using assms(2) ab [symmetric] by (simp_all add: hd_map last_map case_prod_beta)
  then have "int a \<le> s" "s < int b" using assms(3,4) lt by (simp_all add: uint_nat)
  then have "nat s \<in> set (map (\<lambda>(k, m). unat k) ?L)" unfolding ab by auto
  then obtain k m where km: "(k, m) \<in> set ?L" "unat k = nat s" by auto
  then have "uint k = s" using \<open>int a \<le> s\<close> by (simp add: uint_nat)
  then have "word_of_int s = k" by auto
  with km(1) \<open>uint k = s\<close> that [of m] show ?thesis by simp
qed

lemma newest_bounds:
  assumes "tx_store_ok E V C passphrase format db infos"
  shows "0 \<le> newest db" and "newest db + 1 < 2 ^ 31"
proof -
  have "int (unat (fst (last (ledger_close_meta (db_tables db)))) + 1) < int (2 ^ 31)"
    using assms unfolding tx_store_ok_def by (simp only: of_nat_less_iff)
  then show "newest db + 1 < 2 ^ 31" by (simp add: newest_def)
qed (simp add: newest_def)

lemma store_serves_range:
  assumes "tx_store_ok E V C passphrase format db infos" and "r_tables r = db_tables db" and "oldest db \<le> s"
  shows "serves_range E V C passphrase format r infos s (newest db)"
  unfolding serves_range_def
proof (intro conjI ballI)
  let ?L = "ledger_close_meta (db_tables db)"
  note ok = assms(1) [unfolded tx_store_ok_def]
  show "0 \<le> s" using assms(3) uint_ge_0 order_trans unfolding oldest_def by blast
  show "newest db + 1 < 2 ^ 31" by (rule newest_bounds [OF assms(1)])
  fix n
  assume "n \<in> {s..newest db}"
  with assms(3) gap_free_member [of "db_tables db" n] ok obtain m where
    m: "(word_of_int n, m) \<in> set ?L" "uint (word_of_int n :: u32) = n"
    by (auto simp: oldest_def newest_def)
  have l: "ledgers_ok ?L" using ok by (simp add: db_ok_def)
  then have "map_of ?L (word_of_int n) = Some m" using m(1) by (simp add: ledgers_ok_def table_ok_distinct)
  moreover have "lcm_LedgerSequence m = word_of_int n" using l m(1) by (auto simp: ledgers_ok_def)
  moreover have "n < 2 ^ 31"
    using \<open>n \<in> _\<close> newest_bounds(2) [OF assms(1)] by simp
  ultimately show "\<exists>m. readerTx_GetLedger E r (word_of_int n) = Inr (Some m) \<and>
      sint (lcm_LedgerSequence m) = n \<and> ledger_serves V C passphrase format m (infos n)"
    using ok m assms(2) getLedgerFromDB_lookup [of "db_tables db" E "word_of_int n"] l
    by (intro exI [of _ m]) (auto simp: readerTx_GetLedger_def sint_small_u32 no_faults_def ledgers_ok_def)
qed

lemma getTransactions_by_loop:
  assumes "tx_store_ok E V C (tr_networkPassphrase h) (gtr_Format req) db infos" and "toid_spec T"
    and "GetTransactionsRequest_IsValid req (tr_maxLimit h)
      \<lparr>lsr_FirstLedger = word_of_int (oldest db), lsr_LastLedger = word_of_int (newest db)\<rparr> = None"
    and "tx_initializePagination T h req = Inr (start, limit)"
  obtains r where "r_tables r = db_tables db"
    and "\<And>c txns. ledger_loop E V C h r (gtr_Format req) start limit (newest db) (tid_Ledger start)
        (toid_New 0 0 0) [] = Some (Inr (c, txns)) \<Longrightarrow> cursor_ok c \<Longrightarrow>
      \<exists>resp. getTransactionsByLedgerSequence E T V C h db req = Some (Inr resp) \<and>
        gtp_Transactions resp = txns \<and> toid_String T c = Some (gtp_Cursor resp)"
proof -
  note ok = assms(1) [unfolded tx_store_ok_def]
  from reader_opens [of db E] ok obtain r rng where r: "NewLedgerReaderTx E db = Inr r"
    "r_tables r = db_tables db" "readerTx_GetLedgerRange E r = Inr rng"
    "li_Sequence (lr_FirstLedger rng) = word_of_int (oldest db)"
    "li_Sequence (lr_LastLedger rng) = word_of_int (newest db)"
    by (metis newest_def oldest_def word_of_int_uint)
  have n: "sint (word_of_int (newest db) :: u32) = newest db"
    using newest_bounds [OF assms(1)] by (simp add: sint_small_u32 uint_small)
  have "\<exists>resp. getTransactionsByLedgerSequence E T V C h db req = Some (Inr resp) \<and>
        gtp_Transactions resp = txns \<and> toid_String T c = Some (gtp_Cursor resp)"
    if "ledger_loop E V C h r (gtr_Format req) start limit (newest db) (tid_Ledger start)
        (toid_New 0 0 0) [] = Some (Inr (c, txns))" "cursor_ok c" for c txns
  proof -
    from assms(2) that(2) obtain ctext where "toid_String T c = Some ctext"
      by (auto simp: cursor_ok_def toid_spec_def toid_String_def)
    with assms(3,4) that(1) r n show ?thesis
      by (simp add: getTransactionsByLedgerSequence_def ToLedgerSeqRange_def)
  qed
  with that r(2) show ?thesis by blast
qed

lemma getTransactions_page:
  assumes "tx_store_ok E V C (tr_networkPassphrase h) (gtr_Format req) db infos" and "toid_spec T"
    and "GetTransactionsRequest_IsValid req (tr_maxLimit h)
      \<lparr>lsr_FirstLedger = word_of_int (oldest db), lsr_LastLedger = word_of_int (newest db)\<rparr> = None"
    and "tx_initializePagination T h req = Inr (start, limit)"
    and "oldest db \<le> tid_Ledger start" and "1 \<le> tid_Tx start" and "0 < limit"
  shows "\<exists>resp c. getTransactionsByLedgerSequence E T V C h db req = Some (Inr resp) \<and>
    gtp_Transactions resp = take limit (from_pos infos (newest db) start) \<and>
    cursor_ok c \<and> toid_String T c = Some (gtp_Cursor resp) \<and>
    (limit \<le> length (from_pos infos (newest db) start) \<longrightarrow> tid_Ledger start \<le> tid_Ledger c \<and>
      0 < tid_Tx c \<and> from_pos infos (newest db) (c\<lparr>tid_Tx := tid_Tx c + 1\<rparr>) =
        drop limit (from_pos infos (newest db) start))"
proof -
  have len: "\<forall>l. length (infos l) < 2 ^ 20" using assms(1) by (simp add: tx_store_ok_def)
  have c0: "cursor_ok (toid_New 0 0 0)" by (simp add: cursor_ok_def toid_in_range_def toid_New_def)
  from getTransactions_by_loop [OF assms(1-4)] obtain r where r: "r_tables r = db_tables db"
    "\<And>c txns. ledger_loop E V C h r (gtr_Format req) start limit (newest db) (tid_Ledger start)
        (toid_New 0 0 0) [] = Some (Inr (c, txns)) \<Longrightarrow> cursor_ok c \<Longrightarrow>
      \<exists>resp. getTransactionsByLedgerSequence E T V C h db req = Some (Inr resp) \<and>
        gtp_Transactions resp = txns \<and> toid_String T c = Some (gtp_Cursor resp)" by blast
  from ledger_loop_page [OF store_serves_range [OF assms(1) r(1) assms(5)] assms(6) order_refl _ len c0, of "[]" limit]
    assms(7)
  obtain c where c: "ledger_loop E V C h r (gtr_Format req) start limit (newest db) (tid_Ledger start)
        (toid_New 0 0 0) [] = Some (Inr (c, take limit (from_pos infos (newest db) start)))"
      "cursor_ok c" "limit \<le> length (from_pos infos (newest db) start) \<longrightarrow> tid_Ledger start \<le> tid_Ledger c \<and>
      0 < tid_Tx c \<and> from_pos infos (newest db) (c\<lparr>tid_Tx := tid_Tx c + 1\<rparr>) =
        drop limit (from_pos infos (newest db) start)"
    by (auto simp: from_pos_def)
  from r(2) [OF c(1,2)] c(2,3) show ?thesis by metis
qed

text \<open>A request for a start ledger, and one for the page after a cursor.\<close>

definition tx_first_page :: "u32 \<Rightarrow> nat \<Rightarrow> string \<Rightarrow> GetTransactionsRequest" where
  "tx_first_page s k format = \<lparr>gtr_StartLedger = s,
     gtr_Pagination = Some \<lparr>lp_Cursor = '''', lp_Limit = k\<rparr>, gtr_Format = format\<rparr>"

definition tx_next_page :: "string \<Rightarrow> nat \<Rightarrow> string \<Rightarrow> GetTransactionsRequest" where
  "tx_next_page c k format = \<lparr>gtr_StartLedger = 0,
     gtr_Pagination = Some \<lparr>lp_Cursor = c, lp_Limit = k\<rparr>, gtr_Format = format\<rparr>"

lemma cursor_resumes:
  assumes "toid_spec T" and "cursor_ok c" and "toid_String T c = Some ctext" and "0 < k"
  shows "tx_initializePagination T h (tx_next_page ctext k format) =
    Inr (c\<lparr>tid_Tx := tid_Tx c + 1\<rparr>, k)" and "ctext \<noteq> ''''"
proof -
  let ?v = "toid_val (tid_Ledger c) (tid_Tx c) (tid_Op c)"
  have rng: "toid_in_range (tid_Ledger c) (tid_Tx c) (tid_Op c)" using assms(2) by (simp add: cursor_ok_def)
  with assms(1,3) have ct: "ctext = itoa ?v"
    and parse: "toid_Parse T ?v = (tid_Ledger c, tid_Tx c, tid_Op c)"
    by (auto simp: toid_spec_def toid_String_def)
  have v0: "0 \<le> ?v" using rng by (auto simp: toid_in_range_def toid_val_def)
  have "?v < 2 ^ (64 - 1)" using rng unfolding toid_in_range_def toid_val_def by simp
  then have p: "ParseInt 64 ctext = Inr ?v" unfolding ct itoa_def by (rule ParseInt_sprintf0 [OF v0])
  show ne: "ctext \<noteq> ''''" unfolding ct itoa_def by (rule sprintf0_nonempty [OF v0])
  have "wrap32 (tid_Tx c + 1) = tid_Tx c + 1" using rng by (intro wrap32_small) (auto simp: toid_in_range_def)
  with p ne parse assms(4) show "tx_initializePagination T h (tx_next_page ctext k format) =
      Inr (c\<lparr>tid_Tx := tid_Tx c + 1\<rparr>, k)"
    by (simp add: tx_initializePagination_def tx_next_page_def toid_New_def)
qed

lemma next_page_valid:
  "ctext \<noteq> '''' \<Longrightarrow> k \<le> m \<Longrightarrow> IsValidFormat format = None \<Longrightarrow>
     GetTransactionsRequest_IsValid (tx_next_page ctext k format) m rng = None"
  by (simp add: GetTransactionsRequest_IsValid_None page_ok_def tx_next_page_def)

lemma from_pos_first: "from_pos infos lastSeq (toid_New s 1 op) = concat (map infos [s..lastSeq])"
proof -
  have "remaining infos (toid_New s 1 op) = infos"
    by (simp add: fun_eq_iff remaining_def skipped_def)
  then show ?thesis by (simp add: from_pos_def)
qed

subsection \<open>Examples\<close>

text \<open>Three ledgers of one transaction each.\<close>

definition tx_db :: "int DB" where
  "tx_db = OpenSQLiteDB (empty_tables\<lparr>ledger_close_meta :=
     [(5, example_ledger 5 [event_tx]), (6, example_ledger 6 [event_tx]), (7, example_ledger 7 [event_tx])]\<rparr>)"

definition example_infos :: "int \<Rightarrow> TransactionInfo list" where
  "example_infos l =
     (case tx_info blob_events plain_json ''base64'' (example_ledger (word_of_int l) [event_tx]) event_tx of
        Inl _ \<Rightarrow> [] | Inr i \<Rightarrow> [i])"

definition example_txs_handler :: transactionsRPCHandler where
  "example_txs_handler = \<lparr>tr_maxLimit = 10, tr_defaultLimit = 5, tr_networkPassphrase = ''test''\<rparr>"

lemma example_tx_info:
  "\<exists>i. tx_info blob_events plain_json ''base64'' (example_ledger k [event_tx]) event_tx = Inr i \<and>
     td_Ledger (ti_Details i) = k"
  by (simp add: tx_info_def ParseTransaction_def event_tx_def example_tx_def blob_events_def
      example_event_def transactionEventsIntoDiagnosticEvents_def info_details_def FormatJSON_def
      xdr_details_def details_of_def ledger_info_def example_ledger_def)

lemma example_infos_single: "\<exists>i. example_infos l = [i] \<and> td_Ledger (ti_Details i) = word_of_int l"
  using example_tx_info [of "word_of_int l"] by (auto simp: example_infos_def)

lemma tx_db_serves:
  "ledger_serves blob_events plain_json ''test'' ''base64'' (example_ledger k [event_tx]) (example_infos (uint k))"
proof -
  have "traverse (tx_info blob_events plain_json ''base64'' (example_ledger k [event_tx])) [event_tx] =
      Inr (example_infos (uint k))"
    using example_tx_info [of k] by (auto simp: example_infos_def)
  moreover have "\<forall>i \<ge> length [event_tx]. lcm_Seek (example_ledger k [event_tx]) ''test'' (int i) = Inl (Err ''EOF'')"
    by (simp add: example_ledger_def)
  ultimately show ?thesis using example_reads [of "''test''" k] by (fastforce simp: ledger_serves_def)
qed

lemma tx_db_ok:
  "tx_store_ok calm_engine blob_events plain_json (tr_networkPassphrase example_txs_handler) ''base64'' tx_db example_infos"
proof -
  let ?t = "empty_tables\<lparr>ledger_close_meta :=
     [(5, example_ledger 5 [event_tx]), (6, example_ledger 6 [event_tx]), (7, example_ledger 7 [event_tx])]\<rparr>"
  have t: "db_tables tx_db = ?t" by (simp add: tx_db_def OpenSQLiteDB_def)
  have "db_ok tx_db"
    unfolding tx_db_def by (rule OpenSQLiteDB_ok) (simp add: ledgers_ok_def table_ok_def example_ledger_def)
  moreover have "gap_free ?t"
    unfolding gap_free_def by (rule exI [of _ 5], rule exI [of _ 8]) (simp add: upt_rec)
  moreover have "length (example_infos l) < 2 ^ 20" for l using example_infos_single [of l] by auto
  ultimately show ?thesis
    by (simp add: tx_store_ok_def t calm_engine_no_faults tx_db_serves example_txs_handler_def
        tx_db_serves [of 5, simplified] tx_db_serves [of 6, simplified] tx_db_serves [of 7, simplified])
qed

lemma tx_db_bounds: "oldest tx_db = 5" "newest tx_db = 7"
  by (simp_all add: oldest_def newest_def tx_db_def OpenSQLiteDB_def)

lemma tx_db_all: "[5..7] = [5, 6, 7 :: int]" "[7..7] = [7 :: int]"
  by (simp_all add: upto_rec1)

subsection \<open>Properties\<close>

text \<open>C6: Two pages of \<^verbatim>\<open>getTransactions\<close> join: after a full page from a start ledger, the page of its
  cursor continues with the next transaction, in the order of the ledgers and of the transactions
  in them, and neither page loses or repeats one.\<close>

theorem getTransactions_pages_join:
  assumes "tx_store_ok E V C (tr_networkPassphrase h) format db infos" and "toid_spec T"
    and "oldest db \<le> uint s" and "uint s \<le> newest db" and "IsValidFormat format = None"
    and "0 < k1" and "k1 \<le> tr_maxLimit h" and "0 < k2" and "k2 \<le> tr_maxLimit h"
    and "k1 \<le> length (concat (map infos [uint s..newest db]))"
  shows "\<exists>p1 p2. getTransactionsByLedgerSequence E T V C h db (tx_first_page s k1 format) = Some (Inr p1) \<and>
    getTransactionsByLedgerSequence E T V C h db (tx_next_page (gtp_Cursor p1) k2 format) = Some (Inr p2) \<and>
    gtp_Transactions p1 @ gtp_Transactions p2 = take (k1 + k2) (concat (map infos [uint s..newest db]))"
proof -
  let ?all = "concat (map infos [uint s..newest db])"
  have store: "tx_store_ok E V C (tr_networkPassphrase h) (gtr_Format (tx_first_page s k1 format)) db infos"
    "tx_store_ok E V C (tr_networkPassphrase h) (gtr_Format (tx_next_page c k2 format)) db infos" for c
    using assms(1) by (simp_all add: tx_first_page_def tx_next_page_def)
  have s: "sint s = uint s" using assms(4) newest_bounds(2) [OF assms(1)] by (intro sint_small_u32) simp
  have init: "tx_initializePagination T h (tx_first_page s k1 format) = Inr (toid_New (uint s) 1 1, k1)"
    using assms(6) s by (simp add: tx_initializePagination_def tx_first_page_def)
  have valid: "GetTransactionsRequest_IsValid (tx_first_page s k1 format) (tr_maxLimit h)
      \<lparr>lsr_FirstLedger = word_of_int (oldest db), lsr_LastLedger = word_of_int (newest db)\<rparr> = None"
    using assms(3-5,7) by (simp add: GetTransactionsRequest_IsValid_None page_ok_def tx_first_page_def
        IsLedgerWithinRange_def oldest_def newest_def word_le_def)
  from getTransactions_page [OF store(1) assms(2) valid init] assms(3,6,10) obtain p1 c where
    p1: "getTransactionsByLedgerSequence E T V C h db (tx_first_page s k1 format) = Some (Inr p1)"
      "gtp_Transactions p1 = take k1 ?all" and
    c: "cursor_ok c" "toid_String T c = Some (gtp_Cursor p1)" "uint s \<le> tid_Ledger c" "0 < tid_Tx c"
      "from_pos infos (newest db) (c\<lparr>tid_Tx := tid_Tx c + 1\<rparr>) = drop k1 ?all"
    by (auto simp: from_pos_first)
  note nxt = cursor_resumes [OF assms(2) c(1,2) assms(8)]
  from getTransactions_page [OF store(2) assms(2) next_page_valid [OF nxt(2) assms(9,5)] nxt(1)] c assms(3,8)
  obtain p2 where "getTransactionsByLedgerSequence E T V C h db (tx_next_page (gtp_Cursor p1) k2 format) = Some (Inr p2)"
    "gtp_Transactions p2 = take k2 (drop k1 ?all)" by auto
  with p1 show ?thesis by (auto simp: take_add)
qed

theorem getTransactions_pages_join_witness:
  "\<exists>p1 p2. getTransactionsByLedgerSequence calm_engine toid_layout blob_events plain_json example_txs_handler tx_db
      (tx_first_page 5 2 ''base64'') = Some (Inr p1) \<and>
    getTransactionsByLedgerSequence calm_engine toid_layout blob_events plain_json example_txs_handler tx_db
      (tx_next_page (gtp_Cursor p1) 2 ''base64'') = Some (Inr p2) \<and>
    map (\<lambda>i. td_Ledger (ti_Details i)) (gtp_Transactions p1 @ gtp_Transactions p2) = [5, 6, 7]"
proof -
  obtain a b c where i: "example_infos 5 = [a]" "example_infos 6 = [b]" "example_infos 7 = [c]"
    "td_Ledger (ti_Details a) = 5" "td_Ledger (ti_Details b) = 6" "td_Ledger (ti_Details c) = 7"
    using example_infos_single [of 5] example_infos_single [of 6] example_infos_single [of 7] by auto
  then have all: "concat (map example_infos [uint (5 :: u32)..newest tx_db]) = [a, b, c]"
    by (simp add: tx_db_bounds tx_db_all)
  have "IsValidFormat ''base64'' = None" by (simp add: IsValidFormat_None FormatBase64_def)
  moreover have "tr_maxLimit example_txs_handler = 10" by (simp add: example_txs_handler_def)
  ultimately have "\<exists>p1 p2. getTransactionsByLedgerSequence calm_engine toid_layout blob_events plain_json
      example_txs_handler tx_db (tx_first_page 5 2 ''base64'') = Some (Inr p1) \<and>
    getTransactionsByLedgerSequence calm_engine toid_layout blob_events plain_json example_txs_handler tx_db
      (tx_next_page (gtp_Cursor p1) 2 ''base64'') = Some (Inr p2) \<and>
    gtp_Transactions p1 @ gtp_Transactions p2 = take (2 + 2) [a, b, c]"
    using getTransactions_pages_join [OF tx_db_ok toid_layout_spec, of 5 2 2, unfolded all] tx_db_bounds by simp
  then obtain p1 p2 where "getTransactionsByLedgerSequence calm_engine toid_layout blob_events plain_json
      example_txs_handler tx_db (tx_first_page 5 2 ''base64'') = Some (Inr p1)"
    "getTransactionsByLedgerSequence calm_engine toid_layout blob_events plain_json example_txs_handler tx_db
      (tx_next_page (gtp_Cursor p1) 2 ''base64'') = Some (Inr p2)"
    "gtp_Transactions p1 @ gtp_Transactions p2 = [a, b, c]"
    by auto
  with i show ?thesis by (intro exI [of _ p1] exI [of _ p2]) simp
qed

text \<open>After the last transaction of the newest ledger the loop reads nothing, and ends with the cursor
  the ledger starts with.\<close>

lemma tip_loop:
  assumes "serves_range E V C (tr_networkPassphrase h) format r infos n n" and "0 < limit"
  shows "ledger_loop E V C h r format (toid_New n (int (length (infos n)) + 1) 1) limit n n (toid_New 0 0 0) [] =
    Some (Inr (toid_New n 0 1, []))"
proof -
  let ?start = "toid_New n (int (length (infos n)) + 1) 1"
  have "n \<in> {n..n}" by simp
  with assms(1) obtain m where
    m: "readerTx_GetLedger E r (word_of_int n) = Inr (Some m)" "sint (lcm_LedgerSequence m) = n"
      "ledger_serves V C (tr_networkPassphrase h) format m (infos n)"
    unfolding serves_range_def by blast
  have "processTransactionsInLedger V C h m ?start [] limit format = Inr (toid_New n 0 1, False, [])"
    using process_ledger [OF m(3,2), of ?start "[]" limit] assms(2) by (simp add: skipped_New)
  moreover have "wrap32 (n + 1) = n + 1" using assms(1) by (intro wrap32_small) (auto simp: serves_range_def)
  ultimately show ?thesis using m(1) by (simp add: ledger_loop.simps fetchLedgerData_def)
qed

text \<open>C31: A page asked for after the last transaction of the newest ledger is empty, and its cursor
  points before the first transaction of that ledger: the next page repeats transactions that were
  already answered.\<close>

theorem getTransactions_tip_repeats:
  assumes "tx_store_ok E V C (tr_networkPassphrase h) format db infos" and "toid_spec T"
    and "oldest db \<le> newest db" and "IsValidFormat format = None"
    and "0 < k1" and "k1 \<le> tr_maxLimit h" and "0 < k2" and "k2 \<le> tr_maxLimit h"
    and "toid_String T (toid_New (newest db) (int (length (infos (newest db)))) 1) = Some ctext"
  shows "\<exists>p1 p2. getTransactionsByLedgerSequence E T V C h db (tx_next_page ctext k1 format) = Some (Inr p1) \<and>
    gtp_Transactions p1 = [] \<and>
    getTransactionsByLedgerSequence E T V C h db (tx_next_page (gtp_Cursor p1) k2 format) = Some (Inr p2) \<and>
    gtp_Transactions p2 = take k2 (infos (newest db))"
proof -
  let ?n = "newest db" and ?tip = "toid_New (newest db) (int (length (infos (newest db)))) 1"
  let ?start = "toid_New ?n (int (length (infos ?n)) + 1) 1" and ?c = "toid_New ?n 0 1"
  have store: "tx_store_ok E V C (tr_networkPassphrase h) (gtr_Format (tx_next_page c k format)) db infos" for c k
    using assms(1) by (simp add: tx_next_page_def)
  have b: "length (infos ?n) < 2 ^ 20" "0 \<le> ?n" "?n + 1 < 2 ^ 31"
    using assms(1) newest_bounds [OF assms(1)] by (auto simp: tx_store_ok_def)
  then have ok: "cursor_ok ?tip" "cursor_ok ?c"
    by (auto simp: cursor_ok_def toid_in_range_def)
  have start: "?tip\<lparr>tid_Tx := tid_Tx ?tip + 1\<rparr> = ?start" by (simp add: toid_New_def)
  note init = cursor_resumes [OF assms(2) ok(1) assms(9,5), unfolded start]
  from getTransactions_by_loop [OF store assms(2) next_page_valid [OF init(2) assms(6,4)] init(1)]
  obtain r where r: "r_tables r = db_tables db"
    "\<And>c txns. ledger_loop E V C h r format ?start k1 ?n ?n (toid_New 0 0 0) [] = Some (Inr (c, txns)) \<Longrightarrow>
      cursor_ok c \<Longrightarrow> \<exists>resp. getTransactionsByLedgerSequence E T V C h db (tx_next_page ctext k1 format) =
        Some (Inr resp) \<and> gtp_Transactions resp = txns \<and> toid_String T c = Some (gtp_Cursor resp)"
    by (auto simp: tx_next_page_def)
  from r(2) [OF tip_loop [OF store_serves_range [OF assms(1) r(1) assms(3)] assms(5)] ok(2)] obtain p1 where
    p1: "getTransactionsByLedgerSequence E T V C h db (tx_next_page ctext k1 format) = Some (Inr p1)"
      "gtp_Transactions p1 = []" "toid_String T ?c = Some (gtp_Cursor p1)" by auto
  have again: "?c\<lparr>tid_Tx := tid_Tx ?c + 1\<rparr> = toid_New ?n 1 1" by (simp add: toid_New_def)
  note init2 = cursor_resumes [OF assms(2) ok(2) p1(3) assms(7), unfolded again]
  from getTransactions_page [OF store assms(2) next_page_valid [OF init2(2) assms(8,4)] init2(1)] assms(3,7) p1
  show ?thesis by (auto simp: from_pos_first)
qed

theorem getTransactions_tip_repeats_witness:
  "\<exists>ctext p1 p2. getTransactionsByLedgerSequence calm_engine toid_layout blob_events plain_json example_txs_handler
      tx_db (tx_next_page ctext 2 ''base64'') = Some (Inr p1) \<and> gtp_Transactions p1 = [] \<and>
    getTransactionsByLedgerSequence calm_engine toid_layout blob_events plain_json example_txs_handler tx_db
      (tx_next_page (gtp_Cursor p1) 2 ''base64'') = Some (Inr p2) \<and>
    map (\<lambda>i. td_Ledger (ti_Details i)) (gtp_Transactions p2) = [7]"
proof -
  obtain c where i: "example_infos 7 = [c]" "td_Ledger (ti_Details c) = 7"
    using example_infos_single [of 7] by auto
  then obtain ctext where "toid_String toid_layout
      (toid_New (newest tx_db) (int (length (example_infos (newest tx_db)))) 1) = Some ctext"
    by (simp add: tx_db_bounds toid_String_def toid_layout_def toid_in_range_def)
  moreover have "IsValidFormat ''base64'' = None" by (simp add: IsValidFormat_None FormatBase64_def)
  ultimately show ?thesis
    using getTransactions_tip_repeats [OF tx_db_ok toid_layout_spec, of 2 2 ctext] i
    by (fastforce simp: tx_db_bounds example_txs_handler_def)
qed

text \<open>In the JSON format \<^verbatim>\<open>getTransactions\<close> returns the envelope as the result meta and the result
  meta as the envelope: the two fields are exchanged compared with \<^verbatim>\<open>getTransaction\<close> for the same
  transaction, and all else agrees.\<close>

theorem getTransactions_json_swapped:
  assumes "getTransaction_details C FormatJSON (t_TransactionHash tx) tx = Inr d"
  shows "info_details C FormatJSON tx =
    Inr (d\<lparr>td_EnvelopeJSON := td_ResultMetaJSON d, td_ResultMetaJSON := td_EnvelopeJSON d\<rparr>)"
  using assms
  by (auto simp: getTransaction_details_def info_details_def bind_res_Inr_iff Let_def)

definition example_Transaction :: Transaction where
  "example_Transaction = \<lparr>t_TransactionHash = ''ab'', t_Result = ''r'', t_Meta = ''m'', t_Envelope = ''e'',
     t_Events = [], t_FeeBump = False, t_ApplicationOrder = 1, t_Successful = True,
     t_Ledger = \<lparr>li_Sequence = 5, li_CloseTime = 25\<rparr>\<rparr>"

theorem getTransactions_json_swapped_witness:
  "\<exists>d. info_details plain_json FormatJSON example_Transaction = Inr d \<and>
     td_EnvelopeJSON d = ''TransactionMeta'' \<and> td_ResultMetaJSON d = ''TransactionEnvelope''"
proof -
  obtain d where "getTransaction_details plain_json FormatJSON (t_TransactionHash example_Transaction)
      example_Transaction = Inr d" "td_EnvelopeJSON d = ''TransactionEnvelope''" "td_ResultMetaJSON d = ''TransactionMeta''"
    by (simp add: getTransaction_details_def transactionToJSON_def ConvertBytes_def convertAnyBytes_def
        plain_json_def example_Transaction_def jsonifySlice_def)
  with getTransactions_json_swapped [OF this(1)] show ?thesis by simp
qed

end
