(* ===== verification/LedgerEntriesMethod.thy ===== *)
theory LedgerEntriesMethod
  imports Handlers "HOL-Library.Multiset" "HOL-Library.Sublist"
begin

text \<open>
  \<^verbatim>\<open>ledgerentries/main.go\<close> and \<^verbatim>\<open>methods/get_ledger_entries.go\<close>: ledger entries are read from
  captive core, given back the keys of the request, and sorted into the order of the request.
  The core client, the XDR codec and the sorting algorithm are parameters; of \<^verbatim>\<open>sort.Sort\<close> only
  its contract is used, it need not be stable.
\<close>

subsection \<open>Packages\<close>

record ('k, 'e) entry_pkg =
  lk_UnmarshalBase64 :: "string \<Rightarrow> 'k res"
  lk_MarshalBase64 :: "'k \<Rightarrow> string res"
  lk_MarshalBinary :: "'k \<Rightarrow> bytes res"
  lk_IsTtl :: "'k \<Rightarrow> bool"
  lk_Show :: "'k \<Rightarrow> string"
  le_UnmarshalBase64 :: "string \<Rightarrow> 'e res"
  le_DataMarshalBase64 :: "'e \<Rightarrow> string res"
  le_DataMarshalBinary :: "'e \<Rightarrow> bytes res"
  le_LastModifiedLedgerSeq :: "'e \<Rightarrow> u32"
  le_Show :: "'e \<Rightarrow> string"

text \<open>\<^verbatim>\<open>coreProto.LedgerEntryResponse\<close>\<close>

datatype entry_state = StateLive | StateNotFound | StateArchived

record core_entry =
  cre_Entry :: string
  cre_State :: entry_state
  cre_LiveUntilLedgerSeq :: u32

type_synonym 'k core_client = "u32 \<Rightarrow> 'k list \<Rightarrow> (core_entry list) res"

subsection \<open>The getter\<close>

record ('k, 'e) LedgerKeyAndEntry =
  lke_Key :: 'k
  lke_Entry :: 'e
  lke_LiveUntilLedgerSeq :: "u32 option"

text \<open>Reading the latest ledger is an argument: \<open>None\<close> is the nil reader of a getter made for a
  fixed ledger.\<close>

record 'k coreLedgerEntryGetter =
  cg_coreClient :: "'k core_client"
  cg_atLedger :: u32
  cg_latestLedgerReader :: "u32 res option"

definition NewLedgerEntryGetter :: "'k core_client \<Rightarrow> u32 res \<Rightarrow> 'k coreLedgerEntryGetter" where
  "NewLedgerEntryGetter coreClient latest =
     \<lparr>cg_coreClient = coreClient, cg_atLedger = 0, cg_latestLedgerReader = Some latest\<rparr>"

definition NewLedgerEntryAtGetter :: "'k core_client \<Rightarrow> u32 \<Rightarrow> 'k coreLedgerEntryGetter" where
  "NewLedgerEntryAtGetter coreClient atLedger =
     \<lparr>cg_coreClient = coreClient, cg_atLedger = atLedger, cg_latestLedgerReader = None\<rparr>"

definition entry_ttl :: "core_entry \<Rightarrow> u32 option" where
  "entry_ttl entry =
     (if cre_LiveUntilLedgerSeq entry \<noteq> 0 \<or> cre_State entry = StateArchived
      then Some (cre_LiveUntilLedgerSeq entry) else None)"

text \<open>The loop over the answers of core: the \<open>i\<close>-th belongs to the \<open>i\<close>-th key; an answer too many
  panics.\<close>

fun collect_entries ::
  "('k, 'e) entry_pkg \<Rightarrow> 'k list \<Rightarrow> core_entry list \<Rightarrow> (('k, 'e) LedgerKeyAndEntry list) res" where
  "collect_entries X keys [] = Inr []"
| "collect_entries X keys (entry # entries) =
     (if cre_State entry = StateNotFound then collect_entries X (tl keys) entries
      else bind_res (map_err (wrap_err ''could not decode ledger entry: '') (le_UnmarshalBase64 X (cre_Entry entry)))
        (\<lambda>xdrEntry. if keys = [] then Inl (Panic ''index out of range'')
           else bind_res (collect_entries X (tl keys) entries) (\<lambda>result.
             Inr (\<lparr>lke_Key = hd keys, lke_Entry = xdrEntry, lke_LiveUntilLedgerSeq = entry_ttl entry\<rparr> # result))))"

definition GetLedgerEntries ::
  "('k, 'e) entry_pkg \<Rightarrow> 'k coreLedgerEntryGetter \<Rightarrow> 'k list \<Rightarrow>
   (('k, 'e) LedgerKeyAndEntry list \<times> u32) res" where
  "GetLedgerEntries X c keys =
     bind_res
       (if cg_atLedger c = 0 then
          (case cg_latestLedgerReader c of
             None \<Rightarrow> Inl (Panic ''nil pointer dereference'')
           | Some latest \<Rightarrow> map_err (wrap_err ''could not get latest ledger: '') latest)
        else Inr (cg_atLedger c))
       (\<lambda>atLedger.
     bind_res (map_err (wrap_err ''could not query captive core: '') (cg_coreClient c atLedger keys)) (\<lambda>entries.
     bind_res (collect_entries X keys entries) (\<lambda>result. Inr (result, atLedger))))"

subsection \<open>The order of the request\<close>

text \<open>The last position of a key, as the map built from the keys holds it.\<close>

definition key_order :: "string list \<Rightarrow> string \<Rightarrow> nat option" where
  "key_order keys = foldl (\<lambda>m i. m(keys ! i \<mapsto> i)) (\<lambda>_. None) [0..<length keys]"

definition entry_order ::
  "('k, 'e) entry_pkg \<Rightarrow> string list \<Rightarrow> ('k, 'e) LedgerKeyAndEntry \<Rightarrow> nat res" where
  "entry_order X b64RequestKeys keyEntry =
     bind_res (lk_MarshalBase64 X (lke_Key keyEntry)) (\<lambda>b64Key.
       case key_order b64RequestKeys b64Key of
         None \<Rightarrow> Inl (Err (''mismatching key in result: '' @ b64Key))
       | Some i \<Rightarrow> Inr i)"

type_synonym ('k, 'e) entry_sort =
  "(nat \<times> ('k, 'e) LedgerKeyAndEntry) list \<Rightarrow> (nat \<times> ('k, 'e) LedgerKeyAndEntry) list"

definition sortKeysAndEntriesAccordingToRequest ::
  "('k, 'e) entry_pkg \<Rightarrow> ('k, 'e) entry_sort \<Rightarrow> string list \<Rightarrow> ('k, 'e) LedgerKeyAndEntry list \<Rightarrow>
   (('k, 'e) LedgerKeyAndEntry list) res" where
  "sortKeysAndEntriesAccordingToRequest X srt b64RequestKeys keyEntries =
     bind_res (traverse (entry_order X b64RequestKeys) keyEntries) (\<lambda>ordering.
       Inr (map snd (srt (zip ordering keyEntries))))"

text \<open>The contract of \<^verbatim>\<open>sort.Sort\<close>.\<close>

definition sorts :: "('k, 'e) entry_sort \<Rightarrow> bool" where
  "sorts srt \<longleftrightarrow> (\<forall>xs. mset (srt xs) = mset xs \<and> sorted (map fst (srt xs)))"

subsection \<open>The handler\<close>

definition ErrLedgerTTLEntriesCannotBeQueriedDirectly :: string where
  "ErrLedgerTTLEntriesCannotBeQueriedDirectly = ''ledger ttl entries cannot be queried directly''"

definition getLedgerEntriesMaxKeys :: nat where
  "getLedgerEntriesMaxKeys = 200"

fun request_keys :: "('k, 'e) entry_pkg \<Rightarrow> nat \<Rightarrow> string list \<Rightarrow> ('k list) answer" where
  "request_keys X i [] = Inr []"
| "request_keys X i (requestKey # rest) =
     (case lk_UnmarshalBase64 X requestKey of
        Inl (Panic m) \<Rightarrow> Inl (HPanic m)
      | Inl (Err _) \<Rightarrow> Inl (JErr InvalidParams
          (''cannot unmarshal key value '' @ requestKey @ '' at index '' @ itoa (int i)))
      | Inr ledgerKey \<Rightarrow>
          if lk_IsTtl X ledgerKey then Inl (JErr InvalidParams ErrLedgerTTLEntriesCannotBeQueriedDirectly)
          else bind_res (request_keys X (Suc i) rest) (\<lambda>ks. Inr (ledgerKey # ks)))"

definition zero_LedgerEntryResult :: LedgerEntryResult where
  "zero_LedgerEntryResult = \<lparr>ler_KeyXDR = [], ler_KeyJSON = [], ler_DataXDR = [], ler_DataJSON = [],
     ler_LastModifiedLedger = 0, ler_LiveUntilLedgerSeq = None\<rparr>"

definition ledgerKeyEntryToResult ::
  "('k, 'e) entry_pkg \<Rightarrow> xdr2json_lib \<Rightarrow> ('k, 'e) LedgerKeyAndEntry \<Rightarrow> string \<Rightarrow> LedgerEntryResult res" where
  "ledgerKeyEntryToResult X C keyEntry format =
     bind_res
       (if format = FormatJSON then
          bind_res (ConvertInterface C ''LedgerKey'' (lk_MarshalBinary X (lke_Key keyEntry))) (\<lambda>keyJs.
          bind_res (ConvertInterface C ''LedgerEntryData'' (le_DataMarshalBinary X (lke_Entry keyEntry))) (\<lambda>entryJs.
            Inr (zero_LedgerEntryResult\<lparr>ler_KeyJSON := keyJs, ler_DataJSON := entryJs\<rparr>)))
        else
          bind_res (map_err (wrap_err (''could not serialize ledger key '' @ lk_Show X (lke_Key keyEntry) @ '': ''))
            (lk_MarshalBase64 X (lke_Key keyEntry))) (\<lambda>keyXDR.
          bind_res (map_err (wrap_err (''could not serialize ledger entry '' @ le_Show X (lke_Entry keyEntry) @ '': ''))
            (le_DataMarshalBase64 X (lke_Entry keyEntry))) (\<lambda>entryXDR.
            Inr (zero_LedgerEntryResult\<lparr>ler_KeyXDR := keyXDR, ler_DataXDR := entryXDR\<rparr>))))
       (\<lambda>result. Inr (result\<lparr>ler_LastModifiedLedger := le_LastModifiedLedgerSeq X (lke_Entry keyEntry),
          ler_LiveUntilLedgerSeq := lke_LiveUntilLedgerSeq keyEntry\<rparr>))"

definition getLedgerEntries ::
  "('k, 'e) entry_pkg \<Rightarrow> xdr2json_lib \<Rightarrow> ('k, 'e) entry_sort \<Rightarrow>
   ('k list \<Rightarrow> (('k, 'e) LedgerKeyAndEntry list \<times> u32) res) \<Rightarrow> GetLedgerEntriesRequest \<Rightarrow>
   GetLedgerEntriesResponse answer" where
  "getLedgerEntries X C srt getter request =
     (case IsValidFormat (gle_Format request) of
        Some err \<Rightarrow> Inl (JErr InvalidParams err)
      | None \<Rightarrow>
     if length (gle_Keys request) > getLedgerEntriesMaxKeys then
       Inl (JErr InvalidParams (''key count ('' @ itoa (int (length (gle_Keys request))) @
         '') exceeds maximum supported ('' @ itoa (int getLedgerEntriesMaxKeys) @ '')''))
     else
     bind_res (request_keys X 0 (gle_Keys request)) (\<lambda>ledgerKeys.
     bind_res (map_err (jerr InternalError) (getter ledgerKeys)) (\<lambda>(ledgerKeysAndEntries, latestLedger).
     bind_res (map_err (jerr InternalError)
         (sortKeysAndEntriesAccordingToRequest X srt (gle_Keys request) ledgerKeysAndEntries)) (\<lambda>kes.
     bind_res (map_err (jerr InternalError)
         (traverse (\<lambda>ke. ledgerKeyEntryToResult X C ke (gle_Format request)) kes)) (\<lambda>results.
       Inr \<lparr>glep_Entries = results, glep_LatestLedger = latestLedger\<rparr>)))))"

subsection \<open>Order\<close>

lemma key_order_distinct:
  assumes "distinct keys" and "i < length keys"
  shows "key_order keys (keys ! i) = Some i"
proof -
  have "foldl (\<lambda>m j. m(keys ! j \<mapsto> j)) (\<lambda>_. None) [0..<n] (keys ! i) = (if i < n then Some i else None)"
    if "n \<le> length keys" for n
    using that
  proof (induction n)
    case (Suc n)
    moreover have "keys ! i = keys ! n \<longleftrightarrow> i = n"
      using Suc.prems assms by (simp add: nth_eq_iff_index_eq)
    ultimately show ?case by auto
  qed simp
  from this [of "length keys"] assms(2) show ?thesis by (simp add: key_order_def)
qed

lemma sort_sorted_unique:
  assumes "sorted_wrt (<) (map fst xs)" and "mset ys = mset xs" and "sorted (map fst ys)"
  shows "ys = xs"
proof -
  have d: "distinct (map fst xs)" using assms(1) by (simp add: strict_sorted_iff)
  have "mset (map fst ys) = mset (map fst xs)" using assms(2) by simp
  then have "distinct (map fst ys)" "set (map fst ys) = set (map fst xs)"
    using d by (metis mset_eq_imp_distinct_iff, metis mset_eq_setD)
  moreover have "sorted (map fst xs)" using assms(1) by (simp add: strict_sorted_iff)
  ultimately have m: "map fst ys = map fst xs"
    using assms(3) d by (intro sorted_distinct_set_unique) auto
  have "set ys = set xs" using assms(2) by (rule mset_eq_setD)
  with d m show ?thesis
    by (intro map_inj_on [OF m]) (simp add: distinct_map)
qed

lemma subseq_positions:
  assumes "subseq ys xs"
  shows "\<exists>is. sorted_wrt (<) is \<and> (\<forall>i \<in> set is. i < length xs) \<and> ys = map ((!) xs) is"
  using assms
proof (induction rule: list_emb.induct)
  case (list_emb_Nil ys)
  then show ?case by (intro exI [of _ "[]"]) simp
next
  case (list_emb_Cons xs ys y)
  then obtain "is" where i: "sorted_wrt (<) is" "\<forall>i \<in> set is. i < length ys" "xs = map ((!) ys) is" by blast
  then show ?case by (intro exI [of _ "map Suc is"]) (auto simp: sorted_wrt_map)
next
  case (list_emb_Cons2 x y xs ys)
  then obtain "is" where i: "sorted_wrt (<) is" "\<forall>i \<in> set is. i < length ys" "xs = map ((!) ys) is" by blast
  with list_emb_Cons2(1) show ?case by (intro exI [of _ "0 # map Suc is"]) (auto simp: sorted_wrt_map)
qed

text \<open>Keys written the way the codec writes them.\<close>

definition canonical :: "('k, 'e) entry_pkg \<Rightarrow> string list \<Rightarrow> 'k list \<Rightarrow> bool" where
  "canonical X b64 keys \<longleftrightarrow> list_all2 (\<lambda>s k. lk_UnmarshalBase64 X s = Inr k \<and> lk_MarshalBase64 X k = Inr s \<and>
     \<not> lk_IsTtl X k) b64 keys"

lemma request_keys_canonical: "canonical X b64 keys \<Longrightarrow> request_keys X i b64 = Inr keys"
  unfolding canonical_def by (induction b64 keys arbitrary: i rule: list_all2_induct) auto

lemma sort_in_request_order:
  assumes "sorts srt" and "canonical X b64 keys" and "distinct b64" and "subseq (map lke_Key kes) keys"
  shows "sortKeysAndEntriesAccordingToRequest X srt b64 kes = Inr kes"
proof -
  from subseq_positions [OF assms(4)] obtain "is" where
    i: "sorted_wrt (<) is" "\<forall>i \<in> set is. i < length keys" "map lke_Key kes = map ((!) keys) is" by blast
  have len: "length b64 = length keys" "length is = length kes"
    using assms(2) arg_cong [OF i(3), of length] by (auto simp: canonical_def dest: list_all2_lengthD)
  have "entry_order X b64 (kes ! j) = Inr (is ! j)" if "j < length kes" for j
  proof -
    have "lke_Key (kes ! j) = keys ! (is ! j)" "is ! j < length keys"
      using arg_cong [OF i(3), of "\<lambda>xs. xs ! j"] that len(2) i(2) by auto
    moreover from this have "lk_MarshalBase64 X (keys ! (is ! j)) = Inr (b64 ! (is ! j))"
      using assms(2) len(1) by (simp add: canonical_def list_all2_conv_all_nth)
    ultimately show ?thesis using assms(3) len(1) by (simp add: entry_order_def key_order_distinct)
  qed
  then have o: "traverse (entry_order X b64) kes = Inr is"
    using len(2) by (simp add: traverse_Inr_iff list_all2_conv_all_nth)
  have "srt (zip is kes) = zip is kes"
    using assms(1) i(1) len(2) by (intro sort_sorted_unique) (simp_all add: sorts_def)
  with o len(2) show ?thesis by (simp add: sortKeysAndEntriesAccordingToRequest_def)
qed

text \<open>
  What the methods rely on of a getter: the entries it returns are those of requested keys, in
  the order of the request. Then the sort has nothing to do.
\<close>

locale ledger_entry_getter =
  fixes getter :: "'k list \<Rightarrow> (('k, 'e) LedgerKeyAndEntry list \<times> u32) res"
  assumes getter_in_order: "getter keys = Inr (kes, l) \<Longrightarrow> subseq (map lke_Key kes) keys"
begin

lemma answered_in_request_order:
  assumes "sorts srt" and "canonical X b64 keys" and "distinct b64" and "IsValidFormat format = None"
    and "length b64 \<le> getLedgerEntriesMaxKeys" and "getter keys = Inr (kes, l)"
    and "traverse (\<lambda>ke. ledgerKeyEntryToResult X C ke format) kes = Inr results"
  shows "getLedgerEntries X C srt getter \<lparr>gle_Keys = b64, gle_Format = format\<rparr> =
    Inr \<lparr>glep_Entries = results, glep_LatestLedger = l\<rparr>"
  using assms sort_in_request_order [OF assms(1-3) getter_in_order [OF assms(6)]]
  by (simp add: getLedgerEntries_def request_keys_canonical)

end

lemma collect_entries_subseq:
  "collect_entries X keys entries = Inr kes \<Longrightarrow> subseq (map lke_Key kes) keys"
proof (induction keys entries arbitrary: kes rule: collect_entries.induct)
  case (2 X keys entry entries)
  have tl: "subseq xs (tl keys) \<Longrightarrow> subseq xs keys" for xs by (cases keys) auto
  show ?case
  proof (cases "cre_State entry = StateNotFound")
    case True
    with 2 tl show ?thesis by simp
  next
    case False
    with 2(3) obtain x rest where k: "keys \<noteq> []" "collect_entries X (tl keys) entries = Inr rest"
      "kes = \<lparr>lke_Key = hd keys, lke_Entry = x, lke_LiveUntilLedgerSeq = entry_ttl entry\<rparr> # rest"
      by (auto simp: bind_res_Inr_iff split: if_splits)
    from 2(2) [OF False k(1,2)] k show ?thesis by (cases keys) simp_all
  qed
qed simp

interpretation core_getter: ledger_entry_getter "GetLedgerEntries X c"
  by unfold_locales (auto simp: GetLedgerEntries_def bind_res_Inr_iff intro: collect_entries_subseq)

subsection \<open>Properties\<close>

text \<open>Core answers each key with an entry or as not found; a found entry decodes and is written
  back.\<close>

definition found :: "('k \<Rightarrow> core_entry) \<Rightarrow> 'k \<Rightarrow> bool" where
  "found ans k \<longleftrightarrow> cre_State (ans k) \<noteq> StateNotFound"

definition decodes :: "('k, 'e) entry_pkg \<Rightarrow> ('k \<Rightarrow> core_entry) \<Rightarrow> 'k \<Rightarrow> bool" where
  "decodes X ans k \<longleftrightarrow>
     (\<exists>e d. le_UnmarshalBase64 X (cre_Entry (ans k)) = Inr e \<and> le_DataMarshalBase64 X e = Inr d)"

definition found_entry :: "('k, 'e) entry_pkg \<Rightarrow> ('k \<Rightarrow> core_entry) \<Rightarrow> 'k \<Rightarrow> ('k, 'e) LedgerKeyAndEntry" where
  "found_entry X ans k = \<lparr>lke_Key = k, lke_Entry = projr (le_UnmarshalBase64 X (cre_Entry (ans k))),
     lke_LiveUntilLedgerSeq = entry_ttl (ans k)\<rparr>"

lemma collect_found:
  assumes "\<forall>k \<in> set keys. found ans k \<longrightarrow> decodes X ans k"
  shows "collect_entries X keys (map ans keys) = Inr (map (found_entry X ans) (filter (found ans) keys))"
  using assms by (induction keys) (auto simp: found_def decodes_def found_entry_def)

lemma found_results:
  assumes "\<forall>(s, k) \<in> set ps. lk_MarshalBase64 X k = Inr s \<and> decodes X ans k"
  shows "\<exists>rs. traverse (\<lambda>ke. ledgerKeyEntryToResult X C ke FormatBase64) (map (\<lambda>p. found_entry X ans (snd p)) ps) = Inr rs \<and>
    map (\<lambda>r. (ler_KeyXDR r, ler_LiveUntilLedgerSeq r)) rs = map (\<lambda>(s, k). (s, entry_ttl (ans k))) ps"
  using assms
proof (induction ps)
  case (Cons p ps)
  obtain s k where p: "p = (s, k)" by (cases p)
  from Cons p obtain rs where rs:
    "traverse (\<lambda>ke. ledgerKeyEntryToResult X C ke FormatBase64) (map (\<lambda>p. found_entry X ans (snd p)) ps) = Inr rs"
    "map (\<lambda>r. (ler_KeyXDR r, ler_LiveUntilLedgerSeq r)) rs = map (\<lambda>(s, k). (s, entry_ttl (ans k))) ps" by auto
  from Cons.prems p obtain e d where "lk_MarshalBase64 X k = Inr s"
    "le_UnmarshalBase64 X (cre_Entry (ans k)) = Inr e" "le_DataMarshalBase64 X e = Inr d"
    by (auto simp: decodes_def)
  with rs p show ?case
    by (simp add: ledgerKeyEntryToResult_def found_entry_def FormatBase64_def FormatJSON_def)
qed simp

text \<open>C30: When core answers every key of a request of distinct, canonically written keys, in order,
  \<^verbatim>\<open>getLedgerEntries\<close> returns one result per found key, under the key as it was requested, in the
  order of the request and with its time to live, whichever sorting algorithm is used.\<close>

theorem getLedgerEntries_in_request_order:
  assumes "sorts srt" and "canonical X b64 keys" and "distinct b64" and "length b64 \<le> getLedgerEntriesMaxKeys"
    and "core l keys = Inr (map ans keys)" and "\<forall>k \<in> set keys. found ans k \<longrightarrow> decodes X ans k"
  shows "\<exists>resp. getLedgerEntries X C srt (GetLedgerEntries X (NewLedgerEntryGetter core (Inr l)))
      \<lparr>gle_Keys = b64, gle_Format = FormatBase64\<rparr> = Inr resp \<and> glep_LatestLedger resp = l \<and>
    map (\<lambda>r. (ler_KeyXDR r, ler_LiveUntilLedgerSeq r)) (glep_Entries resp) =
      map (\<lambda>(s, k). (s, entry_ttl (ans k))) (filter (\<lambda>(s, k). found ans k) (zip b64 keys))"
proof -
  let ?kes = "map (found_entry X ans) (filter (found ans) keys)"
  let ?ps = "filter (\<lambda>(s, k). found ans k) (zip b64 keys)"
  have len: "length b64 = length keys" using assms(2) by (auto simp: canonical_def dest: list_all2_lengthD)
  have get: "GetLedgerEntries X (NewLedgerEntryGetter core (Inr l)) keys = Inr (?kes, l)"
    using assms(5) collect_found [OF assms(6)] by (simp add: GetLedgerEntries_def NewLedgerEntryGetter_def)
  have "map snd ?ps = filter (found ans) (map snd (zip b64 keys))"
    by (simp add: filter_map split_beta' comp_def)
  with len have kes: "?kes = map (\<lambda>p. found_entry X ans (snd p)) ?ps" by (metis (no_types, lifting) comp_apply map_eq_conv map_map map_snd_zip)
  have "\<forall>(s, k) \<in> set ?ps. lk_MarshalBase64 X k = Inr s \<and> decodes X ans k"
    using assms(2,6) by (auto simp: canonical_def list_all2_iff dest: set_zip_rightD)
  from found_results [OF this] obtain rs where
    rs: "traverse (\<lambda>ke. ledgerKeyEntryToResult X C ke FormatBase64) ?kes = Inr rs"
      "map (\<lambda>r. (ler_KeyXDR r, ler_LiveUntilLedgerSeq r)) rs = map (\<lambda>(s, k). (s, entry_ttl (ans k))) ?ps"
    unfolding kes by blast
  have fmt: "IsValidFormat FormatBase64 = None" by (simp add: IsValidFormat_def)
  from core_getter.answered_in_request_order [OF assms(1-3) fmt assms(4) get rs(1)] rs(2)
  show ?thesis by simp
qed

text \<open>Keys that are their own text, of which core knows the second as archived.\<close>

definition plain_entries :: "(string, string) entry_pkg" where
  "plain_entries = \<lparr>lk_UnmarshalBase64 = Inr, lk_MarshalBase64 = Inr, lk_MarshalBinary = Inr,
     lk_IsTtl = (\<lambda>_. False), lk_Show = (\<lambda>k. k), le_UnmarshalBase64 = Inr, le_DataMarshalBase64 = Inr,
     le_DataMarshalBinary = Inr, le_LastModifiedLedgerSeq = (\<lambda>_. 3), le_Show = (\<lambda>e. e)\<rparr>"

definition example_answer :: "string \<Rightarrow> core_entry" where
  "example_answer k = \<lparr>cre_Entry = ''data'',
     cre_State = (if k = ''a'' then StateLive else if k = ''b'' then StateArchived else StateNotFound),
     cre_LiveUntilLedgerSeq = (if k = ''a'' then 90 else 0)\<rparr>"

theorem getLedgerEntries_in_request_order_witness:
  "\<exists>resp. getLedgerEntries plain_entries plain_json (sort_key fst)
      (GetLedgerEntries plain_entries (NewLedgerEntryGetter (\<lambda>l ks. Inr (map example_answer ks)) (Inr 7)))
      \<lparr>gle_Keys = [''b'', ''x'', ''a''], gle_Format = FormatBase64\<rparr> = Inr resp \<and>
    map (\<lambda>r. (ler_KeyXDR r, ler_LiveUntilLedgerSeq r)) (glep_Entries resp) = [(''b'', Some 0), (''a'', Some 90)]"
proof -
  let ?ks = "[''b'', ''x'', ''a'']"
  have "sorts (sort_key fst :: (string, string) entry_sort)" by (simp add: sorts_def)
  moreover have "canonical plain_entries ?ks ?ks" by (simp add: canonical_def plain_entries_def)
  moreover have "\<forall>k \<in> set ?ks. found example_answer k \<longrightarrow> decodes plain_entries example_answer k"
    by (simp add: decodes_def plain_entries_def)
  ultimately show ?thesis
    using getLedgerEntries_in_request_order [of "sort_key fst" plain_entries ?ks ?ks
        "\<lambda>l ks. Inr (map example_answer ks)" 7 example_answer plain_json]
    by (auto simp: getLedgerEntriesMaxKeys_def found_def example_answer_def entry_ttl_def)
qed

end
