(* ===== verification/Limiters.thy ===== *)
theory Limiters
  imports Handlers
begin

text \<open>
  \<^verbatim>\<open>network/backlogQ.go\<close>: the limiters of the number of requests in flight, around every handler and
  around the server. They count the requests with atomic operations: a step function for one
  request, run by an arbitrary interleaving of requests.
\<close>

unbundle bit_operations_syntax

subsection \<open>Interleaved requests\<close>

text \<open>A shared state and the program counters of the requests that have arrived.\<close>

inductive interleaved ::
  "('e \<Rightarrow> 'p \<Rightarrow> 's \<Rightarrow> 's \<times> 'p) \<Rightarrow> 'p \<Rightarrow> 's \<Rightarrow> 's \<Rightarrow> 'p list \<Rightarrow> bool" for step start init where
  initial: "interleaved step start init init []"
| arrive: "interleaved step start init s ps \<Longrightarrow> interleaved step start init s (ps @ [start])"
| move: "interleaved step start init s ps \<Longrightarrow> i < length ps \<Longrightarrow> step e (ps ! i) s = (s', p') \<Longrightarrow>
    interleaved step start init s' (ps[i := p'])"

definition how_many :: "('p \<Rightarrow> bool) \<Rightarrow> 'p list \<Rightarrow> nat" where
  "how_many P ps = length (filter P ps)"

lemma how_many_simps [simp]:
  "how_many P [] = 0" "how_many P (ps @ [p]) = how_many P ps + of_bool (P p)" "how_many P ps \<le> length ps"
  by (simp_all add: how_many_def)

lemma how_many_update:
  "i < length ps \<Longrightarrow> how_many P (ps[i := p]) + of_bool (P (ps ! i)) = how_many P ps + of_bool (P p)"
proof (induction ps arbitrary: i)
  case (Cons q ps)
  then show ?case by (cases i) (auto simp: how_many_def)
qed simp

lemma how_many_mono: "(\<And>p. P p \<Longrightarrow> Q p) \<Longrightarrow> how_many P ps \<le> how_many Q ps"
  by (induction ps) (auto simp: how_many_def)

lemma how_many_none: "(\<And>p. p \<in> set ps \<Longrightarrow> \<not> P p) \<Longrightarrow> how_many P ps = 0"
  by (simp add: how_many_def filter_empty_conv)

text \<open>A schedule: a request arrives (\<open>None\<close>) or the request of an index takes its next step.\<close>

fun schedule ::
  "('e \<Rightarrow> 'p \<Rightarrow> 's \<Rightarrow> 's \<times> 'p) \<Rightarrow> 'p \<Rightarrow> (nat \<times> 'e) option list \<Rightarrow> 's \<times> 'p list \<Rightarrow> ('s \<times> 'p list) option" where
  "schedule step start [] c = Some c"
| "schedule step start (None # as) (s, ps) = schedule step start as (s, ps @ [start])"
| "schedule step start (Some (i, e) # as) (s, ps) =
     (if i < length ps
      then (case step e (ps ! i) s of (s', p') \<Rightarrow> schedule step start as (s', ps[i := p']))
      else None)"

lemma schedule_interleaved:
  assumes "schedule step start as (s, ps) = Some (s', ps')" and "interleaved step start init s ps"
  shows "interleaved step start init s' ps'"
  using assms
proof (induction as arbitrary: s ps)
  case (Cons a as)
  show ?case
  proof (cases a)
    case None
    with Cons show ?thesis by (auto intro: interleaved.arrive)
  next
    case (Some ie)
    with Cons.prems(1) obtain i e s1 p1 where m: "ie = (i, e)" "i < length ps"
      "step e (ps ! i) s = (s1, p1)" "schedule step start as (s1, ps[i := p1]) = Some (s', ps')"
      by (cases ie) (auto split: if_splits prod.splits)
    show ?thesis by (rule Cons.IH [OF m(4) interleaved.move [OF Cons.prems(2) m(2,3)]])
  qed
qed simp

text \<open>
  A counter that every step moves with its own request: up when the request starts to how_many,
  down when it stops. Whatever the interleaving, it is the number of requests that how_many.
\<close>

locale counted =
  fixes step :: "'e \<Rightarrow> 'p \<Rightarrow> 's \<Rightarrow> 's \<times> 'p" and start :: 'p and good :: "'s \<Rightarrow> bool"
    and counter :: "'s \<Rightarrow> 'c::comm_ring_1" and counts :: "'p \<Rightarrow> bool"
  assumes start_uncounted: "\<not> counts start"
    and step_good: "good s \<Longrightarrow> step e p s = (s', p') \<Longrightarrow> good s'"
    and step_counts: "good s \<Longrightarrow> step e p s = (s', p') \<Longrightarrow>
      counter s' + of_bool (counts p) = counter s + of_bool (counts p')"
begin

lemma interleaved_good: "interleaved step start init s ps \<Longrightarrow> good init \<Longrightarrow> good s"
  by (induction rule: interleaved.induct) (auto dest: step_good)

lemma interleaved_counter:
  "interleaved step start init s ps \<Longrightarrow> good init \<Longrightarrow> counter s = counter init + of_nat (how_many counts ps)"
proof (induction rule: interleaved.induct)
  case (arrive s ps)
  then show ?case by (simp add: start_uncounted)
next
  case (move s ps i e s' p')
  have "counter s' + of_bool (counts (ps ! i)) = counter s + of_bool (counts p')"
    using move interleaved_good step_counts by blast
  moreover have "of_nat (how_many counts (ps[i := p'])) + of_bool (counts (ps ! i)) =
      (of_nat (how_many counts ps) + of_bool (counts p') :: 'c)"
    using arg_cong [OF how_many_update [OF move(2), of counts p'], of "of_nat :: nat \<Rightarrow> 'c"] by simp
  moreover have "counter s = counter init + of_nat (how_many counts ps)" using move by blast
  ultimately have "counter s' + of_bool (counts (ps ! i)) =
      counter init + of_nat (how_many counts (ps[i := p'])) + of_bool (counts (ps ! i))"
    by (simp only: add.assoc)
  then show ?case by (simp only: add_right_cancel)
qed simp

end

subsection \<open>The backlog limiter\<close>

definition RequestBacklogQueueNoLimit :: u64 where
  "RequestBacklogQueueNoLimit = - 1"

text \<open>A nil gauge or logger is \<open>None\<close>; a logger is the list of its messages.\<close>

record backlogQLimiter =
  ql_limit :: u64
  ql_pending :: u64
  ql_gauge :: "int option"
  ql_limitReached :: u64
  ql_logger :: "string list option"

definition MakeBacklogQueueLimiter :: "int option \<Rightarrow> u64 \<Rightarrow> string list option \<Rightarrow> backlogQLimiter" where
  "MakeBacklogQueueLimiter gauge limit logger =
     \<lparr>ql_limit = limit, ql_pending = 0, ql_gauge = gauge, ql_limitReached = 0, ql_logger = logger\<rparr>"

text \<open>
  Where a request is: at the call, in the downstream handler without limit, between the atomic
  operations of a refusal, between those of an admission, in the downstream handler, between
  those of the deferred function, or answered. The deferred function also runs when the
  downstream handler panics; \<open>'r\<close> is how the handler ended.
\<close>

datatype 'r request_pc =
  Called | PassThrough | Refusing | Refused | Admitted | Executing
| Leaving 'r | Ungauging 'r | Resetting 'r | Busy | Answered 'r

definition log_info :: "string \<Rightarrow> backlogQLimiter \<Rightarrow> backlogQLimiter" where
  "log_info m q = q\<lparr>ql_logger := map_option (\<lambda>ms. ms @ [m]) (ql_logger q)\<rparr>"

fun backlog_step ::
  "string \<Rightarrow> 'r \<Rightarrow> 'r request_pc \<Rightarrow> backlogQLimiter \<Rightarrow> backlogQLimiter \<times> 'r request_pc" where
  "backlog_step what r Called q =
     (if ql_limit q = RequestBacklogQueueNoLimit then (q, PassThrough)
      else let newPending = ql_pending q + 1 in
        (q\<lparr>ql_pending := newPending\<rparr>, if newPending > ql_limit q then Refusing else Admitted))"
| "backlog_step what r PassThrough q = (q, Answered r)"
| "backlog_step what r Refusing q = (q\<lparr>ql_pending := ql_pending q + NOT 0\<rparr>, Refused)"
| "backlog_step what r Refused q =
     (if ql_limitReached q = 0
      then (log_info (''Backlog queue limiter reached the queue limit of '' @ itoa (uint (ql_limit q)) @
              '' executing concurrent '' @ what @ '' requests.'') (q\<lparr>ql_limitReached := 1\<rparr>), Busy)
      else (q, Busy))"
| "backlog_step what r Admitted q =
     (q\<lparr>ql_gauge := map_option (\<lambda>g. g + 1) (ql_gauge q)\<rparr>, Executing)"
| "backlog_step what r Executing q = (q, Leaving r)"
| "backlog_step what r (Leaving x) q = (q\<lparr>ql_pending := ql_pending q + NOT 0\<rparr>, Ungauging x)"
| "backlog_step what r (Ungauging x) q =
     (q\<lparr>ql_gauge := map_option (\<lambda>g. g - 1) (ql_gauge q)\<rparr>, Resetting x)"
| "backlog_step what r (Resetting x) q = (q\<lparr>ql_limitReached := 0\<rparr>, Answered x)"
| "backlog_step what r Busy q = (q, Busy)"
| "backlog_step what r (Answered x) q = (q, Answered x)"

text \<open>\<^verbatim>\<open>backlogHTTPQLimiter.ServeHTTP\<close> and \<^verbatim>\<open>backlogJrpcQLimiter.Handle\<close> take the same steps. The
  former sends the status of a refusal, the latter returns an error.\<close>

definition ServeHTTP_step ::
  "'r \<Rightarrow> 'r request_pc \<Rightarrow> backlogQLimiter \<Rightarrow> backlogQLimiter \<times> 'r request_pc" where
  "ServeHTTP_step = backlog_step ''http''"

definition Handle_step ::
  "string \<Rightarrow> 'r \<Rightarrow> 'r request_pc \<Rightarrow> backlogQLimiter \<Rightarrow> backlogQLimiter \<times> 'r request_pc" where
  "Handle_step mname = backlog_step (''rpc '' @ mname)"

fun Handle_result :: "string \<Rightarrow> backlogQLimiter \<Rightarrow> 'a res request_pc \<Rightarrow> 'a res option" where
  "Handle_result mname q (Answered r) = Some r"
| "Handle_result mname q Busy = Some (Inl (Err (''rpc queue for '' @ mname @
     '' surpassed queue limit of '' @ itoa (uint (ql_limit q)) @ '' requests'')))"
| "Handle_result mname q _ = None"

text \<open>The requests between the two atomic updates of each counter.\<close>

fun pends :: "'r request_pc \<Rightarrow> bool" where
  "pends Refusing = True" | "pends Admitted = True" | "pends Executing = True"
| "pends (Leaving r) = True" | "pends _ = False"

fun gauged :: "'r request_pc \<Rightarrow> bool" where
  "gauged Executing = True" | "gauged (Leaving r) = True" | "gauged (Ungauging r) = True"
| "gauged _ = False"

fun admitted :: "'r request_pc \<Rightarrow> bool" where
  "admitted Admitted = True" | "admitted Executing = True" | "admitted (Leaving r) = True"
| "admitted _ = False"

fun settled :: "'r request_pc \<Rightarrow> bool" where
  "settled Busy = True" | "settled (Answered r) = True" | "settled _ = False"

lemma not_zero_u64: "NOT 0 = (- 1 :: u64)" by simp

lemma backlog_step_limit: "backlog_step what r p q = (q', p') \<Longrightarrow> ql_limit q' = ql_limit q"
  by (cases p) (auto simp: Let_def log_info_def split: if_splits)

interpretation pend: counted "backlog_step what" Called "\<lambda>_. True" ql_pending pends
proof
  fix s :: backlogQLimiter and e :: 'b and p s' p'
  assume "backlog_step what e p s = (s', p')"
  then show "ql_pending s' + of_bool (pends p) = ql_pending s + of_bool (pends p')"
    by (cases p) (auto simp: Let_def log_info_def split: if_splits)
qed simp_all

interpretation gau: counted "backlog_step what" Called "\<lambda>q. ql_gauge q \<noteq> None"
  "\<lambda>q. the (ql_gauge q)" gauged
proof
  fix s :: backlogQLimiter and e :: 'b and p s' p'
  assume "ql_gauge s \<noteq> None" and "backlog_step what e p s = (s', p')"
  then show "ql_gauge s' \<noteq> None"
    and "the (ql_gauge s') + of_bool (gauged p) = the (ql_gauge s) + of_bool (gauged p')"
    by (cases p; auto simp: Let_def log_info_def split: if_splits)+
qed simp_all

lemma interleaved_limit:
  "interleaved (backlog_step what) Called init q ps \<Longrightarrow> ql_limit q = ql_limit init"
  by (induction rule: interleaved.induct) (auto dest: backlog_step_limit)

text \<open>A request is admitted only if, counting itself, no more than the limit are pending.\<close>

lemma admission_bounded:
  assumes "backlog_step what e p q = (q', p')" and "admitted p'" and "\<not> admitted p"
  shows "p = Called" and "ql_pending q' \<le> ql_limit q" and "ql_limit q \<noteq> RequestBacklogQueueNoLimit"
  using assms by (cases p; auto simp: Let_def split: if_splits)+

lemma admitted_bounded:
  assumes "interleaved (backlog_step what) Called init q ps" and "ql_pending init = 0"
    and "length ps < 2 ^ 64"
  shows "how_many admitted ps \<le> unat (ql_limit q)"
  using assms
proof (induction rule: interleaved.induct)
  case (move q ps i e q' p')
  have run: "interleaved (backlog_step what) Called init q' (ps[i := p'])"
    using move.hyps by (rule interleaved.move)
  have lim: "ql_limit q' = ql_limit q" using move.hyps(3) by (rule backlog_step_limit)
  show ?case
  proof (cases "admitted p' \<and> \<not> admitted (ps ! i)")
    case True
    with admission_bounded [OF move.hyps(3)] have "ql_pending q' \<le> ql_limit q" by blast
    moreover have "ql_pending q' = of_nat (how_many pends (ps[i := p']))"
      using pend.interleaved_counter [OF run] move.prems(1) by simp
    moreover have "how_many pends (ps[i := p']) < 2 ^ 64"
      using how_many_simps(3) [of pends "ps[i := p']"] move.prems(2) by simp
    ultimately have "how_many pends (ps[i := p']) \<le> unat (ql_limit q)"
      by (simp add: word_le_nat_alt unat_of_nat take_bit_nat_eq_self)
    moreover have "how_many admitted (ps[i := p']) \<le> how_many pends (ps[i := p'])"
    proof (rule how_many_mono)
      fix p :: "'b request_pc"
      assume "admitted p"
      then show "pends p" by (cases p) auto
    qed
    ultimately show ?thesis using lim by simp
  next
    case False
    then have "how_many admitted (ps[i := p']) \<le> how_many admitted ps"
      using how_many_update [OF move.hyps(2), of admitted p'] by (cases "admitted p'"; cases "admitted (ps ! i)") auto
    moreover have "how_many admitted ps \<le> unat (ql_limit q)" using move by simp
    ultimately show ?thesis using lim by simp
  qed
qed simp_all

text \<open>C8: However the requests of a limited handler interleave, at most the limit are past the
  admission and not yet counted out, the downstream handler among them, and once every request
  is answered, refused or panicked, the pending counter and the gauge are back at their
  start.\<close>

theorem backlog_bounded:
  assumes "interleaved (Handle_step mname) Called (MakeBacklogQueueLimiter (Some 0) limit logger) q ps"
    and "length ps < 2 ^ 64"
  shows "how_many admitted ps \<le> unat limit \<and>
    (list_all settled ps \<longrightarrow> ql_pending q = 0 \<and> ql_gauge q = Some 0)"
proof (intro conjI impI)
  let ?init = "MakeBacklogQueueLimiter (Some 0) limit logger"
  have run: "interleaved (backlog_step (''rpc '' @ mname)) Called ?init q ps"
    using assms(1) by (simp add: Handle_step_def)
  have init: "ql_limit ?init = limit" "ql_pending ?init = 0" "ql_gauge ?init = Some 0"
    by (simp_all add: MakeBacklogQueueLimiter_def)
  show "how_many admitted ps \<le> unat limit"
    using admitted_bounded [OF run init(2) assms(2)] interleaved_limit [OF run] init(1) by simp
  assume fin: "list_all settled ps"
  have idle: "\<not> pends p" "\<not> gauged p" if "p \<in> set ps" for p
    using fin that by (cases p; auto simp: list_all_iff)+
  show "ql_pending q = 0"
    using pend.interleaved_counter [OF run] init(2) how_many_none [of ps pends] idle(1) by simp
  have "the (ql_gauge q) = 0" "ql_gauge q \<noteq> None"
    using gau.interleaved_counter [OF run] gau.interleaved_good [OF run] init(3)
      how_many_none [of ps gauged] idle(2) by simp_all
  then show "ql_gauge q = Some 0" by auto
qed

text \<open>With a limit of one, the second request is refused while the first executes.\<close>

definition busy_schedule :: "(nat \<times> string res) option list" where
  "busy_schedule =
     [None, None, Some (0, Inr ''a''), Some (0, Inr ''a''), Some (1, Inr ''b''), Some (1, Inr ''b''),
      Some (1, Inr ''b''), Some (0, Inr ''a''), Some (0, Inr ''a''), Some (0, Inr ''a''), Some (0, Inr ''a'')]"

theorem backlog_bounded_witness:
  "\<exists>q ps. interleaved (Handle_step ''getHealth'') Called (MakeBacklogQueueLimiter (Some 0) 1 None) q ps \<and>
     ps = [Answered (Inr ''a'' :: string res), Busy] \<and> how_many admitted ps \<le> unat (1 :: u64) \<and>
     ql_pending q = 0 \<and> ql_gauge q = Some 0"
proof -
  let ?init = "MakeBacklogQueueLimiter (Some 0) 1 None" and ?ps = "[Answered (Inr ''a''), Busy] :: string res request_pc list"
  have "map_option snd (schedule (Handle_step ''getHealth'') Called busy_schedule (?init, [])) = Some ?ps"
    by code_simp
  then obtain q where q: "schedule (Handle_step ''getHealth'') Called busy_schedule (?init, []) = Some (q, ?ps)"
    by auto
  from schedule_interleaved [OF this interleaved.initial]
  have run: "interleaved (Handle_step ''getHealth'') Called ?init q ?ps" .
  moreover have "how_many admitted ?ps \<le> unat (1 :: u64) \<and> ql_pending q = 0 \<and> ql_gauge q = Some 0"
    using backlog_bounded [OF run] by simp
  ultimately show ?thesis by blast
qed

end
