(* ===== verification/DurationLimiter.thy ===== *)
theory DurationLimiter
  imports Limiters
begin

text \<open>
  \<^verbatim>\<open>network/requestdurationlimiter.go\<close>: the limiters of the time a request may take. The
  downstream handler runs in its own goroutine and, for HTTP, writes into a private buffer; the
  caller waits for a warning timer, a limit timer and the completion. A handler is given by the
  calls it makes on its response writer and by how it ends.
\<close>

subsection \<open>Response writers\<close>

type_synonym header = "string \<rightharpoonup> string list"

datatype writer_call = WriteHeader int | Write bytes

text \<open>The response handed to the server: its header map and the calls made so far, each with the
  header map at that moment.\<close>

record http_response =
  rsp_header :: header
  rsp_calls :: "(writer_call \<times> header) list"

definition call_writer :: "writer_call \<Rightarrow> http_response \<Rightarrow> http_response" where
  "call_writer c rsp = rsp\<lparr>rsp_calls := rsp_calls rsp @ [(c, rsp_header rsp)]\<rparr>"

datatype handler_call = SetHeader string "string list" | DelHeader string | Call writer_call

fun direct_call :: "handler_call \<Rightarrow> http_response \<Rightarrow> http_response" where
  "direct_call (SetHeader k v) rsp = rsp\<lparr>rsp_header := (rsp_header rsp)(k \<mapsto> v)\<rparr>"
| "direct_call (DelHeader k) rsp = rsp\<lparr>rsp_header := (rsp_header rsp)(k := None)\<rparr>"
| "direct_call (Call c) rsp = call_writer c rsp"

record bufferedResponseWriter =
  bw_header :: header
  bw_buffer :: bytes
  bw_statusCode :: int

definition makeBufferedResponseWriter :: "http_response \<Rightarrow> bufferedResponseWriter" where
  "makeBufferedResponseWriter rw = \<lparr>bw_header = rsp_header rw, bw_buffer = [], bw_statusCode = 0\<rparr>"

definition buffered_Write :: "bytes \<Rightarrow> bufferedResponseWriter \<Rightarrow> bufferedResponseWriter" where
  "buffered_Write buf w = w\<lparr>bw_buffer := bw_buffer w @ buf\<rparr>"

definition buffered_WriteHeader :: "int \<Rightarrow> bufferedResponseWriter \<Rightarrow> bufferedResponseWriter" where
  "buffered_WriteHeader statusCode w = w\<lparr>bw_statusCode := statusCode\<rparr>"

fun buffered_call :: "handler_call \<Rightarrow> bufferedResponseWriter \<Rightarrow> bufferedResponseWriter" where
  "buffered_call (SetHeader k v) w = w\<lparr>bw_header := (bw_header w)(k \<mapsto> v)\<rparr>"
| "buffered_call (DelHeader k) w = w\<lparr>bw_header := (bw_header w)(k := None)\<rparr>"
| "buffered_call (Call (WriteHeader n)) w = buffered_WriteHeader n w"
| "buffered_call (Call (Write b)) w = buffered_Write b w"

text \<open>\<open>cancelled\<close> is whether the context of the request has ended.\<close>

definition WriteOut :: "bool \<Rightarrow> bufferedResponseWriter \<Rightarrow> http_response \<Rightarrow> http_response" where
  "WriteOut cancelled w rw =
     (let rw1 = rw\<lparr>rsp_header := bw_header w\<rparr>;
          rw2 = (if bw_statusCode w \<noteq> 0 then call_writer (WriteHeader (bw_statusCode w)) rw1 else rw1)
      in if bw_buffer w = [] then rw2
         else if \<not> cancelled then call_writer (Write (bw_buffer w)) rw2 else rw2)"

subsection \<open>The HTTP limiter\<close>

definition RequestDurationLimiterNoLimit :: int where
  "RequestDurationLimiterNoLimit = maxDuration"

text \<open>Nil counters and loggers are \<open>None\<close>.\<close>

record requestDurationLimiter =
  dl_warningThreshold :: int
  dl_limitThreshold :: int
  dl_logger :: "string list option"
  dl_warningCounter :: "nat option"
  dl_limitCounter :: "nat option"

definition MakeRequestDurationLimiter ::
  "int \<Rightarrow> int \<Rightarrow> nat option \<Rightarrow> nat option \<Rightarrow> string list option \<Rightarrow> requestDurationLimiter" where
  "MakeRequestDurationLimiter warningThreshold limitThreshold warningCounter limitCounter logger =
     \<lparr>dl_warningThreshold = (if warningThreshold > limitThreshold then limitThreshold else warningThreshold),
      dl_limitThreshold = limitThreshold, dl_logger = logger,
      dl_warningCounter = warningCounter, dl_limitCounter = limitCounter\<rparr>"

text \<open>What the channels of the wait deliver. A completion carries the call stack of a panic, empty
  when the handler returned. The flags say whether the request's context has ended by then.\<close>

datatype limiter_event =
  WarningTick
| LimitTick bool
| Completed "string list" bool

definition warning_armed :: "requestDurationLimiter \<Rightarrow> bool" where
  "warning_armed q \<longleftrightarrow> dl_warningThreshold q \<noteq> 0 \<and> dl_warningThreshold q < dl_limitThreshold q"

definition limit_armed :: "requestDurationLimiter \<Rightarrow> bool" where
  "limit_armed q \<longleftrightarrow> dl_limitThreshold q \<noteq> 0"

definition info_log :: "string \<Rightarrow> requestDurationLimiter \<Rightarrow> requestDurationLimiter" where
  "info_log m q = q\<lparr>dl_logger := map_option (\<lambda>ms. ms @ [m]) (dl_logger q)\<rparr>"

definition count_limit :: "string \<Rightarrow> requestDurationLimiter \<Rightarrow> requestDurationLimiter" where
  "count_limit what q = info_log (''Request processing for '' @ what @
       '' exceed limiting threshold of '' @ Duration_String (dl_limitThreshold q))
     (q\<lparr>dl_limitCounter := map_option Suc (dl_limitCounter q)\<rparr>)"

definition count_warning :: "string \<Rightarrow> requestDurationLimiter \<Rightarrow> requestDurationLimiter" where
  "count_warning what q = info_log (''Request processing for '' @ what @
       '' exceed warning threshold of '' @ Duration_String (dl_warningThreshold q))
     (q\<lparr>dl_warningCounter := map_option Suc (dl_warningCounter q)\<rparr>)"

text \<open>The loop of \<^verbatim>\<open>ServeHTTP\<close>; \<open>None\<close> while it still waits. \<open>buf\<close> is what the handler leaves in
  its buffer when it returns.\<close>

fun http_select ::
  "string \<Rightarrow> bufferedResponseWriter \<Rightarrow> limiter_event list \<Rightarrow> bool \<Rightarrow> requestDurationLimiter \<Rightarrow>
   http_response \<Rightarrow> (requestDurationLimiter \<times> http_response) option" where
  "http_select path buf [] warn q res = None"
| "http_select path buf (WarningTick # es) warn q res = http_select path buf es True q res"
| "http_select path buf (LimitTick cancelled # es) warn q res =
     Some (count_limit path q, if cancelled then res else call_writer (WriteHeader 504) res)"
| "http_select path buf (Completed errStrings cancelled # es) warn q res =
     (let q1 = (if warn then count_warning path q else q) in
      if errStrings = [] then Some (q1, WriteOut cancelled buf res)
      else Some (foldl (\<lambda>q m. info_log m q) q1 errStrings, call_writer (WriteHeader 500) res))"

text \<open>Without a limit the handler writes to the response itself. Otherwise its calls go to the
  buffer.\<close>

definition ServeHTTP ::
  "string \<Rightarrow> handler_call list \<Rightarrow> limiter_event list \<Rightarrow> requestDurationLimiter \<Rightarrow> http_response \<Rightarrow>
   (requestDurationLimiter \<times> http_response) option" where
  "ServeHTTP path calls evs q res =
     (if dl_limitThreshold q = RequestDurationLimiterNoLimit then Some (q, fold direct_call calls res)
      else http_select path (fold buffered_call calls (makeBufferedResponseWriter res)) evs False q res)"

subsection \<open>The JSON-RPC limiter\<close>

definition ErrRequestExceededProcessingLimitThreshold :: handler_error where
  "ErrRequestExceededProcessingLimitThreshold =
     JErr (ServerError (- 32001)) ''request exceeded processing limit threshold''"

definition ErrFailToProcessDueToInternalIssue :: handler_error where
  "ErrFailToProcessDueToInternalIssue =
     JErr (ServerError (- 32003)) ''request failed to process due to internal issue''"

text \<open>How the handler ends: with a result or with a panic.\<close>

datatype 'a handler_end = Returned "'a answer" | Panicked string

datatype jrpc_event = JWarningTick | JLimitTick "handler_error option" | JCompleted

text \<open>After a panic the channel is closed without a value. The panic is logged without asking
  whether there is a logger: a nil one crashes the process.\<close>

fun jrpc_select ::
  "string \<Rightarrow> 'a handler_end \<Rightarrow> jrpc_event list \<Rightarrow> bool \<Rightarrow> requestDurationLimiter \<Rightarrow>
   (requestDurationLimiter \<times> 'a answer) option" where
  "jrpc_select mname r [] warn q = None"
| "jrpc_select mname r (JWarningTick # es) warn q = jrpc_select mname r es True q"
| "jrpc_select mname r (JLimitTick ctxErr # es) warn q =
     Some (count_limit mname q,
       case ctxErr of None \<Rightarrow> Inl ErrRequestExceededProcessingLimitThreshold | Some e \<Rightarrow> Inl e)"
| "jrpc_select mname r (JCompleted # es) warn q =
     (case r of
        Returned x \<Rightarrow> Some (if warn then count_warning mname q else q, x)
      | Panicked m \<Rightarrow>
          (case dl_logger q of
             None \<Rightarrow> Some (q, Inl (HPanic ''nil pointer dereference''))
           | Some _ \<Rightarrow>
               let q0 = info_log (''Request for method '' @ mname @ '' resulted in an error : '' @ m) q
               in Some (if warn then count_warning mname q0 else q0, Inl ErrFailToProcessDueToInternalIssue)))"

definition jrpc_Handle ::
  "string \<Rightarrow> 'a handler_end \<Rightarrow> jrpc_event list \<Rightarrow> requestDurationLimiter \<Rightarrow>
   (requestDurationLimiter \<times> 'a answer) option" where
  "jrpc_Handle mname r evs q =
     (if dl_limitThreshold q = RequestDurationLimiterNoLimit
      then Some (q, case r of Returned x \<Rightarrow> x | Panicked m \<Rightarrow> Inl (HPanic m))
      else jrpc_select mname r evs False q)"

subsection \<open>What the client receives\<close>

text \<open>The server sends the status and the header of the first call, 200 for a plain write or for
  no call at all, and the written bytes.\<close>

definition received :: "http_response \<Rightarrow> int \<times> header \<times> bytes" where
  "received rsp =
     (let status = (case rsp_calls rsp of
            [] \<Rightarrow> 200
          | (WriteHeader n, _) # _ \<Rightarrow> n
          | (Write _, _) # _ \<Rightarrow> 200);
          sent = (case rsp_calls rsp of [] \<Rightarrow> rsp_header rsp | (_, h) # _ \<Rightarrow> h)
      in (status, sent, concat (map (\<lambda>c. case c of (Write b, _) \<Rightarrow> b | _ \<Rightarrow> []) (rsp_calls rsp))))"

text \<open>A handler that sets its headers first, then the status if it sets one, then the body.\<close>

fun only_writes :: "handler_call list \<Rightarrow> bool" where
  "only_writes [] = True"
| "only_writes (Call (Write b) # cs) = only_writes cs"
| "only_writes _ = False"

fun orderly :: "handler_call list \<Rightarrow> bool" where
  "orderly (SetHeader k v # cs) = orderly cs"
| "orderly (DelHeader k # cs) = orderly cs"
| "orderly (Call (WriteHeader n) # cs) = (n \<noteq> 0 \<and> only_writes cs)"
| "orderly cs = only_writes cs"

fun bodies :: "handler_call list \<Rightarrow> bytes list" where
  "bodies [] = []"
| "bodies (Call (Write b) # cs) = b # bodies cs"
| "bodies (_ # cs) = bodies cs"

lemma buffered_writes:
  "only_writes cs \<Longrightarrow> fold buffered_call cs w = w\<lparr>bw_buffer := bw_buffer w @ concat (bodies cs)\<rparr>"
  by (induction cs arbitrary: w rule: only_writes.induct) (auto simp: buffered_Write_def)

lemma direct_writes:
  "only_writes cs \<Longrightarrow> fold direct_call cs rsp =
     rsp\<lparr>rsp_calls := rsp_calls rsp @ map (\<lambda>b. (Write b, rsp_header rsp)) (bodies cs)\<rparr>"
  by (induction cs arbitrary: rsp rule: only_writes.induct) (auto simp: call_writer_def)

lemma received_writes:
  assumes "rsp_calls rsp = map (\<lambda>b. (Write b, rsp_header rsp)) bs"
  shows "received rsp = (200, rsp_header rsp, concat bs)"
  using assms by (cases bs) (auto simp: received_def o_def)

text \<open>A buffer that has taken no call yet holds the header of the response behind it.\<close>

definition fresh_buffer :: "bufferedResponseWriter \<Rightarrow> http_response \<Rightarrow> bool" where
  "fresh_buffer w rsp \<longleftrightarrow> bw_header w = rsp_header rsp \<and> bw_buffer w = [] \<and> bw_statusCode w = 0 \<and>
     rsp_calls rsp = []"

lemma writes_transparent:
  assumes "only_writes cs" and "fresh_buffer w rsp" and "rsp_calls rsp' = []"
  shows "received (WriteOut False (fold buffered_call cs w) rsp') = received (fold direct_call cs rsp)"
proof -
  have "received (fold direct_call cs rsp) = (200, rsp_header rsp, concat (bodies cs))"
    using assms(1,2) by (simp add: direct_writes fresh_buffer_def received_writes)
  then show ?thesis
    using assms by (simp add: buffered_writes fresh_buffer_def WriteOut_def Let_def call_writer_def received_def)
qed

lemma status_transparent:
  assumes "only_writes cs" and "n \<noteq> 0" and "fresh_buffer w rsp" and "rsp_calls rsp' = []"
  shows "received (WriteOut False (fold buffered_call (Call (WriteHeader n) # cs) w) rsp') =
    received (fold direct_call (Call (WriteHeader n) # cs) rsp)"
  using assms by (simp add: buffered_writes direct_writes fresh_buffer_def buffered_WriteHeader_def
      WriteOut_def Let_def call_writer_def received_def o_def)

lemma orderly_transparent:
  assumes "orderly cs" and "fresh_buffer w rsp" and "rsp_calls rsp' = []"
  shows "received (WriteOut False (fold buffered_call cs w) rsp') = received (fold direct_call cs rsp)"
  using assms
proof (induction cs arbitrary: rsp w rule: orderly.induct)
  case (1 k v cs)
  then show ?case by (auto simp: fresh_buffer_def)
next
  case (2 k cs)
  then show ?case by (auto simp: fresh_buffer_def)
next
  case (3 n cs)
  then show ?case by (intro status_transparent) auto
qed (simp_all only: orderly.simps writes_transparent)

lemma http_select_completed:
  assumes "\<forall>e \<in> set ticks. e = WarningTick"
  shows "\<exists>q'. http_select path buf (ticks @ Completed [] cancelled # rest) warn q res =
    Some (q', WriteOut cancelled buf res)"
  using assms by (induction ticks arbitrary: warn) auto

lemma http_select_limited:
  assumes "\<forall>e \<in> set ticks. e = WarningTick"
  shows "http_select path buf (ticks @ LimitTick cancelled # rest) warn q res =
    Some (count_limit path q, if cancelled then res else call_writer (WriteHeader 504) res)"
  using assms by (induction ticks arbitrary: warn) auto


definition hello :: "handler_call list" where
  "hello = [SetHeader ''Content-Type'' [''text/plain''], Call (WriteHeader 201), Call (Write ''hel''),
     Call (Write ''lo'')]"

definition example_limiter :: requestDurationLimiter where
  "example_limiter = MakeRequestDurationLimiter Second (5 * Second) (Some 0) (Some 0) (Some [])"

definition empty_response :: http_response where
  "empty_response = \<lparr>rsp_header = (\<lambda>_. None), rsp_calls = []\<rparr>"


text \<open>C29: A request that exceeds the limit is answered with status 504 alone, and counted once,
  whatever its handler wrote and may still write; a request whose handler panics is answered with
  status 500 alone.\<close>

theorem limiter_cuts_off:
  assumes "dl_limitThreshold q \<noteq> RequestDurationLimiterNoLimit" and "\<forall>e \<in> set ticks. e = WarningTick"
    and "rsp_calls res = []" and "stack \<noteq> []"
  shows "\<exists>q1 q2 r1 r2. ServeHTTP path calls (ticks @ LimitTick False # rest) q res = Some (q1, r1) \<and>
    ServeHTTP path calls (ticks @ Completed stack c # rest) q res = Some (q2, r2) \<and>
    received r1 = (504, rsp_header res, []) \<and> received r2 = (500, rsp_header res, []) \<and>
    dl_limitCounter q1 = map_option Suc (dl_limitCounter q)"
proof -
  have "\<exists>q2. http_select path buf (ticks @ Completed stack c # rest) w q res =
      Some (q2, call_writer (WriteHeader 500) res)" for buf w
    using assms(2,4) by (induction ticks arbitrary: w) auto
  with http_select_limited [OF assms(2)] assms(1,3) show ?thesis
    by (fastforce simp: ServeHTTP_def call_writer_def received_def count_limit_def info_log_def)
qed

theorem limiter_cuts_off_witness:
  "\<exists>q1 r1. ServeHTTP ''/'' hello [WarningTick, LimitTick False] example_limiter empty_response = Some (q1, r1) \<and>
     received r1 = (504, \<lambda>_. None, []) \<and> dl_limitCounter q1 = Some 1"
proof -
  have "dl_limitThreshold example_limiter \<noteq> RequestDurationLimiterNoLimit" "rsp_calls empty_response = []"
    "rsp_header empty_response = (\<lambda>_. None)" "dl_limitCounter example_limiter = Some 0"
    by (simp_all add: example_limiter_def MakeRequestDurationLimiter_def RequestDurationLimiterNoLimit_def
        maxDuration_def Second_def empty_response_def)
  with limiter_cuts_off [of example_limiter "[WarningTick]" empty_response "[''boom'']" "''/''" hello "[]" False]
  show ?thesis by auto
qed

end
