(* ===== verification/SendTransaction.thy ===== *)
theory SendTransaction
  imports Handlers
begin

text \<open>
  \<^verbatim>\<open>methods/send_transaction.go\<close>: the handler of \<^verbatim>\<open>sendTransaction\<close> decodes and hashes the
  envelope, submits it to core and translates core's answer. Core, the codec and the hash of
  the network package are parameters.
\<close>

text \<open>The fields of core's answer the handler reads, \<^verbatim>\<open>proto.TXResponse\<close>; the test for an exception and
  the four states are constants of core's package, given with the other parameters.\<close>

record TXResponse =
  txr_Error :: string
  txr_Status :: string
  txr_DiagnosticEvents :: string

record ('env, 'r, 'd) submit_pkg =
  sp_UnmarshalEnvelope :: "string \<Rightarrow> 'env res"
  sp_HashTransactionInEnvelope :: "'env \<Rightarrow> string \<Rightarrow> bytes res"
  sp_SubmitTransaction :: "string \<Rightarrow> TXResponse res"
  sp_IsException :: "TXResponse \<Rightarrow> bool"
  sp_TXStatusError :: string
  sp_TXStatusPending :: string
  sp_TXStatusDuplicate :: string
  sp_TXStatusTryAgainLater :: string
  sp_UnmarshalResult :: "string \<Rightarrow> 'r res"
  sp_MarshalResult :: "'r \<Rightarrow> bytes res"
  sp_UnmarshalEvents :: "string \<Rightarrow> ('d list) res"
  sp_MarshalEvent :: "'d \<Rightarrow> bytes res"
  sp_DiagnosticEventsToSlice :: "string \<Rightarrow> (string list) res"

definition zero_SendTransactionResponse :: SendTransactionResponse where
  "zero_SendTransactionResponse = \<lparr>sn_ErrorResultXDR = '''', sn_ErrorResultJSON = '''',
     sn_DiagnosticEventsXDR = [], sn_DiagnosticEventsJSON = [], sn_Status = '''', sn_Hash = '''',
     sn_LatestLedger = 0, sn_LatestLedgerCloseTime = 0\<rparr>"

text \<open>The events of a rejected transaction; the number in the message counts from one.\<close>

fun events_JSON ::
  "('d \<Rightarrow> bytes res) \<Rightarrow> xdr2json_lib \<Rightarrow> nat \<Rightarrow> 'd list \<Rightarrow> (string list) answer" where
  "events_JSON marshal C i [] = Inr []"
| "events_JSON marshal C i (event # es) =
     bind_res (map_err (jerr InternalError) (map_err (wrap_err (''couldn'' @ [CHR 0x27] @ ''t decode event #'' @
         itoa (int i + 1) @ '': '')) (ConvertInterface C ''DiagnosticEvent'' (marshal event)))) (\<lambda>j.
     bind_res (events_JSON marshal C (Suc i) es) (\<lambda>js. Inr (j # js)))"

definition error_response ::
  "('env, 'r, 'd) submit_pkg \<Rightarrow> xdr2json_lib \<Rightarrow> string \<Rightarrow> TXResponse \<Rightarrow> SendTransactionResponse \<Rightarrow>
   SendTransactionResponse answer" where
  "error_response S C format resp errorResp =
     (let couldn = ''couldn'' @ [CHR 0x27] @ ''t '' in
      if format = FormatJSON then
        bind_res (map_err (jerr InternalError) (map_err (wrap_err (couldn @ ''decode error: ''))
            (sp_UnmarshalResult S (txr_Error resp)))) (\<lambda>errResult.
        bind_res (map_err (jerr InternalError) (map_err (wrap_err (couldn @ ''serialize error: ''))
            (ConvertInterface C ''TransactionResult'' (sp_MarshalResult S errResult)))) (\<lambda>resultJSON.
        bind_res (map_err (jerr InternalError) (map_err (wrap_err (couldn @ ''decode events: ''))
            (sp_UnmarshalEvents S (txr_DiagnosticEvents resp)))) (\<lambda>diagEvents.
        bind_res (events_JSON (sp_MarshalEvent S) C 0 diagEvents) (\<lambda>eventsJSON.
          Inr (errorResp\<lparr>sn_ErrorResultJSON := resultJSON, sn_DiagnosticEventsJSON := eventsJSON\<rparr>)))))
      else
        bind_res (map_err (jerr_fmt InternalError (\<lambda>_. ''could not decode diagnostic events''))
            (sp_DiagnosticEventsToSlice S (txr_DiagnosticEvents resp))) (\<lambda>events.
          Inr (errorResp\<lparr>sn_ErrorResultXDR := txr_Error resp, sn_DiagnosticEventsXDR := events\<rparr>)))"

text \<open>A ledger range that cannot be read leaves the zero ledger.\<close>

definition NewSendTransactionHandler ::
  "engine \<Rightarrow> ('env, 'r, 'd) submit_pkg \<Rightarrow> xdr2json_lib \<Rightarrow> string \<Rightarrow> 'v DB \<Rightarrow> SendTransactionRequest \<Rightarrow>
   SendTransactionResponse answer" where
  "NewSendTransactionHandler E S C passphrase db request =
     (case IsValidFormat (snr_Format request) of
        Some err \<Rightarrow> Inl (JErr InvalidParams err)
      | None \<Rightarrow>
     bind_res (map_err (jerr_fmt InvalidParams (\<lambda>_. ''invalid_xdr''))
         (sp_UnmarshalEnvelope S (snr_Transaction request))) (\<lambda>envelope.
     bind_res (map_err (jerr_fmt InvalidParams (\<lambda>_. ''invalid_hash''))
         (sp_HashTransactionInEnvelope S envelope passphrase)) (\<lambda>hash.
     let latestLedgerInfo = (case reader_GetLedgerRange E db of
             Inl _ \<Rightarrow> \<lparr>li_Sequence = 0, li_CloseTime = 0\<rparr>
           | Inr ledgerInfo \<Rightarrow> lr_LastLedger ledgerInfo) in
     bind_res (map_err (jerr_fmt InternalError (\<lambda>_. ''could not submit transaction to stellar-core''))
         (sp_SubmitTransaction S (snr_Transaction request))) (\<lambda>resp.
     if sp_IsException S resp then Inl (JErr InternalError ''received exception from stellar-core'')
     else
       let r = zero_SendTransactionResponse\<lparr>sn_Status := txr_Status resp, sn_Hash := hex_encode hash,
             sn_LatestLedger := li_Sequence latestLedgerInfo,
             sn_LatestLedgerCloseTime := li_CloseTime latestLedgerInfo\<rparr> in
       if txr_Status resp = sp_TXStatusError S then error_response S C (snr_Format request) resp r
       else if txr_Status resp \<in> {sp_TXStatusPending S, sp_TXStatusDuplicate S, sp_TXStatusTryAgainLater S} then Inr r
       else Inl (JErr InternalError ''invalid status from stellar-core'')))))"

subsection \<open>Properties\<close>

lemma error_response_fields:
  assumes "error_response S C format resp r = Inr r'"
  shows "sn_Status r' = sn_Status r" and "sn_Hash r' = sn_Hash r"
    and "sn_LatestLedger r' = sn_LatestLedger r"
    and "if format = FormatJSON then sn_ErrorResultXDR r' = sn_ErrorResultXDR r \<and>
        sn_DiagnosticEventsXDR r' = sn_DiagnosticEventsXDR r
      else sn_ErrorResultJSON r' = sn_ErrorResultJSON r \<and> sn_DiagnosticEventsJSON r' = sn_DiagnosticEventsJSON r"
  using assms by (auto simp: error_response_def bind_res_Inr_iff Let_def split: if_splits)

text \<open>What an accepted request went through: its envelope was decoded and hashed, and core answered
  with one of its four states.\<close>

lemma send_answered:
  assumes "NewSendTransactionHandler E S C passphrase db request = Inr r"
  obtains env h resp where "sp_UnmarshalEnvelope S (snr_Transaction request) = Inr env"
    and "sp_HashTransactionInEnvelope S env passphrase = Inr h" and "sn_Hash r = hex_encode h"
    and "sp_SubmitTransaction S (snr_Transaction request) = Inr resp" and "sn_Status r = txr_Status resp"
    and "sn_Status r \<in> {sp_TXStatusError S, sp_TXStatusPending S, sp_TXStatusDuplicate S, sp_TXStatusTryAgainLater S}"
    and "sn_Status r = sp_TXStatusError S \<or>
      sn_ErrorResultXDR r = '''' \<and> sn_ErrorResultJSON r = '''' \<and> sn_DiagnosticEventsXDR r = [] \<and>
      sn_DiagnosticEventsJSON r = []"
    and "if snr_Format request = FormatJSON then sn_ErrorResultXDR r = '''' \<and> sn_DiagnosticEventsXDR r = []
      else sn_ErrorResultJSON r = '''' \<and> sn_DiagnosticEventsJSON r = []"
proof -
  have none: "IsValidFormat (snr_Format request) = None"
    using assms by (auto simp: NewSendTransactionHandler_def split: option.splits)
  then obtain env h resp where run: "sp_UnmarshalEnvelope S (snr_Transaction request) = Inr env"
    "sp_HashTransactionInEnvelope S env passphrase = Inr h"
    "sp_SubmitTransaction S (snr_Transaction request) = Inr resp" "\<not> sp_IsException S resp"
    using assms by (auto simp: NewSendTransactionHandler_def bind_res_Inr_iff Let_def split: if_splits)
  define r0 where "r0 = zero_SendTransactionResponse\<lparr>sn_Status := txr_Status resp, sn_Hash := hex_encode h,
    sn_LatestLedger := li_Sequence (case reader_GetLedgerRange E db of
        Inl _ \<Rightarrow> \<lparr>li_Sequence = 0, li_CloseTime = 0\<rparr> | Inr l \<Rightarrow> lr_LastLedger l),
    sn_LatestLedgerCloseTime := li_CloseTime (case reader_GetLedgerRange E db of
        Inl _ \<Rightarrow> \<lparr>li_Sequence = 0, li_CloseTime = 0\<rparr> | Inr l \<Rightarrow> lr_LastLedger l)\<rparr>"
  have r: "txr_Status resp = sp_TXStatusError S \<and> error_response S C (snr_Format request) resp r0 = Inr r \<or>
      txr_Status resp \<in> {sp_TXStatusPending S, sp_TXStatusDuplicate S, sp_TXStatusTryAgainLater S} \<and> r = r0"
    using assms none run unfolding r0_def
    by (auto simp: NewSendTransactionHandler_def Let_def split: if_splits)
  have z: "sn_ErrorResultXDR r0 = ''''" "sn_ErrorResultJSON r0 = ''''" "sn_DiagnosticEventsXDR r0 = []"
    "sn_DiagnosticEventsJSON r0 = []" "sn_Status r0 = txr_Status resp" "sn_Hash r0 = hex_encode h"
    by (simp_all add: r0_def zero_SendTransactionResponse_def)
  from r that [OF run(1,2) _ run(3)] show ?thesis
    using error_response_fields [of S C "snr_Format request" resp r0 r] z by (auto split: if_splits)
qed

text \<open>C32: A successful answer of \<^verbatim>\<open>sendTransaction\<close> is well formed: its status is one of the four of
  core, its hash has 64 hexadecimal digits, error details are only set for the error status, and
  only in the requested format.\<close>

theorem sendTransaction_well_formed:
  assumes "NewSendTransactionHandler E S C passphrase db request = Inr r"
    and "\<And>env h. sp_HashTransactionInEnvelope S env passphrase = Inr h \<Longrightarrow> length h = 32"
  shows "sn_Status r \<in> {sp_TXStatusError S, sp_TXStatusPending S, sp_TXStatusDuplicate S, sp_TXStatusTryAgainLater S} \<and>
    length (sn_Hash r) = 64 \<and>
    (sn_Status r \<noteq> sp_TXStatusError S \<longrightarrow> sn_ErrorResultXDR r = '''' \<and> sn_ErrorResultJSON r = '''' \<and>
       sn_DiagnosticEventsXDR r = [] \<and> sn_DiagnosticEventsJSON r = []) \<and>
    (if snr_Format request = FormatJSON then sn_ErrorResultXDR r = '''' \<and> sn_DiagnosticEventsXDR r = []
     else sn_ErrorResultJSON r = '''' \<and> sn_DiagnosticEventsJSON r = [])"
  using assms(1)
proof (rule send_answered)
  fix env h
  assume "sp_HashTransactionInEnvelope S env passphrase = Inr h" and "sn_Hash r = hex_encode h"
  with assms(2) have "length (sn_Hash r) = 64" by (simp add: hex_encode_length)
  moreover assume "sn_Status r \<in> {sp_TXStatusError S, sp_TXStatusPending S, sp_TXStatusDuplicate S, sp_TXStatusTryAgainLater S}"
    and "sn_Status r = sp_TXStatusError S \<or>
      sn_ErrorResultXDR r = '''' \<and> sn_ErrorResultJSON r = '''' \<and> sn_DiagnosticEventsXDR r = [] \<and>
      sn_DiagnosticEventsJSON r = []"
    and "if snr_Format request = FormatJSON then sn_ErrorResultXDR r = '''' \<and> sn_DiagnosticEventsXDR r = []
      else sn_ErrorResultJSON r = '''' \<and> sn_DiagnosticEventsJSON r = []"
  ultimately show ?thesis by blast
qed

text \<open>A core that accepts every transaction, of which the envelope text is the hash.\<close>

definition accepting_core :: "(string, string, string) submit_pkg" where
  "accepting_core = \<lparr>sp_UnmarshalEnvelope = Inr,
     sp_HashTransactionInEnvelope = (\<lambda>env _. if length env = 32 then Inr env else Inl (Err ''bad envelope'')),
     sp_SubmitTransaction = (\<lambda>_. Inr \<lparr>txr_Error = '''', txr_Status = ''PENDING'',
        txr_DiagnosticEvents = ''''\<rparr>),
     sp_IsException = (\<lambda>_. False), sp_TXStatusError = ''ERROR'', sp_TXStatusPending = ''PENDING'',
     sp_TXStatusDuplicate = ''DUPLICATE'', sp_TXStatusTryAgainLater = ''TRY_AGAIN_LATER'',
     sp_UnmarshalResult = Inr, sp_MarshalResult = Inr, sp_UnmarshalEvents = (\<lambda>_. Inr []),
     sp_MarshalEvent = Inr, sp_DiagnosticEventsToSlice = (\<lambda>_. Inr [])\<rparr>"

lemma accepting_core_sends:
  obtains r where "NewSendTransactionHandler E accepting_core C passphrase db
      \<lparr>snr_Transaction = example_hash, snr_Format = ''base64''\<rparr> = Inr r"
proof -
  have "IsValidFormat ''base64'' = None" by (simp add: IsValidFormat_None FormatBase64_def)
  with that show ?thesis
    by (simp add: NewSendTransactionHandler_def accepting_core_def example_hash_def
        Let_def)
qed

theorem sendTransaction_well_formed_witness:
  "\<exists>r. NewSendTransactionHandler calm_engine accepting_core plain_json ''test'' (OpenSQLiteDB three_ledgers)
      \<lparr>snr_Transaction = example_hash, snr_Format = ''base64''\<rparr> = Inr r \<and> length (sn_Hash r) = 64"
proof -
  obtain r where r: "NewSendTransactionHandler calm_engine accepting_core plain_json ''test''
      (OpenSQLiteDB three_ledgers) \<lparr>snr_Transaction = example_hash, snr_Format = ''base64''\<rparr> = Inr r"
    by (rule accepting_core_sends)
  have "length h = 32" if "sp_HashTransactionInEnvelope accepting_core env ''test'' = Inr h" for env h
    using that by (simp add: accepting_core_def split: if_splits)
  with sendTransaction_well_formed [OF r] r show ?thesis by blast
qed

text \<open>C33: A client finds what it sent: when the network includes the transaction whose hash
  \<^verbatim>\<open>sendTransaction\<close> returned in the next ledger and that ledger is ingested,
  \<^verbatim>\<open>getTransaction\<close> asked for the returned hash answers its status and the ledger.\<close>

theorem sent_transaction_found:
  assumes "no_faults E" and "toid_spec (pk_toid P)" and "0 < rw_historyRetentionWindow rw"
    and "service_inv (Following n, s)" and "nw_GetLedger N n = Inr m"
    and "lcm_LedgerSequence m = n" and "0 < n" and "unat n + 1 < 2 ^ 31"
    and "ledger_valid P (rw_passphrase rw) (db_tables (sv_db s)) m txs"
    and "fees_valid (sv_feeWindows s) m" and "tx \<in> set txs"
    and "ParseTransaction V m tx = Inr p" and "th_passphrase reader = rw_passphrase rw"
    and "NewSendTransactionHandler E S C (rw_passphrase rw) (sv_db s) request = Inr r"
    and "\<And>env h. sp_UnmarshalEnvelope S (snr_Transaction request) = Inr env \<Longrightarrow>
      sp_HashTransactionInEnvelope S env (rw_passphrase rw) = Inr h \<Longrightarrow> h \<in> set (tx_hashes tx) \<and> length h = 32"
  shows "\<exists>s' resp. ingest E P rw N n s = (None, s') \<and>
    methods_GetTransaction E V C reader (sv_db s') \<lparr>gt_Hash = sn_Hash r, gt_Format = FormatBase64\<rparr> = Inr resp \<and>
    td_Status (gtx_Details resp) = (if tx_Successful tx then TransactionStatusSuccess else TransactionStatusFailed) \<and>
    td_Ledger (gtx_Details resp) = n"
  using assms(14)
proof (rule send_answered)
  fix env h
  assume "sp_UnmarshalEnvelope S (snr_Transaction request) = Inr env"
    and "sp_HashTransactionInEnvelope S env (rw_passphrase rw) = Inr h" and hash: "sn_Hash r = hex_encode h"
  with assms(15) have "h \<in> set (tx_hashes tx)" "length h = 32" by blast+
  from served_after_ingest [OF assms(1-11) this assms(12,13), of FormatBase64 C] hash show ?thesis by fastforce
qed

theorem sent_transaction_found_witness:
  "\<exists>s s' r resp. NewSendTransactionHandler calm_engine accepting_core plain_json ''test'' (sv_db s)
      \<lparr>snr_Transaction = example_hash, snr_Format = ''base64''\<rparr> = Inr r \<and>
    ingest calm_engine example_pkgs example_rw example_network 8 s = (None, s') \<and>
    methods_GetTransaction calm_engine blob_events plain_json writing_txs (sv_db s')
      \<lparr>gt_Hash = sn_Hash r, gt_Format = FormatBase64\<rparr> = Inr resp \<and>
    td_Status (gtx_Details resp) = ''SUCCESS''"
proof -
  note f = example_ingested_facts
  obtain s p where s: "service_inv (Following 8, s)"
    "ledger_valid example_pkgs (rw_passphrase example_rw) (db_tables (sv_db s)) (example_ledger 8 [event_tx]) [event_tx]"
    "fees_valid (sv_feeWindows s) (example_ledger 8 [event_tx])"
    "ParseTransaction blob_events (example_ledger 8 [event_tx]) event_tx = Inr p"
    by (rule example_ingestible)
  have pass: "rw_passphrase example_rw = ''test''" by (simp add: example_rw_def)
  obtain r where r: "NewSendTransactionHandler calm_engine accepting_core plain_json (rw_passphrase example_rw) (sv_db s)
      \<lparr>snr_Transaction = example_hash, snr_Format = ''base64''\<rparr> = Inr r"
    by (rule accepting_core_sends)
  have "\<exists>s' resp. ingest calm_engine example_pkgs example_rw example_network 8 s = (None, s') \<and>
      methods_GetTransaction calm_engine blob_events plain_json writing_txs (sv_db s')
        \<lparr>gt_Hash = sn_Hash r, gt_Format = FormatBase64\<rparr> = Inr resp \<and>
      td_Status (gtx_Details resp) = (if tx_Successful event_tx then TransactionStatusSuccess else TransactionStatusFailed) \<and>
      td_Ledger (gtx_Details resp) = 8"
    by (rule sent_transaction_found [OF calm_engine_no_faults _ f(6) s(1) f(4,5) _ _ s(2,3) _ s(4) f(7) r])
      (use f in \<open>auto simp: toid_layout_spec accepting_core_def\<close>)
  with r f(3) pass show ?thesis by (auto simp: TransactionStatusSuccess_def)
qed

end
