(* ===== verification/SimulateTransaction.thy ===== *)
theory SimulateTransaction
  imports LedgerEntriesMethod
begin

text \<open>
  \<^verbatim>\<open>preflight/preflight.go\<close> and \<^verbatim>\<open>methods/simulate_transaction.go\<close>: the simulation of a transaction.
  The handler checks the envelope, resolves the authorization mode, and hands the operation to
  the preflight library, which reads ledger entries through \<^verbatim>\<open>SnapshotSourceGet\<close>; then it formats
  the result. The library, written in Rust, the codec and the clock are parameters.
\<close>

subsection \<open>preflight.go\<close>

record XDRDiff =
  xd_Before :: bytes
  xd_After :: bytes

record Preflight =
  pf_Error :: string
  pf_Events :: "bytes list"
  pf_TransactionData :: bytes
  pf_MinFee :: i64
  pf_Result :: bytes
  pf_Auth :: "bytes list"
  pf_CPUInstructions :: u64
  pf_MemoryBytes :: u64
  pf_PreRestoreTransactionData :: bytes
  pf_PreRestoreMinFee :: i64
  pf_LedgerEntryDiff :: "XDRDiff list"

text \<open>The binary codec of keys and entries, and what the source account, the operation body and
  the footprint answer to \<^verbatim>\<open>MarshalBinary\<close>.\<close>

record ('k, 'e) snapshot_pkg =
  ss_UnmarshalKey :: "bytes \<Rightarrow> 'k res"
  ss_MarshalEntry :: "'e \<Rightarrow> bytes res"

record op_body =
  ob_Type :: OperationType
  ob_AuthCount :: nat
  ob_MarshalBinary :: "bytes res"
  ob_InvokeMarshalBinary :: "bytes res"

text \<open>\<^verbatim>\<open>ledger_entry_and_ttl_t\<close>: no entry, or its bytes and its time to live, -1 if it has none.\<close>

type_synonym snapshot = "bytes \<Rightarrow> ((bytes \<times> int) option) res"

definition SnapshotSourceGet ::
  "('k, 'e) snapshot_pkg \<Rightarrow> ('k list \<Rightarrow> (('k, 'e) LedgerKeyAndEntry list \<times> u32) res) \<Rightarrow> snapshot" where
  "SnapshotSourceGet B getter ledgerKeyXDR =
     (case ss_UnmarshalKey B ledgerKeyXDR of
        Inl e \<Rightarrow> Inl (Panic (case e of Err m \<Rightarrow> m | Panic m \<Rightarrow> m))
      | Inr ledgerKey \<Rightarrow>
          (case getter [ledgerKey] of
             Inl (Panic m) \<Rightarrow> Inl (Panic m)
           | Inl (Err _) \<Rightarrow> Inr None
           | Inr (entries, _) \<Rightarrow>
               (case entries of
                  [] \<Rightarrow> Inr None
                | [ke] \<Rightarrow>
                    (case ss_MarshalEntry B (lke_Entry ke) of
                       Inl e \<Rightarrow> Inl (Panic (case e of Err m \<Rightarrow> m | Panic m \<Rightarrow> m))
                     | Inr out \<Rightarrow> Inr (Some (out,
                         case lke_LiveUntilLedgerSeq ke of None \<Rightarrow> - 1 | Some l \<Rightarrow> uint l)))
                | _ \<Rightarrow> Inr None)))"

definition AuthModeEnforce :: string where "AuthModeEnforce = ''enforce''"
definition AuthModeRecord :: string where "AuthModeRecord = ''record''"
definition AuthModeRecordAllowNonroot :: string where "AuthModeRecordAllowNonroot = ''record_allow_nonroot''"

record Parameters =
  pm_SourceAccount :: "bytes res"
    \<comment> \<open>what the account answers to \<^verbatim>\<open>MarshalBinary\<close>\<close>
  pm_OpBody :: op_body
  pm_Footprint :: "bytes res"
    \<comment> \<open>what the footprint answers to \<^verbatim>\<open>MarshalBinary\<close>\<close>
  pm_NetworkPassphrase :: string
  pm_Snapshot :: snapshot
    \<comment> \<open>\<^verbatim>\<open>LedgerEntryGetter\<close>, as the library sees it\<close>
  pm_LedgerSeq :: u32
  pm_BucketListSize :: u64
  pm_ResourceConfig :: ResourceConfig
  pm_EnableDebug :: bool
  pm_AuthMode :: string
  pm_ProtocolVersion :: u32

text \<open>\<^verbatim>\<open>GetterParameters\<close>: what a caller of the worker pool gives; the pool adds its own settings. The
  wrapper it puts around the getter only measures.\<close>

record GetterParameters =
  gp_BucketListSize :: u64
  gp_SourceAccount :: "bytes res"
  gp_OperationBody :: op_body
  gp_Footprint :: "bytes res"
  gp_ResourceConfig :: ResourceConfig
  gp_AuthMode :: string
  gp_ProtocolVersion :: u32
  gp_Snapshot :: snapshot
  gp_LedgerSeq :: u32

definition preflightParams :: "string \<Rightarrow> bool \<Rightarrow> GetterParameters \<Rightarrow> Parameters" where
  "preflightParams networkPassphrase enableDebug params =
     \<lparr>pm_SourceAccount = gp_SourceAccount params, pm_OpBody = gp_OperationBody params,
      pm_Footprint = gp_Footprint params, pm_NetworkPassphrase = networkPassphrase,
      pm_Snapshot = gp_Snapshot params, pm_LedgerSeq = gp_LedgerSeq params,
      pm_BucketListSize = gp_BucketListSize params, pm_ResourceConfig = gp_ResourceConfig params,
      pm_EnableDebug = enableDebug, pm_AuthMode = gp_AuthMode params,
      pm_ProtocolVersion = gp_ProtocolVersion params\<rparr>"

record c_ledger_info =
  cl_network_passphrase :: string
  cl_sequence_number :: u32
  cl_protocol_version :: u32
  cl_timestamp :: u64
  cl_base_reserve :: u32
  cl_bucket_list_size :: u64

definition defaultBaseReserve :: u32 where
  "defaultBaseReserve = 5000000"

definition getLedgerInfo :: "u64 \<Rightarrow> Parameters \<Rightarrow> c_ledger_info" where
  "getLedgerInfo now params =
     \<lparr>cl_network_passphrase = pm_NetworkPassphrase params, cl_sequence_number = pm_LedgerSeq params,
      cl_protocol_version = pm_ProtocolVersion params, cl_timestamp = now,
      cl_base_reserve = defaultBaseReserve, cl_bucket_list_size = pm_BucketListSize params\<rparr>"

text \<open>The two entry points of the library; a panic of a callback is the panic of the call.\<close>

record preflight_lib =
  preflight_footprint_ttl_op :: "snapshot \<Rightarrow> bytes \<Rightarrow> bytes \<Rightarrow> c_ledger_info \<Rightarrow> Preflight res"
  preflight_invoke_hf_op ::
    "snapshot \<Rightarrow> bytes \<Rightarrow> bytes \<Rightarrow> c_ledger_info \<Rightarrow> u64 \<Rightarrow> bool \<Rightarrow> u32 \<Rightarrow> Preflight res"

definition getFootprintTTLPreflight :: "preflight_lib \<Rightarrow> u64 \<Rightarrow> Parameters \<Rightarrow> Preflight res" where
  "getFootprintTTLPreflight L now params =
     bind_res (ob_MarshalBinary (pm_OpBody params)) (\<lambda>opBodyXDR.
     bind_res (map_err (wrap_err ''cannot marshal footprint: '') (pm_Footprint params)) (\<lambda>footprintXDR.
       preflight_footprint_ttl_op L (pm_Snapshot params) opBodyXDR footprintXDR (getLedgerInfo now params)))"

definition auth_mode_number :: "string \<Rightarrow> u32 option" where
  "auth_mode_number m =
     (if m = AuthModeEnforce then Some 0 else if m = AuthModeRecord then Some 1
      else if m = AuthModeRecordAllowNonroot then Some 2 else None)"

definition getInvokeHostFunctionPreflight :: "preflight_lib \<Rightarrow> u64 \<Rightarrow> Parameters \<Rightarrow> Preflight res" where
  "getInvokeHostFunctionPreflight L now params =
     bind_res (ob_InvokeMarshalBinary (pm_OpBody params)) (\<lambda>invokeHostFunctionXDR.
     bind_res (pm_SourceAccount params) (\<lambda>sourceAccountXDR.
     case auth_mode_number (pm_AuthMode params) of
       None \<Rightarrow> Inl (Err (''invalid auth mode: '' @ sq @ pm_AuthMode params @ sq))
     | Some authMode \<Rightarrow>
         preflight_invoke_hf_op L (pm_Snapshot params) invokeHostFunctionXDR sourceAccountXDR
           (getLedgerInfo now params) (rc_InstructionLeeway (pm_ResourceConfig params))
           (pm_EnableDebug params) authMode))"

definition GetPreflight :: "preflight_lib \<Rightarrow> u64 \<Rightarrow> Parameters \<Rightarrow> Preflight res" where
  "GetPreflight L now params =
     (case ob_Type (pm_OpBody params) of
        InvokeHostFunction \<Rightarrow> getInvokeHostFunctionPreflight L now params
      | ExtendFootprintTtl \<Rightarrow> getFootprintTTLPreflight L now params
      | RestoreFootprint \<Rightarrow> getFootprintTTLPreflight L now params
      | OtherOperation s \<Rightarrow> Inl (Err (''unsupported operation type: '' @ s)))"

subsection \<open>State changes\<close>

definition errMissingDiff :: go_error where
  "errMissingDiff = Err ''no ledger difference found''"

text \<open>An entry as the codec decodes it, with what its key answers.\<close>

record change_pkg =
  cp_EntryKey :: "bytes \<Rightarrow> (bytes res \<times> string res) res"
    \<comment> \<open>\<^verbatim>\<open>SafeUnmarshal\<close> and \<^verbatim>\<open>entry.LedgerKey()\<close>; the key's \<^verbatim>\<open>MarshalBinary\<close> and \<^verbatim>\<open>MarshalBase64\<close>\<close>

definition zero_LedgerEntryChange :: LedgerEntryChange where
  "zero_LedgerEntryChange = \<lparr>lec_Type = 0, lec_KeyXDR = '''', lec_KeyJSON = '''', lec_BeforeXDR = None,
     lec_BeforeJSON = '''', lec_AfterXDR = None, lec_AfterJSON = ''''\<rparr>"

definition AddLedgerEntryChangeJSON ::
  "xdr2json_lib \<Rightarrow> LedgerEntryChange \<Rightarrow> XDRDiff \<Rightarrow> bytes res \<Rightarrow> LedgerEntryChange res" where
  "AddLedgerEntryChangeJSON C l diff key =
     bind_res (ConvertInterface C ''LedgerKey'' key) (\<lambda>keyJSON.
     let l1 = l\<lparr>lec_KeyJSON := keyJSON\<rparr> in
     bind_res
       (if xd_Before diff \<noteq> [] then
          bind_res (ConvertBytes C ''LedgerEntry'' (xd_Before diff)) (\<lambda>j. Inr (l1\<lparr>lec_BeforeJSON := j\<rparr>))
        else Inr l1)
       (\<lambda>l2.
          if xd_After diff \<noteq> [] then
            bind_res (ConvertBytes C ''LedgerEntry'' (xd_After diff)) (\<lambda>j. Inr (l2\<lparr>lec_BeforeJSON := j\<rparr>))
          else Inr l2))"

definition LedgerEntryChangeFromXDRDiff ::
  "change_pkg \<Rightarrow> xdr2json_lib \<Rightarrow> XDRDiff \<Rightarrow> string \<Rightarrow> LedgerEntryChange res" where
  "LedgerEntryChangeFromXDRDiff D C diff format =
     (case IsValidFormat format of
        Some err \<Rightarrow> Inl (Err err)
      | None \<Rightarrow>
     let beforePresent = xd_Before diff \<noteq> []; afterPresent = xd_After diff \<noteq> [] in
     bind_res
       (if beforePresent then
          Inr (xd_Before diff,
            if afterPresent then LedgerEntryChangeTypeUpdated else LedgerEntryChangeTypeDeleted)
        else if afterPresent then Inr (xd_After diff, LedgerEntryChangeTypeCreated)
        else Inl errMissingDiff)
       (\<lambda>(entryXDR, changeType).
     bind_res (cp_EntryKey D entryXDR) (\<lambda>(keyBinary, keyBase64).
     let result = zero_LedgerEntryChange\<lparr>lec_Type := changeType\<rparr> in
     if format = FormatJSON then AddLedgerEntryChangeJSON C result diff keyBinary
     else bind_res keyBase64 (\<lambda>keyB64.
       Inr (result\<lparr>lec_KeyXDR := keyB64,
         lec_BeforeXDR := (if beforePresent then Some (EncodeToString (xd_Before diff)) else None),
         lec_AfterXDR := (if afterPresent then Some (EncodeToString (xd_After diff)) else None)\<rparr>)))))"

subsection \<open>The response\<close>

definition getRestorePreamble :: "xdr2json_lib \<Rightarrow> Preflight \<Rightarrow> string \<Rightarrow> (RestorePreamble option) res" where
  "getRestorePreamble C preflight format =
     (if pf_PreRestoreTransactionData preflight = [] then Inr None
      else if format = FormatJSON then
        bind_res (ConvertBytes C ''SorobanTransactionData'' (pf_PreRestoreTransactionData preflight)) (\<lambda>js.
          Inr (Some \<lparr>rp_TransactionDataXDR = '''', rp_TransactionDataJSON = js,
            rp_MinResourceFee = pf_PreRestoreMinFee preflight\<rparr>))
      else Inr (Some \<lparr>rp_TransactionDataXDR = EncodeToString (pf_PreRestoreTransactionData preflight),
             rp_TransactionDataJSON = '''', rp_MinResourceFee = pf_PreRestoreMinFee preflight\<rparr>))"

definition getSimulationResults ::
  "xdr2json_lib \<Rightarrow> Preflight \<Rightarrow> string \<Rightarrow> (SimulateHostFunctionResult list) res" where
  "getSimulationResults C preflight format =
     (if pf_Result preflight = [] then Inr []
      else if format = FormatJSON then
        bind_res (ConvertBytes C ''ScVal'' (pf_Result preflight)) (\<lambda>rvJs.
        bind_res (jsonifySlice C ''SorobanAuthorizationEntry'' (pf_Auth preflight)) (\<lambda>auths.
          Inr [\<lparr>shf_AuthXDR = None, shf_AuthJSON = auths, shf_ReturnValueXDR = None,
                shf_ReturnValueJSON = rvJs\<rparr>]))
      else Inr [\<lparr>shf_AuthXDR = Some (base64EncodeSlice (pf_Auth preflight)), shf_AuthJSON = [],
                 shf_ReturnValueXDR = Some (EncodeToString (pf_Result preflight)), shf_ReturnValueJSON = ''''\<rparr>])"

text \<open>A missing difference leaves the zero change at its position.\<close>

fun state_changes ::
  "change_pkg \<Rightarrow> xdr2json_lib \<Rightarrow> string \<Rightarrow> XDRDiff list \<Rightarrow> (LedgerEntryChange list) res" where
  "state_changes D C format [] = Inr []"
| "state_changes D C format (diff # diffs) =
     (case LedgerEntryChangeFromXDRDiff D C diff format of
        Inl err \<Rightarrow>
          if err = errMissingDiff
          then bind_res (state_changes D C format diffs) (\<lambda>cs. Inr (zero_LedgerEntryChange # cs))
          else Inl err
      | Inr change \<Rightarrow> bind_res (state_changes D C format diffs) (\<lambda>cs. Inr (change # cs)))"

definition zero_SimulateTransactionResponse :: SimulateTransactionResponse where
  "zero_SimulateTransactionResponse = \<lparr>st_Error = '''', st_TransactionDataXDR = '''',
     st_TransactionDataJSON = '''', st_EventsXDR = [], st_EventsJSON = [], st_MinResourceFee = 0,
     st_Results = [], st_RestorePreamble = None, st_StateChanges = [], st_LatestLedger = 0\<rparr>"

definition formatResponse ::
  "change_pkg \<Rightarrow> xdr2json_lib \<Rightarrow> Preflight \<Rightarrow> string \<Rightarrow> u32 \<Rightarrow> SimulateTransactionResponse res" where
  "formatResponse D C preflight format latestLedger =
     bind_res (getSimulationResults C preflight format) (\<lambda>results.
     bind_res (getRestorePreamble C preflight format) (\<lambda>restorePreamble.
     bind_res (state_changes D C format (pf_LedgerEntryDiff preflight)) (\<lambda>stateChanges.
     let simResp = zero_SimulateTransactionResponse\<lparr>st_Error := pf_Error preflight, st_Results := results,
           st_MinResourceFee := pf_MinFee preflight, st_LatestLedger := latestLedger,
           st_RestorePreamble := restorePreamble, st_StateChanges := stateChanges\<rparr> in
     if format = FormatJSON then
       bind_res (ConvertBytes C ''SorobanTransactionData'' (pf_TransactionData preflight)) (\<lambda>txData.
       bind_res (jsonifySlice C ''DiagnosticEvent'' (pf_Events preflight)) (\<lambda>events.
         Inr (simResp\<lparr>st_TransactionDataJSON := txData, st_EventsJSON := events\<rparr>)))
     else Inr (simResp\<lparr>st_EventsXDR := base64EncodeSlice (pf_Events preflight),
            st_TransactionDataXDR := EncodeToString (pf_TransactionData preflight)\<rparr>))))"

subsection \<open>The handler\<close>

definition validateAuthMode :: "op_body \<Rightarrow> string option \<Rightarrow> string res" where
  "validateAuthMode opBody authModeRef =
     (case authModeRef of
        None \<Rightarrow> Inl (Err ''invalid auth mode'')
      | Some authMode \<Rightarrow>
     if authMode \<notin> {'''', AuthModeEnforce, AuthModeRecord, AuthModeRecordAllowNonroot} then
       Inl (Err (''optional '' @ sq @ ''authMode'' @ sq @ '' must be one of '' @
         AuthModeEnforce @ '','' @ AuthModeRecord @ '','' @ AuthModeRecordAllowNonroot @ '' when included''))
     else
     (case ob_Type opBody of
        InvokeHostFunction \<Rightarrow>
          let hasAuth = ob_AuthCount opBody > 0 in
          if authMode = '''' then Inr (if hasAuth then AuthModeEnforce else AuthModeRecord)
          else if hasAuth \<and> (authMode = AuthModeRecord \<or> authMode = AuthModeRecordAllowNonroot) then
            Inl (Err (''cannot set authMode to '' @ sq @ authMode @ sq @ '' with an auth footprint''))
          else Inr authMode
      | OtherOperation s \<Rightarrow> Inl (Err (''transaction contains unsupported operation type: '' @ s))
      | _ \<Rightarrow> if authMode \<noteq> '''' then
               Inl (Err ''cannot set authMode with non-InvokeHostFunction operations'')
             else Inr authMode))"

definition getBucketListSizeAndProtocolVersion ::
  "engine \<Rightarrow> 'v DB \<Rightarrow> u32 \<Rightarrow> (u64 \<times> u32) res" where
  "getBucketListSizeAndProtocolVersion E db latestLedger =
     bind_res (reader_GetLedger E db latestLedger) (\<lambda>r.
       case r of
         None \<Rightarrow> Inl (Err (''missing meta for latest ledger ('' @ show_u32 latestLedger @ '')''))
       | Some closeMeta \<Rightarrow>
           if lcm_V closeMeta \<in> {1, 2} then
             Inr (lcm_TotalByteSizeOfLiveSorobanState closeMeta, lcm_LedgerVersion closeMeta)
           else Inl (Err (''latest ledger ('' @ show_u32 latestLedger @ '') meta has unexpected verion ('' @
             itoa (lcm_V closeMeta) @ '')'')))"

text \<open>
  A transaction envelope: its operations with their optional source accounts, its own source
  account, whether its type is that of a plain transaction, and its \<^verbatim>\<open>V1\<close> arm, nil for the other
  types, with the version of its extension and the footprint of the Soroban data, if set.
\<close>

record envelope =
  env_Operations :: "(op_body \<times> bytes res option) list"
  env_SourceAccount :: "bytes res"
  env_IsTx :: bool
  env_V1 :: "(int \<times> bytes res option) option"

definition nil_panic :: handler_error where
  "nil_panic = HPanic ''nil pointer dereference''"

definition op_footprint :: "envelope \<Rightarrow> string + bytes res answer" where
  "op_footprint env =
     (let ext_V = (case env_V1 env of None \<Rightarrow> None | Some (v, _) \<Rightarrow> Some v) in
      if \<not> env_IsTx env \<and> ext_V = None then Inr (Inl nil_panic)
      else if \<not> env_IsTx env \<and> ext_V \<noteq> Some 1 then
        Inl (''To perform a SimulateTransaction for ExtendFootprintTtl or RestoreFootprint operations,'' @
             '' SorobanTransactionData must be provided'')
      else (case env_V1 env of
              None \<Rightarrow> Inr (Inl nil_panic)
            | Some (_, None) \<Rightarrow> Inr (Inl nil_panic)
            | Some (_, Some fp) \<Rightarrow> Inr (Inr fp)))"

definition sim_error :: "u32 \<Rightarrow> string \<Rightarrow> SimulateTransactionResponse answer" where
  "sim_error latestLedger m =
     Inr (zero_SimulateTransactionResponse\<lparr>st_Error := m, st_LatestLedger := latestLedger\<rparr>)"

text \<open>An error of a step is the error text of the answer, a panic remains one.\<close>

fun or_error ::
  "u32 \<Rightarrow> 'a res \<Rightarrow> ('a \<Rightarrow> SimulateTransactionResponse answer) \<Rightarrow> SimulateTransactionResponse answer" where
  "or_error l (Inl (Err m)) f = sim_error l m"
| "or_error l (Inl (Panic m)) f = Inl (HPanic m)"
| "or_error l (Inr x) f = f x"

text \<open>The footprint of a host function call is the empty one, which marshals to \<open>empty_fp\<close>.\<close>

record ('k, 'e) sim_env =
  se_UnmarshalEnvelope :: "string \<Rightarrow> envelope res"
  se_EmptyFootprint :: "bytes res"
  se_change :: change_pkg
  se_entry :: "('k, 'e) entry_pkg"
  se_snapshot :: "('k, 'e) snapshot_pkg"
  se_coreClient :: "'k core_client"
  se_getter :: "GetterParameters \<Rightarrow> Preflight res"
    \<comment> \<open>the \<^verbatim>\<open>PreflightGetter\<close>: the worker pool\<close>

definition sim_footprint ::
  "('k, 'e) sim_env \<Rightarrow> op_body \<Rightarrow> envelope \<Rightarrow> string + bytes res answer" where
  "sim_footprint W op env =
     (case ob_Type op of
        InvokeHostFunction \<Rightarrow> Inr (Inr (se_EmptyFootprint W))
      | OtherOperation s \<Rightarrow> Inl (''Transaction contains unsupported operation type: '' @ s)
      | _ \<Rightarrow> op_footprint env)"

definition NewSimulateTransactionHandler ::
  "engine \<Rightarrow> ('k, 'e) sim_env \<Rightarrow> xdr2json_lib \<Rightarrow> 'v DB \<Rightarrow> SimulateTransactionRequest \<Rightarrow>
   SimulateTransactionResponse answer \<times> 'v DB" where
  "NewSimulateTransactionHandler E W C db request =
     (case IsValidFormat (str_Format request) of
        Some err \<Rightarrow> (sim_error 0 err, db)
      | None \<Rightarrow>
     (case se_UnmarshalEnvelope W (str_Transaction request) of
        Inl (Panic m) \<Rightarrow> (Inl (HPanic m), db)
      | Inl (Err _) \<Rightarrow> (sim_error 0 ''Could not unmarshal transaction'', db)
      | Inr txEnvelope \<Rightarrow>
     (case env_Operations txEnvelope of
        [(op, opSource)] \<Rightarrow>
          (case validateAuthMode op (Some (str_AuthMode request)) of
             Inl (Panic m) \<Rightarrow> (Inl (HPanic m), db)
           | Inl (Err m) \<Rightarrow> (sim_error 0 m, db)
           | Inr authMode \<Rightarrow>
          (case sim_footprint W op txEnvelope of
             Inl m \<Rightarrow> (sim_error 0 m, db)
           | Inr (Inl p) \<Rightarrow> (Inl p, db)
           | Inr (Inr footprint) \<Rightarrow>
          (case getLatestLedgerSequence E db of (latest, db1) \<Rightarrow>
             (or_error 0 latest (\<lambda>latestLedger.
              or_error latestLedger (getBucketListSizeAndProtocolVersion E db1 latestLedger)
                (\<lambda>(bucketListSize, protocolVersion).
              or_error latestLedger (se_getter W
                \<lparr>gp_BucketListSize = bucketListSize,
                 gp_SourceAccount = (case opSource of Some a \<Rightarrow> a | None \<Rightarrow> env_SourceAccount txEnvelope),
                 gp_OperationBody = op, gp_Footprint = footprint,
                 gp_ResourceConfig = (case str_ResourceConfig request of
                     Some c \<Rightarrow> c | None \<Rightarrow> DefaultResourceConfig),
                 gp_AuthMode = authMode, gp_ProtocolVersion = protocolVersion,
                 gp_Snapshot = SnapshotSourceGet (se_snapshot W)
                   (GetLedgerEntries (se_entry W) (NewLedgerEntryAtGetter (se_coreClient W) latestLedger)),
                 gp_LedgerSeq = latestLedger\<rparr>) (\<lambda>result.
              or_error latestLedger (formatResponse (se_change W) C result (str_Format request) latestLedger) Inr))),
              db1))))
      | _ \<Rightarrow> (sim_error 0 ''Transaction contains more than one operation'', db))))"

subsection \<open>Properties\<close>

lemma validated_auth_mode:
  assumes "validateAuthMode op (Some m) = Inr m'" and "ob_Type op = InvokeHostFunction"
  shows "\<exists>k. auth_mode_number m' = Some k \<and> (k = 0 \<or> ob_AuthCount op = 0)"
  using assms
  by (auto simp: validateAuthMode_def auth_mode_number_def AuthModeEnforce_def AuthModeRecord_def
      AuthModeRecordAllowNonroot_def Let_def split: if_splits)


definition example_op :: op_body where
  "example_op = \<lparr>ob_Type = InvokeHostFunction, ob_AuthCount = 2, ob_MarshalBinary = Inr ''op'',
     ob_InvokeMarshalBinary = Inr ''call''\<rparr>"

definition example_params :: Parameters where
  "example_params = \<lparr>pm_SourceAccount = Inr ''account'', pm_OpBody = example_op, pm_Footprint = Inr '''',
     pm_NetworkPassphrase = ''test'', pm_Snapshot = (\<lambda>_. Inr None), pm_LedgerSeq = 7, pm_BucketListSize = 100,
     pm_ResourceConfig = DefaultResourceConfig, pm_EnableDebug = False, pm_AuthMode = ''enforce'',
     pm_ProtocolVersion = 22\<rparr>"

definition example_preflight :: Preflight where
  "example_preflight = \<lparr>pf_Error = '''', pf_Events = [], pf_TransactionData = ''data'', pf_MinFee = 10,
     pf_Result = ''val'', pf_Auth = [], pf_CPUInstructions = 1, pf_MemoryBytes = 1,
     pf_PreRestoreTransactionData = '''', pf_PreRestoreMinFee = 0, pf_LedgerEntryDiff = []\<rparr>"

text \<open>A library that answers the mode as the fee.\<close>

definition example_lib :: preflight_lib where
  "example_lib = \<lparr>preflight_footprint_ttl_op = (\<lambda>_ _ _ _. Inr example_preflight),
     preflight_invoke_hf_op = (\<lambda>_ _ _ _ _ _ k. Inr (example_preflight\<lparr>pf_MinFee := uint k\<rparr>))\<rparr>"


text \<open>In the JSON format a state change never carries the entry after the transaction: of an
  updated entry the new value stands in the field of the old one, of a created entry too.\<close>

theorem json_change_loses_before:
  assumes "LedgerEntryChangeFromXDRDiff D C diff FormatJSON = Inr c"
  shows "lec_AfterJSON c = '''' \<and>
    (xd_After diff \<noteq> [] \<longrightarrow> ConvertBytes C ''LedgerEntry'' (xd_After diff) = Inr (lec_BeforeJSON c))"
  using assms
  by (auto simp: LedgerEntryChangeFromXDRDiff_def AddLedgerEntryChangeJSON_def zero_LedgerEntryChange_def
      bind_res_Inr_iff Let_def split: if_splits option.splits)

definition example_change :: change_pkg where
  "example_change = \<lparr>cp_EntryKey = (\<lambda>_. Inr (Inr ''key'', Inr ''a2V5''))\<rparr>"

definition echo_json :: xdr2json_lib where
  "echo_json xdrTypeName field = (field, [])"

theorem json_change_loses_before_witness:
  "\<exists>c. LedgerEntryChangeFromXDRDiff example_change echo_json \<lparr>xd_Before = ''old'', xd_After = ''new''\<rparr> FormatJSON = Inr c \<and>
     lec_Type c = LedgerEntryChangeTypeUpdated \<and> lec_BeforeJSON c = ''new'' \<and> lec_AfterJSON c = ''''"
proof -
  have v: "IsValidFormat FormatJSON = None" by (simp add: IsValidFormat_None)
  obtain c where c: "LedgerEntryChangeFromXDRDiff example_change echo_json
      \<lparr>xd_Before = ''old'', xd_After = ''new''\<rparr> FormatJSON = Inr c" "lec_Type c = LedgerEntryChangeTypeUpdated"
    by (simp add: LedgerEntryChangeFromXDRDiff_def AddLedgerEntryChangeJSON_def v Let_def
        example_change_def echo_json_def ConvertInterface_def ConvertBytes_def convertAnyBytes_def
        zero_LedgerEntryChange_def)
  with json_change_loses_before [OF c(1)] show ?thesis
    by (auto simp: ConvertBytes_def convertAnyBytes_def echo_json_def)
qed

text \<open>An envelope as the codec builds it: only a plain transaction has the \<^verbatim>\<open>V1\<close> arm, and only
  version 1 of its extension carries Soroban data.\<close>

definition envelope_wf :: "envelope \<Rightarrow> bool" where
  "envelope_wf env \<longleftrightarrow> (env_IsTx env \<longleftrightarrow> env_V1 env \<noteq> None) \<and>
     (\<forall>v fp. env_V1 env = Some (v, fp) \<longrightarrow> (v = 1 \<longleftrightarrow> fp \<noteq> None))"

lemma op_footprint_wf:
  assumes "envelope_wf env" and "\<nexists>fp. env_V1 env = Some (1, Some fp)"
  shows "op_footprint env = Inr (Inl nil_panic)"
  using assms
  by (cases "env_V1 env") (auto simp: op_footprint_def envelope_wf_def Let_def split: option.splits)

text \<open>C35: A transaction that extends or restores a footprint without Soroban data panics the handler
  of \<^verbatim>\<open>simulateTransaction\<close>; the error message written for this case is never sent.\<close>

theorem missing_footprint_panics:
  assumes "IsValidFormat (str_Format request) = None" and "str_AuthMode request = ''''"
    and "se_UnmarshalEnvelope W (str_Transaction request) = Inr env" and "envelope_wf env"
    and "env_Operations env = [(op, src)]" and "ob_Type op \<in> {ExtendFootprintTtl, RestoreFootprint}"
    and "\<nexists>fp. env_V1 env = Some (1, Some fp)"
  shows "NewSimulateTransactionHandler E W C db request = (Inl nil_panic, db)"
proof -
  have "validateAuthMode op (Some '''') = Inr ''''"
    using assms(6) by (auto simp: validateAuthMode_def)
  moreover have "sim_footprint W op env = Inr (Inl nil_panic)"
    using assms(6) op_footprint_wf [OF assms(4,7)] by (auto simp: sim_footprint_def)
  ultimately show ?thesis using assms(1,2,3,5) by (simp add: NewSimulateTransactionHandler_def)
qed

definition bare_envelope :: envelope where
  "bare_envelope = \<lparr>env_Operations = [(example_op\<lparr>ob_Type := RestoreFootprint\<rparr>, None)],
     env_SourceAccount = Inr ''account'', env_IsTx = True, env_V1 = Some (0, None)\<rparr>"

definition example_sim :: "(string, string) sim_env" where
  "example_sim = \<lparr>se_UnmarshalEnvelope = (\<lambda>_. Inr bare_envelope), se_EmptyFootprint = Inr '''',
     se_change = example_change, se_entry = plain_entries,
     se_snapshot = \<lparr>ss_UnmarshalKey = Inr, ss_MarshalEntry = Inr\<rparr>,
     se_coreClient = (\<lambda>l ks. Inr (map example_answer ks)),
     se_getter = (\<lambda>g. GetPreflight example_lib 0 (preflightParams ''test'' False g))\<rparr>"

theorem missing_footprint_panics_witness:
  "NewSimulateTransactionHandler calm_engine example_sim plain_json (OpenSQLiteDB three_ledgers)
     \<lparr>str_Transaction = ''tx'', str_ResourceConfig = None, str_AuthMode = '''', str_Format = ''''\<rparr> =
   (Inl nil_panic, OpenSQLiteDB three_ledgers)"
  by (rule missing_footprint_panics [where env = bare_envelope and src = None and
        op = "example_op\<lparr>ob_Type := RestoreFootprint\<rparr>"])
    (simp_all add: example_sim_def bare_envelope_def example_op_def envelope_wf_def IsValidFormat_None)

end
