(* ===== verification/PreflightPool.thy ===== *)
theory PreflightPool
  imports SimulateTransaction Limiters
begin

text \<open>
  \<^verbatim>\<open>preflight/pool.go\<close>: a fixed number of workers take preflight requests from a bounded channel
  and send each result back on the channel of the request. Callers, workers and \<^verbatim>\<open>Close\<close> run
  concurrently: the pool is a step relation over their program counters. A step is what happens
  between two operations on shared state. The metrics are left out, and so is a panic of the
  preflight library, which ends the process.
\<close>

subsection \<open>The measured getter of ledger entries\<close>

text \<open>\<^verbatim>\<open>metricsLedgerEntryGetterWrapper\<close> counts the keys and the milliseconds of the getter it wraps; both
  counters wrap around.\<close>

record metricsLedgerEntryGetterWrapper =
  mg_totalDurationMs :: u64
  mg_ledgerEntriesFetched :: u32

definition metrics_GetLedgerEntries ::
  "('k list \<Rightarrow> (('k, 'e) LedgerKeyAndEntry list \<times> u32) res) \<Rightarrow> nat \<Rightarrow> 'k list \<Rightarrow> metricsLedgerEntryGetterWrapper \<Rightarrow>
   (('k, 'e) LedgerKeyAndEntry list \<times> u32) res \<times> metricsLedgerEntryGetterWrapper" where
  "metrics_GetLedgerEntries getter elapsedMs keys m =
     (getter keys,
      m\<lparr>mg_totalDurationMs := mg_totalDurationMs m + of_nat elapsedMs,
        mg_ledgerEntriesFetched := mg_ledgerEntriesFetched m + of_nat (length keys)\<rparr>)"

text \<open>The wrapper keeps the contract of a getter, so a preflight sees the entries in request order.\<close>

lemma metrics_getter: "ledger_entry_getter getter \<Longrightarrow> ledger_entry_getter (\<lambda>keys. fst (metrics_GetLedgerEntries getter ms keys m))"
  by (simp add: metrics_GetLedgerEntries_def)

subsection \<open>The pool\<close>

datatype 'r client_pc =
  GetCalled | GetChecked | GetWaiting | GetAnswered 'r | GetFailed go_error | GetCrashed

datatype ('p, 'r) worker_pc = WIdle | WRunning nat 'p | WSending nat 'r | WExited

text \<open>The buffer of \<^verbatim>\<open>requestChan\<close> holds the number of a caller, in place of its result channel, and
  the parameters.\<close>

record ('p, 'r) WorkerPool =
  wp_capacity :: nat
  wp_isClosed :: bool
  wp_chanClosed :: bool
  wp_requestChan :: "(nat \<times> 'p) list"
  wp_errorFullCounter :: nat
  wp_params :: "'p list"
  wp_clients :: "'r client_pc list"
  wp_workers :: "('p, 'r) worker_pc list"

definition NewPreflightWorkerPool :: "nat \<Rightarrow> nat \<Rightarrow> ('p, 'r) WorkerPool" where
  "NewPreflightWorkerPool workerCount jobQueueCapacity =
     \<lparr>wp_capacity = jobQueueCapacity, wp_isClosed = False, wp_chanClosed = False, wp_requestChan = [],
      wp_errorFullCounter = 0, wp_params = [], wp_clients = [], wp_workers = replicate workerCount WIdle\<rparr>"

definition ErrPreflightQueueFull :: go_error where
  "ErrPreflightQueueFull = Err ''preflight queue full''"

definition set_client :: "nat \<Rightarrow> 'r client_pc \<Rightarrow> ('p, 'r) WorkerPool \<Rightarrow> ('p, 'r) WorkerPool" where
  "set_client i c s = s\<lparr>wp_clients := (wp_clients s)[i := c]\<rparr>"

definition set_worker :: "nat \<Rightarrow> ('p, 'r) worker_pc \<Rightarrow> ('p, 'r) WorkerPool \<Rightarrow> ('p, 'r) WorkerPool" where
  "set_worker w x s = s\<lparr>wp_workers := (wp_workers s)[w := x]\<rparr>"

definition at_client :: "('p, 'r) WorkerPool \<Rightarrow> nat \<Rightarrow> 'r client_pc \<Rightarrow> bool" where
  "at_client s i c \<longleftrightarrow> i < length (wp_clients s) \<and> wp_clients s ! i = c"

definition at_worker :: "('p, 'r) WorkerPool \<Rightarrow> nat \<Rightarrow> ('p, 'r) worker_pc \<Rightarrow> bool" where
  "at_worker s w x \<longleftrightarrow> w < length (wp_workers s) \<and> wp_workers s ! w = x"

text \<open>
  \<^verbatim>\<open>WorkerPool.GetPreflight\<close>: it reads the closed flag, then selects. A send is ready when the
  buffer has room or a worker is receiving; on a closed channel it panics. Without a ready case
  the queue is full.
\<close>

inductive client_step :: "('p, 'r) WorkerPool \<Rightarrow> ('p, 'r) WorkerPool \<Rightarrow> bool" where
  call: "client_step s (s\<lparr>wp_params := wp_params s @ [p], wp_clients := wp_clients s @ [GetCalled]\<rparr>)"
| closed: "at_client s i GetCalled \<Longrightarrow> wp_isClosed s \<Longrightarrow>
    client_step s (set_client i (GetFailed (Err ''preflight worker pool is closed'')) s)"
| checked: "at_client s i GetCalled \<Longrightarrow> \<not> wp_isClosed s \<Longrightarrow> client_step s (set_client i GetChecked s)"
| enqueue: "at_client s i GetChecked \<Longrightarrow> \<not> wp_chanClosed s \<Longrightarrow>
    length (wp_requestChan s) < wp_capacity s \<Longrightarrow>
    client_step s (set_client i GetWaiting
      (s\<lparr>wp_requestChan := wp_requestChan s @ [(i, wp_params s ! i)]\<rparr>))"
| handoff: "at_client s i GetChecked \<Longrightarrow> \<not> wp_chanClosed s \<Longrightarrow> wp_requestChan s = [] \<Longrightarrow>
    at_worker s w WIdle \<Longrightarrow>
    client_step s (set_client i GetWaiting (set_worker w (WRunning i (wp_params s ! i)) s))"
| crash: "at_client s i GetChecked \<Longrightarrow> wp_chanClosed s \<Longrightarrow> client_step s (set_client i GetCrashed s)"
| cancelled: "at_client s i GetChecked \<Longrightarrow> client_step s (set_client i (GetFailed ctxErr) s)"
| full: "at_client s i GetChecked \<Longrightarrow> \<not> wp_chanClosed s \<Longrightarrow>
    \<not> length (wp_requestChan s) < wp_capacity s \<Longrightarrow>
    client_step s (set_client i (GetFailed ErrPreflightQueueFull)
      (s\<lparr>wp_errorFullCounter := Suc (wp_errorFullCounter s)\<rparr>))"

text \<open>\<^verbatim>\<open>WorkerPool.work\<close>, where \<open>work\<close> is \<^verbatim>\<open>GetPreflight\<close> of the parameters. The result channel is not
  buffered: the result is handed to the waiting caller.\<close>

inductive worker_step :: "('p \<Rightarrow> 'r) \<Rightarrow> ('p, 'r) WorkerPool \<Rightarrow> ('p, 'r) WorkerPool \<Rightarrow> bool" for work where
  take: "at_worker s w WIdle \<Longrightarrow> wp_requestChan s = (i, p) # rest \<Longrightarrow>
    worker_step work s (set_worker w (WRunning i p) (s\<lparr>wp_requestChan := rest\<rparr>))"
| finish: "at_worker s w (WRunning i p) \<Longrightarrow> worker_step work s (set_worker w (WSending i (work p)) s)"
| deliver: "at_worker s w (WSending i r) \<Longrightarrow> at_client s i GetWaiting \<Longrightarrow>
    worker_step work s (set_client i (GetAnswered r) (set_worker w WIdle s))"
| exit: "at_worker s w WIdle \<Longrightarrow> wp_requestChan s = [] \<Longrightarrow> wp_chanClosed s \<Longrightarrow>
    worker_step work s (set_worker w WExited s)"

text \<open>\<^verbatim>\<open>WorkerPool.Close\<close>: only the first call passes the compare-and-swap and closes the channel.\<close>

inductive close_step :: "('p, 'r) WorkerPool \<Rightarrow> ('p, 'r) WorkerPool \<Rightarrow> bool" where
  mark: "\<not> wp_isClosed s \<Longrightarrow> close_step s (s\<lparr>wp_isClosed := True\<rparr>)"
| close: "wp_isClosed s \<Longrightarrow> \<not> wp_chanClosed s \<Longrightarrow> close_step s (s\<lparr>wp_chanClosed := True\<rparr>)"

definition pool_step :: "('p \<Rightarrow> 'r) \<Rightarrow> ('p, 'r) WorkerPool \<Rightarrow> ('p, 'r) WorkerPool \<Rightarrow> bool" where
  "pool_step work s s' \<longleftrightarrow> client_step s s' \<or> worker_step work s s' \<or> close_step s s'"

lemma pool_stepI:
  "client_step s s' \<Longrightarrow> pool_step work s s'" "worker_step work s s' \<Longrightarrow> pool_step work s s'"
  "close_step s s' \<Longrightarrow> pool_step work s s'"
  by (simp_all add: pool_step_def)

subsection \<open>The invariant\<close>

text \<open>The jobs of a caller in the queue and at the workers.\<close>

fun holds :: "nat \<Rightarrow> ('p, 'r) worker_pc \<Rightarrow> bool" where
  "holds i (WRunning j p) = (j = i)"
| "holds i (WSending j r) = (j = i)"
| "holds i _ = False"

definition jobs :: "('p, 'r) WorkerPool \<Rightarrow> nat \<Rightarrow> nat" where
  "jobs s i = how_many (\<lambda>x. fst x = i) (wp_requestChan s) + how_many (holds i) (wp_workers s)"

fun own_worker :: "('p \<Rightarrow> 'r) \<Rightarrow> 'p list \<Rightarrow> ('p, 'r) worker_pc \<Rightarrow> bool" where
  "own_worker work ps (WRunning i p) = (i < length ps \<and> p = ps ! i)"
| "own_worker work ps (WSending i r) = (i < length ps \<and> r = work (ps ! i))"
| "own_worker work ps _ = True"

definition own_request :: "'p list \<Rightarrow> nat \<times> 'p \<Rightarrow> bool" where
  "own_request ps x \<longleftrightarrow> fst x < length ps \<and> snd x = ps ! fst x"

definition own_data :: "('p \<Rightarrow> 'r) \<Rightarrow> ('p, 'r) WorkerPool \<Rightarrow> bool" where
  "own_data work s \<longleftrightarrow>
     list_all (own_request (wp_params s)) (wp_requestChan s) \<and>
     list_all (own_worker work (wp_params s)) (wp_workers s) \<and>
     (\<forall>i r. at_client s i (GetAnswered r) \<longrightarrow> r = work (wp_params s ! i))"

definition pool_inv :: "('p \<Rightarrow> 'r) \<Rightarrow> ('p, 'r) WorkerPool \<Rightarrow> bool" where
  "pool_inv work s \<longleftrightarrow>
     length (wp_params s) = length (wp_clients s) \<and>
     length (wp_requestChan s) \<le> wp_capacity s \<and>
     (\<forall>i. jobs s i = of_bool (at_client s i GetWaiting)) \<and> own_data work s \<and>
     (WExited \<in> set (wp_workers s) \<longrightarrow> wp_chanClosed s \<and> wp_requestChan s = [])"

subsection \<open>Facts about the accessors\<close>

lemma at_client_simps [simp]:
  "at_client (set_client i c s) j d \<longleftrightarrow> (if i = j then i < length (wp_clients s) \<and> c = d else at_client s j d)"
  "at_client (set_worker w x s) j d \<longleftrightarrow> at_client s j d"
  "at_client (s\<lparr>wp_requestChan := q\<rparr>) j d \<longleftrightarrow> at_client s j d"
  "at_client (s\<lparr>wp_errorFullCounter := n\<rparr>) j d \<longleftrightarrow> at_client s j d"
  "at_client (s\<lparr>wp_isClosed := b\<rparr>) j d \<longleftrightarrow> at_client s j d"
  "at_client (s\<lparr>wp_chanClosed := b\<rparr>) j d \<longleftrightarrow> at_client s j d"
  "at_client (s\<lparr>wp_params := ps, wp_clients := wp_clients s @ [c]\<rparr>) j d \<longleftrightarrow>
     (if j = length (wp_clients s) then c = d else at_client s j d)"
  by (auto simp: at_client_def set_client_def set_worker_def nth_append)

lemma at_client_is: "at_client s i c \<Longrightarrow> at_client s i d \<longleftrightarrow> c = d"
  and at_client_less: "at_client s i c \<Longrightarrow> i < length (wp_clients s)"
  by (auto simp: at_client_def)

lemma pool_fields [simp]:
  "wp_params (set_client i c s) = wp_params s" "wp_params (set_worker w x s) = wp_params s"
  "length (wp_clients (set_client i c s)) = length (wp_clients s)" "wp_clients (set_worker w x s) = wp_clients s"
  "wp_requestChan (set_client i c s) = wp_requestChan s" "wp_requestChan (set_worker w x s) = wp_requestChan s"
  "wp_capacity (set_client i c s) = wp_capacity s" "wp_capacity (set_worker w x s) = wp_capacity s"
  "wp_chanClosed (set_client i c s) = wp_chanClosed s" "wp_chanClosed (set_worker w x s) = wp_chanClosed s"
  "wp_isClosed (set_client i c s) = wp_isClosed s" "wp_isClosed (set_worker w x s) = wp_isClosed s"
  "wp_workers (set_client i c s) = wp_workers s" "length (wp_workers (set_worker w x s)) = length (wp_workers s)"
  by (simp_all add: set_client_def set_worker_def)

lemma list_all_update: "list_all P xs \<Longrightarrow> P x \<Longrightarrow> list_all P (xs[i := x])"
  by (auto simp: list_all_iff dest: subsetD [OF set_update_subset_insert])

lemma jobs_simps [simp]:
  "jobs (set_client j c s) i = jobs s i"
  "jobs (s\<lparr>wp_errorFullCounter := n\<rparr>) i = jobs s i"
  "jobs (s\<lparr>wp_isClosed := b\<rparr>) i = jobs s i"
  "jobs (s\<lparr>wp_chanClosed := b\<rparr>) i = jobs s i"
  "jobs (s\<lparr>wp_params := ps, wp_clients := cs\<rparr>) i = jobs s i"
  "jobs (s\<lparr>wp_requestChan := wp_requestChan s @ [(j, p)]\<rparr>) i = jobs s i + of_bool (j = i)"
  by (simp_all add: jobs_def set_client_def)

lemma jobs_set_worker:
  "at_worker s w x \<Longrightarrow> jobs (set_worker w y s) i + of_bool (holds i x) = jobs s i + of_bool (holds i y)"
  using how_many_update [of w "wp_workers s" "holds i" y] by (simp add: jobs_def set_worker_def at_worker_def)

lemma jobs_take:
  "wp_requestChan s = (j, p) # rest \<Longrightarrow> jobs s i = jobs (s\<lparr>wp_requestChan := rest\<rparr>) i + of_bool (j = i)"
  by (simp add: jobs_def how_many_def)

lemma at_worker_chan [simp]: "at_worker (s\<lparr>wp_requestChan := q\<rparr>) w x \<longleftrightarrow> at_worker s w x"
  by (simp add: at_worker_def)

subsection \<open>The invariant is preserved\<close>

lemma own_data_set_client:
  assumes "own_data work s" and "\<And>r. c = GetAnswered r \<Longrightarrow> r = work (wp_params s ! i)"
  shows "own_data work (set_client i c s)"
  using assms by (auto simp: own_data_def)

lemma own_data_set_worker:
  "own_data work s \<Longrightarrow> own_worker work (wp_params s) x \<Longrightarrow> own_data work (set_worker w x s)"
  by (auto simp: own_data_def set_worker_def at_client_def intro: list_all_update)

lemma own_data_at: "own_data work s \<Longrightarrow> at_worker s w x \<Longrightarrow> own_worker work (wp_params s) x"
  by (auto simp: own_data_def at_worker_def list_all_length)

lemma own_data_chan:
  "own_data work s \<Longrightarrow> list_all (own_request (wp_params s)) q \<Longrightarrow> own_data work (s\<lparr>wp_requestChan := q\<rparr>)"
  by (auto simp: own_data_def)

lemma own_data_chan_cong [simp]:
  "own_data work (s\<lparr>wp_errorFullCounter := n\<rparr>) = own_data work s"
  "own_data work (s\<lparr>wp_isClosed := b\<rparr>) = own_data work s"
  "own_data work (s\<lparr>wp_chanClosed := b\<rparr>) = own_data work s"
  by (auto simp: own_data_def)

lemma own_worker_call: "own_worker work ps x \<Longrightarrow> own_worker work (ps @ [p]) x"
  by (cases x) (auto simp: nth_append)

lemma own_data_call:
  assumes "own_data work s" and "length (wp_params s) = length (wp_clients s)"
  shows "own_data work (s\<lparr>wp_params := wp_params s @ [p], wp_clients := wp_clients s @ [GetCalled]\<rparr>)"
  using assms
  by (auto simp: own_data_def own_request_def list_all_iff nth_append own_worker_call at_client_def)

lemma pool_invI:
  assumes "length (wp_params s) = length (wp_clients s)" "length (wp_requestChan s) \<le> wp_capacity s"
    "\<And>i. jobs s i = of_bool (at_client s i GetWaiting)" "own_data work s"
    "WExited \<in> set (wp_workers s) \<Longrightarrow> wp_chanClosed s \<and> wp_requestChan s = []"
  shows "pool_inv work s"
  using assms by (simp add: pool_inv_def)

lemma move_client_inv:
  assumes "pool_inv work s" and "at_client s i c" and "c \<noteq> GetWaiting" and "d \<noteq> GetWaiting"
    and "\<And>r. d \<noteq> GetAnswered r"
  shows "pool_inv work (set_client i d s)"
  using assms by (intro pool_invI) (auto simp: pool_inv_def at_client_is intro!: own_data_set_client)

lemma exited_after:
  "WExited \<in> set (wp_workers (set_worker w x s)) \<Longrightarrow> x \<noteq> WExited \<Longrightarrow> WExited \<in> set (wp_workers s)"
  by (auto simp: set_worker_def dest: subsetD [OF set_update_subset_insert])

lemma client_step_inv:
  assumes "client_step s s'" and "pool_inv work s"
  shows "pool_inv work s'"
  using assms
proof (induction rule: client_step.induct)
  case (call s p)
  then show ?case using at_client_less [of s "length (wp_clients s)"]
    by (intro pool_invI) (auto simp: pool_inv_def own_data_call)
next
  case (enqueue s i)
  let ?s = "s\<lparr>wp_requestChan := wp_requestChan s @ [(i, wp_params s ! i)]\<rparr>"
  have "own_request (wp_params s) (i, wp_params s ! i)"
    using enqueue at_client_less [OF enqueue(1)] by (simp add: own_request_def pool_inv_def)
  then have "own_data work ?s" using enqueue by (intro own_data_chan) (auto simp: pool_inv_def own_data_def)
  then have "own_data work (set_client i GetWaiting ?s)" by (rule own_data_set_client) simp
  then show ?case
    using enqueue at_client_is [OF enqueue(1)] at_client_less [OF enqueue(1)]
    by (intro pool_invI) (auto simp: pool_inv_def)
next
  case (handoff s i w)
  let ?s = "set_worker w (WRunning i (wp_params s ! i)) s"
  have "own_data work ?s"
    using handoff at_client_less [OF handoff(1)] by (auto simp: pool_inv_def intro!: own_data_set_worker)
  then have "own_data work (set_client i GetWaiting ?s)" by (rule own_data_set_client) simp
  moreover have "jobs ?s j = jobs s j + of_bool (i = j)" for j
    using jobs_set_worker [OF handoff(4), of "WRunning i (wp_params s ! i)" j] by simp
  ultimately show ?case
    using handoff at_client_is [OF handoff(1)] at_client_less [OF handoff(1)]
    by (intro pool_invI) (auto simp: pool_inv_def dest!: exited_after)
next
  case (full s i)
  then show ?case by (intro move_client_inv) (auto simp: pool_inv_def)
qed (erule (1) move_client_inv, simp_all)+

lemma worker_step_inv:
  assumes "worker_step work s s'" and "pool_inv work s"
  shows "pool_inv work s'"
  using assms
proof (induction rule: worker_step.induct)
  case (take s w i p rest)
  let ?s = "s\<lparr>wp_requestChan := rest\<rparr>"
  have "own_worker work (wp_params s) (WRunning i p)" "own_data work ?s"
    using take by (auto simp: pool_inv_def own_data_def own_request_def)
  then have "own_data work (set_worker w (WRunning i p) ?s)" by (simp add: own_data_set_worker)
  moreover have "jobs (set_worker w (WRunning i p) ?s) j = jobs s j" for j
    using jobs_set_worker [of ?s w WIdle "WRunning i p" j] take(1) jobs_take [OF take(2), of j] by simp
  ultimately show ?case
    using take by (intro pool_invI) (auto simp: pool_inv_def dest!: exited_after)
next
  case (finish s w i p)
  have "own_worker work (wp_params s) (WRunning i p)"
    using finish by (auto simp: pool_inv_def dest: own_data_at)
  then have "own_data work (set_worker w (WSending i (work p)) s)"
    using finish by (auto simp: pool_inv_def intro!: own_data_set_worker)
  moreover have "jobs (set_worker w (WSending i (work p)) s) j = jobs s j" for j
    using jobs_set_worker [OF finish(1), of "WSending i (work p)" j] by simp
  ultimately show ?case
    using finish by (intro pool_invI) (auto simp: pool_inv_def dest!: exited_after)
next
  case (deliver s w i r)
  have own: "own_worker work (wp_params s) (WSending i r)"
    using deliver by (auto simp: pool_inv_def dest: own_data_at)
  have "own_data work (set_worker w WIdle s)"
    using deliver by (auto simp: pool_inv_def intro!: own_data_set_worker)
  moreover have "jobs (set_worker w WIdle s) j + of_bool (i = j) = jobs s j" for j
    using jobs_set_worker [OF deliver(1), of WIdle j] by simp
  moreover have "jobs (set_worker w WIdle s) j = of_bool (i \<noteq> j \<and> at_client s j GetWaiting)" for j
    using calculation(2) [of j] deliver at_client_is [OF deliver(2)] by (auto simp: pool_inv_def split: if_splits)
  ultimately show ?case
    using deliver own
    by (intro pool_invI) (auto simp: pool_inv_def dest!: exited_after intro!: own_data_set_client)
next
  case (exit s w)
  have "jobs (set_worker w WExited s) j = jobs s j" for j
    using jobs_set_worker [OF exit(1), of WExited j] by simp
  then show ?case using exit by (intro pool_invI) (auto simp: pool_inv_def own_data_set_worker)
qed

lemma close_step_inv: "close_step s s' \<Longrightarrow> pool_inv work s \<Longrightarrow> pool_inv work s'"
  by (auto simp: pool_inv_def elim!: close_step.cases)

lemma pool_step_inv: "pool_step work s s' \<Longrightarrow> pool_inv work s \<Longrightarrow> pool_inv work s'"
  by (auto simp: pool_step_def intro: client_step_inv worker_step_inv close_step_inv)

lemma new_pool_inv: "pool_inv work (NewPreflightWorkerPool n c)"
  by (auto simp: pool_inv_def NewPreflightWorkerPool_def jobs_def own_data_def at_client_def how_many_def list_all_iff)

lemma pool_reachable_inv: "(pool_step work)\<^sup>*\<^sup>* (NewPreflightWorkerPool n c) s \<Longrightarrow> pool_inv work s"
  by (induction rule: rtranclp_induct) (auto intro: new_pool_inv pool_step_inv)

subsection \<open>Every accepted request is answered\<close>

fun worker_cost :: "('p, 'r) worker_pc \<Rightarrow> nat" where
  "worker_cost (WRunning i p) = 3"
| "worker_cost (WSending i r) = 2"
| "worker_cost WIdle = 1"
| "worker_cost WExited = 0"

definition pool_cost :: "('p, 'r) WorkerPool \<Rightarrow> nat" where
  "pool_cost s = 4 * length (wp_requestChan s) + sum_list (map worker_cost (wp_workers s))"

lemma pool_cost_simps [simp]: "pool_cost (set_client i c s) = pool_cost s"
  by (simp add: pool_cost_def)

lemma sum_list_map_update:
  "i < length xs \<Longrightarrow> sum_list (map f (xs[i := x])) + f (xs ! i) = sum_list (map f xs) + (f x :: nat)"
proof (induction xs arbitrary: i)
  case (Cons y ys)
  then show ?case by (cases i) auto
qed simp

lemma pool_cost_set_worker:
  "at_worker s w x \<Longrightarrow> pool_cost (set_worker w y s) + worker_cost x = pool_cost s + worker_cost y"
  using sum_list_map_update [of w "wp_workers s" worker_cost y]
  by (simp add: pool_cost_def set_worker_def at_worker_def)

lemma worker_step_cost: "worker_step work s s' \<Longrightarrow> pool_cost s' < pool_cost s"
proof (induction rule: worker_step.induct)
  case (take s w i p rest)
  then show ?case
    using pool_cost_set_worker [of "s\<lparr>wp_requestChan := rest\<rparr>" w WIdle "WRunning i p"]
    by (simp add: pool_cost_def)
next
  case (finish s w i p)
  then show ?case using pool_cost_set_worker [of s w "WRunning i p" "WSending i (work p)"] by simp
next
  case (deliver s w i r)
  then show ?case using pool_cost_set_worker [of s w "WSending i r" WIdle] by simp
next
  case (exit s w)
  then show ?case using pool_cost_set_worker [of s w WIdle WExited] by simp
qed

lemma worker_run_cost: "(worker_step work ^^ k) s s' \<Longrightarrow> k + pool_cost s' \<le> pool_cost s"
proof (induction k arbitrary: s')
  case (Suc k)
  then obtain t where "(worker_step work ^^ k) s t" "worker_step work t s'" by auto
  then show ?case using Suc.IH [of t] worker_step_cost [of work t s'] by simp
qed simp

lemma waiting_has_job:
  assumes "pool_inv work s" and "at_client s i GetWaiting"
  shows "wp_requestChan s \<noteq> [] \<or> (\<exists>w x. at_worker s w x \<and> holds i x)"
proof (rule ccontr)
  assume *: "\<not> ?thesis"
  then have "how_many (holds i) (wp_workers s) = 0"
    by (intro how_many_none) (auto simp: in_set_conv_nth at_worker_def)
  then have "jobs s i = 0" using * by (simp add: jobs_def)
  then show False using assms by (simp add: pool_inv_def)
qed

lemma holding_worker_waited:
  assumes "pool_inv work s" and "at_worker s w x" and "holds i x"
  shows "at_client s i GetWaiting"
proof -
  have "0 < jobs s i"
    using assms(2,3) by (auto simp: jobs_def how_many_def at_worker_def filter_empty_conv)
  then show ?thesis using assms(1) by (simp add: pool_inv_def split: if_splits)
qed

lemma busy_worker_steps:
  assumes "pool_inv work s" and "at_worker s w x" and "holds i x"
  shows "\<exists>s'. worker_step work s s'"
proof (cases x)
  case (WSending j r)
  then have "at_client s j GetWaiting" using assms holding_worker_waited by fastforce
  then show ?thesis using assms(2) WSending by (blast intro: worker_step.deliver)
next
  case (WRunning j p)
  then show ?thesis using assms(2) by (blast intro: worker_step.finish)
qed (use assms in auto)

lemma waiting_worker_steps:
  assumes inv: "pool_inv work s" and wait: "at_client s i GetWaiting" and some: "wp_workers s \<noteq> []"
  shows "\<exists>s'. worker_step work s s'"
proof (cases "\<exists>w x j. at_worker s w x \<and> holds j x")
  case True
  then show ?thesis using inv busy_worker_steps by blast
next
  case False
  then obtain j p rest where queue: "wp_requestChan s = (j, p) # rest"
    using waiting_has_job [OF inv wait] by (cases "wp_requestChan s") auto
  then have "WExited \<notin> set (wp_workers s)" using inv by (auto simp: pool_inv_def)
  moreover have first: "at_worker s 0 (wp_workers s ! 0)" using some by (simp add: at_worker_def)
  moreover have "wp_workers s ! 0 \<in> set (wp_workers s)" using some by simp
  ultimately have "wp_workers s ! 0 = WIdle" using False by (cases "wp_workers s ! 0") fastforce+
  then show ?thesis using queue first by (metis worker_step.take)
qed

lemma worker_step_client:
  assumes "worker_step work s s'"
  shows "wp_params s' = wp_params s \<and> length (wp_workers s') = length (wp_workers s) \<and>
    (at_client s i GetWaiting \<longrightarrow> at_client s' i GetWaiting \<or> (\<exists>r. at_client s' i (GetAnswered r))) \<and>
    (at_client s i (GetAnswered q) \<longrightarrow> at_client s' i (GetAnswered q))"
  using assms by induction (auto simp: at_client_is at_client_less)

lemma worker_run_client:
  assumes "(worker_step work ^^ k) s s'" and "at_client s i GetWaiting"
  shows "wp_params s' = wp_params s \<and> length (wp_workers s') = length (wp_workers s) \<and>
    (at_client s' i GetWaiting \<or> (\<exists>r. at_client s' i (GetAnswered r)))"
  using assms(1)
proof (induction k arbitrary: s')
  case (Suc k)
  then obtain t where "(worker_step work ^^ k) s t" "worker_step work t s'" by auto
  then show ?case using Suc.IH [of t] worker_step_client [of work t s' i] by fastforce
qed (use assms(2) in simp)

lemma worker_run_inv: "(worker_step work ^^ k) s s' \<Longrightarrow> pool_inv work s \<Longrightarrow> pool_inv work s'"
  by (induction k arbitrary: s') (auto intro: worker_step_inv)

lemma pool_step_sizes:
  assumes "pool_step work s s'"
  shows "length (wp_workers s') = length (wp_workers s) \<and> wp_capacity s' = wp_capacity s"
  using assms unfolding pool_step_def
  by (auto elim!: client_step.cases worker_step.cases close_step.cases)

lemma pool_reachable_sizes:
  assumes "(pool_step work)\<^sup>*\<^sup>* (NewPreflightWorkerPool n c) s"
  shows "length (wp_workers s) = n \<and> wp_capacity s = c"
  using assms
  by (induction rule: rtranclp_induct) (auto simp: NewPreflightWorkerPool_def dest: pool_step_sizes)

lemma pool_cost_bound: "pool_cost s \<le> 4 * length (wp_requestChan s) + 3 * length (wp_workers s)"
proof -
  have "worker_cost x \<le> 3" for x :: "('a, 'b) worker_pc" by (cases x) auto
  then have "sum_list (map worker_cost (wp_workers s)) \<le> sum_list (map (\<lambda>_. 3) (wp_workers s))"
    by (intro sum_list_mono) auto
  then show ?thesis by (simp add: pool_cost_def sum_list_triv)
qed

text \<open>C36: In every state the pool can reach, whatever the interleaving of callers, workers and
  \<^verbatim>\<open>Close\<close>, the request queue is within its capacity, a waiting caller has exactly one job and no
  other caller has any, and a caller that got an answer got the result of its own parameters.\<close>

theorem preflight_pool_safe:
  assumes "(pool_step work)\<^sup>*\<^sup>* (NewPreflightWorkerPool workerCount jobQueueCapacity) s"
  shows "length (wp_requestChan s) \<le> jobQueueCapacity \<and>
    jobs s i = of_bool (at_client s i GetWaiting) \<and>
    (at_client s i (GetAnswered r) \<longrightarrow> r = work (wp_params s ! i))"
  using pool_reachable_inv [OF assms] pool_reachable_sizes [OF assms] by (auto simp: pool_inv_def own_data_def)

definition one_call :: "bool \<Rightarrow> 'r client_pc \<Rightarrow> (nat \<times> Parameters) list \<Rightarrow> (Parameters, 'r) worker_pc \<Rightarrow>
    (Parameters, 'r) WorkerPool" where
  "one_call b c q w = \<lparr>wp_capacity = 1, wp_isClosed = b, wp_chanClosed = b, wp_requestChan = q,
     wp_errorFullCounter = 0, wp_params = [example_params], wp_clients = [c], wp_workers = [w]\<rparr>"

lemma one_call_queued:
  "(pool_step work)\<^sup>*\<^sup>* (NewPreflightWorkerPool 1 1) (one_call False GetWaiting [(0, example_params)] WIdle)"
proof -
  have "client_step (NewPreflightWorkerPool 1 1) (one_call False GetCalled [] WIdle)"
    using client_step.call [of "NewPreflightWorkerPool 1 1" example_params]
    by (simp add: NewPreflightWorkerPool_def one_call_def)
  moreover have "client_step (one_call False GetCalled [] WIdle) (one_call False GetChecked [] WIdle)"
    using client_step.checked [of "one_call False GetCalled [] WIdle" 0]
    by (simp add: one_call_def at_client_def set_client_def)
  moreover have "client_step (one_call False GetChecked [] WIdle) (one_call False GetWaiting [(0, example_params)] WIdle)"
    using client_step.enqueue [of "one_call False GetChecked [] WIdle" 0]
    by (simp add: one_call_def at_client_def set_client_def)
  ultimately show ?thesis
    by (meson pool_step_def rtranclp.rtrancl_into_rtrancl rtranclp.rtrancl_refl)
qed

lemma one_call_answered:
  "(worker_step work ^^ 3) (one_call False GetWaiting [(0, example_params)] WIdle)
     (one_call False (GetAnswered (work example_params)) [] WIdle)"
proof -
  let ?q = "[(0::nat, example_params)]"
  have "worker_step work (one_call False GetWaiting ?q WIdle) (one_call False GetWaiting [] (WRunning 0 example_params))"
    using worker_step.take [of "one_call False GetWaiting ?q WIdle" 0 0 example_params "[]"]
    by (simp add: one_call_def at_worker_def set_worker_def)
  moreover have "worker_step work (one_call False GetWaiting [] (WRunning 0 example_params))
      (one_call False GetWaiting [] (WSending 0 (work example_params)))"
    using worker_step.finish [of "one_call False GetWaiting [] (WRunning 0 example_params)" 0 0 example_params work]
    by (simp add: one_call_def at_worker_def set_worker_def)
  moreover have "worker_step work (one_call False GetWaiting [] (WSending 0 (work example_params)))
      (one_call False (GetAnswered (work example_params)) [] WIdle)"
    using worker_step.deliver [of "one_call False GetWaiting [] (WSending 0 (work example_params))" 0]
    by (simp add: one_call_def at_worker_def set_worker_def at_client_def set_client_def)
  ultimately show ?thesis by (auto simp: eval_nat_numeral)
qed

theorem preflight_pool_safe_witness:
  "jobs (one_call False GetWaiting [(0, example_params)] WIdle :: (Parameters, Preflight res) WorkerPool) 0 = 1"
  using preflight_pool_safe [OF one_call_queued, where i = 0] by (simp add: one_call_def at_client_def)

text \<open>The workers answer every accepted request, also after \<^verbatim>\<open>Close\<close>: from any reachable state of
  a pool with at least one worker, the workers take a bounded number of steps on their own, and
  when none can step any more, every caller that waited has the result of its parameters.\<close>

theorem preflight_pool_answers:
  assumes reach: "(pool_step work)\<^sup>*\<^sup>* (NewPreflightWorkerPool workerCount jobQueueCapacity) s"
    and workers: "0 < workerCount" and run: "(worker_step work ^^ k) s s'"
  shows "k \<le> 4 * jobQueueCapacity + 3 * workerCount \<and>
    ((\<forall>t. \<not> worker_step work s' t) \<and> at_client s i GetWaiting \<longrightarrow>
      at_client s' i (GetAnswered (work (wp_params s ! i))))"
proof (intro conjI impI)
  note inv = pool_reachable_inv [OF reach] and size = pool_reachable_sizes [OF reach]
  show "k \<le> 4 * jobQueueCapacity + 3 * workerCount"
    using worker_run_cost [OF run] pool_cost_bound [of s] inv size by (simp add: pool_inv_def)
  assume stuck: "(\<forall>t. \<not> worker_step work s' t) \<and> at_client s i GetWaiting"
  note inv' = worker_run_inv [OF run inv]
  have after: "wp_params s' = wp_params s" "wp_workers s' \<noteq> []"
    "at_client s' i GetWaiting \<or> (\<exists>r. at_client s' i (GetAnswered r))"
    using worker_run_client [OF run] stuck size workers by fastforce+
  then obtain r where "at_client s' i (GetAnswered r)" using waiting_worker_steps [OF inv'] stuck by blast
  then show "at_client s' i (GetAnswered (work (wp_params s ! i)))"
    using inv' after(1) by (auto simp: pool_inv_def own_data_def)
qed

theorem preflight_pool_answers_witness:
  "at_client (one_call False (GetAnswered (GetPreflight example_lib 0 example_params)) [] WIdle) 0
     (GetAnswered (GetPreflight example_lib 0 example_params))"
  using preflight_pool_answers [OF one_call_queued _ one_call_answered, where i = 0]
  by (auto simp: one_call_def at_client_def elim!: worker_step.cases)

text \<open>\<^verbatim>\<open>Close\<close> is not safe against a caller that has already read the flag: in every pool a caller
  that passed the closed check can find the channel closed, and its send panics.\<close>

theorem close_can_crash_caller:
  fixes work :: "'p \<Rightarrow> 'r"
  shows "\<exists>s. (pool_step work)\<^sup>*\<^sup>* (NewPreflightWorkerPool workerCount jobQueueCapacity) s \<and> at_client s 0 GetCrashed"
proof -
  let ?init = "NewPreflightWorkerPool workerCount jobQueueCapacity :: ('p, 'r) WorkerPool"
  let ?s1 = "?init\<lparr>wp_params := wp_params ?init @ [undefined], wp_clients := wp_clients ?init @ [GetCalled]\<rparr>"
  let ?s2 = "set_client 0 GetChecked ?s1"
  let ?s3 = "?s2\<lparr>wp_isClosed := True\<rparr>"
  let ?s4 = "?s3\<lparr>wp_chanClosed := True\<rparr>"
  have start: "wp_clients ?init = []" "\<not> wp_isClosed ?init" "\<not> wp_chanClosed ?init"
    by (simp_all add: NewPreflightWorkerPool_def)
  note step = converse_rtranclp_into_rtranclp [of "pool_step work"]
  have "(pool_step work)\<^sup>*\<^sup>* ?init (set_client 0 GetCrashed ?s4)"
  proof (rule step [OF _ step [OF _ step [OF _ step [OF _ r_into_rtranclp]]]])
    show "pool_step work ?init ?s1" by (rule pool_stepI) (rule client_step.call)
    show "pool_step work ?s1 ?s2"
      using start by (intro pool_stepI client_step.checked) (simp_all add: at_client_def)
    show "pool_step work ?s2 ?s3" using start by (intro pool_stepI close_step.mark) simp
    show "pool_step work ?s3 ?s4" using start by (intro pool_stepI close_step.close) simp_all
    show "pool_step work ?s4 (set_client 0 GetCrashed ?s4)"
      using start by (intro pool_stepI client_step.crash) (simp_all add: at_client_def set_client_def)
  qed
  moreover have "at_client (set_client 0 GetCrashed ?s4) 0 GetCrashed"
    using start by (simp add: set_client_def at_client_def)
  ultimately show ?thesis by blast
qed

end
