(* ===== verification/ConfigParse.thy ===== *)
theory ConfigParse
  imports Protocol
begin

text \<open>
  \<^verbatim>\<open>config/parse.go\<close>, \<^verbatim>\<open>config/option.go\<close> and \<^verbatim>\<open>config/log_format.go\<close>: the typed parsers of option
  values and the options themselves. The fields of the configuration are a store: a pointer into
  the \<^verbatim>\<open>Config\<close> structure is a key, and the type of the field is the constructor of
  its value. Values of foreign types (log levels, TOML tables, the datastore settings) have the
  type \<open>'x\<close>.
\<close>

subsection \<open>Durations\<close>

text \<open>\<^verbatim>\<open>time.ParseDuration\<close>; the value in nanoseconds of the digits after a point, computed in floating
  point, is the parameter \<open>frac\<close>. The micro sign is written as its two encodings in UTF-8.\<close>

definition unitMap :: "string \<Rightarrow> nat option" where
  "unitMap = map_of [(''ns'', 1), (''us'', 1000), ([CHR 0xC2, CHR 0xB5, CHR ''s''], 1000),
     ([CHR 0xCE, CHR 0xBC, CHR ''s''], 1000), (''ms'', 10 ^ 6), (''s'', 10 ^ 9), (''m'', 60 * 10 ^ 9),
     (''h'', 3600 * 10 ^ 9)]"

definition number_char :: "char \<Rightarrow> bool" where
  "number_char c \<longleftrightarrow> c = CHR ''.'' \<or> is_digit c"

definition invalid_duration :: "string \<Rightarrow> go_error" where
  "invalid_duration orig = Err (''time: invalid duration '' @ dq @ orig @ dq)"

text \<open>The digits before and after the point, and what follows them.\<close>

definition split_number :: "string \<Rightarrow> string \<times> string \<times> string" where
  "split_number s =
     (let s1 = dropWhile is_digit s in
      if s1 \<noteq> [] \<and> hd s1 = CHR ''.''
      then (takeWhile is_digit s, takeWhile is_digit (tl s1), dropWhile is_digit (tl s1))
      else (takeWhile is_digit s, [], s1))"

function duration_units :: "(string \<Rightarrow> nat \<Rightarrow> nat) \<Rightarrow> string \<Rightarrow> string \<Rightarrow> nat \<Rightarrow> nat res" where
  "duration_units frac orig s d =
     (if s = [] then Inr d
      else
        (case split_number s of (ds, fs, s2) \<Rightarrow>
          let u = takeWhile (\<lambda>c. \<not> number_char c) s2 in
          if \<not> number_char (hd s) \<or> 2 ^ 63 < dec_val ds \<or> ds = [] \<and> fs = [] then Inl (invalid_duration orig)
          else if u = [] then Inl (Err (''time: missing unit in duration '' @ dq @ orig @ dq))
          else (case unitMap u of
                  None \<Rightarrow> Inl (Err (''time: unknown unit '' @ dq @ u @ dq @ '' in duration '' @ dq @ orig @ dq))
                | Some unit \<Rightarrow>
                    let v = dec_val ds * unit + (if 0 < dec_val fs then frac fs unit else 0);
                        d' = (d + v) mod 2 ^ 64
                    in if 2 ^ 63 div unit < dec_val ds \<or> 2 ^ 63 < v \<or> 2 ^ 63 < d' then Inl (invalid_duration orig)
                       else duration_units frac orig (dropWhile (\<lambda>c. \<not> number_char c) s2) d')))"
  by pat_completeness auto

lemma split_number_rest: "split_number s = (ds, fs, s2) \<Longrightarrow> length s2 \<le> length s"
  using length_dropWhile_le [of is_digit s] length_dropWhile_le [of is_digit "tl (dropWhile is_digit s)"]
  by (auto simp: split_number_def Let_def split: if_splits)

lemma dropWhile_shorter:
  assumes "takeWhile P s2 \<noteq> []" and "length s2 \<le> length s"
  shows "length (dropWhile P s2) < length s"
proof -
  have "length (takeWhile P s2) + length (dropWhile P s2) = length s2"
    by (metis length_append takeWhile_dropWhile_id)
  with assms show ?thesis by (cases "takeWhile P s2") auto
qed

termination duration_units
  by (relation "measure (\<lambda>(frac, orig, s, d). length s)")
    (simp, metis (no_types, lifting) case_prod_conv dropWhile_shorter in_measure split_number_rest)

declare duration_units.simps [simp del]

definition ParseDuration :: "(string \<Rightarrow> nat \<Rightarrow> nat) \<Rightarrow> string \<Rightarrow> int res" where
  "ParseDuration frac orig =
     (let neg = (orig \<noteq> [] \<and> hd orig = CHR ''-'');
          s = (if orig \<noteq> [] \<and> (hd orig = CHR ''-'' \<or> hd orig = CHR ''+'') then tl orig else orig)
      in if s = ''0'' then Inr 0
         else if s = [] then Inl (invalid_duration orig)
         else bind_res (duration_units frac orig s 0) (\<lambda>d.
           if neg then Inr (- int d)
           else if 2 ^ 63 - 1 < d then Inl (invalid_duration orig) else Inr (int d)))"

text \<open>\<^verbatim>\<open>Duration.String\<close>\<close>

definition fmtFrac :: "nat \<Rightarrow> nat \<Rightarrow> string" where
  "fmtFrac v prec =
     (let ds = rev (dropWhile (\<lambda>c. c = CHR ''0'') (rev (pad0 prec (show_nat (v mod 10 ^ prec)))))
      in if ds = [] then [] else CHR ''.'' # ds)"

definition Duration_String :: "int \<Rightarrow> string" where
  "Duration_String d =
     (let u = nat \<bar>d\<bar>; secs = u div 10 ^ 9; mins = secs div 60; hours = mins div 60;
          s = (if u = 0 then ''0s''
               else if u < 10 ^ 3 then show_nat u @ ''ns''
               else if u < 10 ^ 6 then show_nat (u div 10 ^ 3) @ fmtFrac u 3 @ [CHR 0xC2, CHR 0xB5, CHR ''s'']
               else if u < 10 ^ 9 then show_nat (u div 10 ^ 6) @ fmtFrac u 6 @ ''ms''
               else (if 0 < hours then show_nat hours @ ''h'' else []) @
                    (if 0 < mins then show_nat (mins mod 60) @ ''m'' else []) @
                    show_nat (secs mod 60) @ fmtFrac u 9 @ ''s'')
      in if d < 0 then CHR ''-'' # s else s)"

subsection \<open>Values and fields\<close>

text \<open>\<^verbatim>\<open>interface{}\<close> as the configuration uses it; a nil slice of strings is \<open>None\<close>. A signed or unsigned integer of any width is its
  value, and a pointer to a duration, level or format is what it points to.\<close>

datatype 'x go_val =
  VNil | VBool bool | VString string | VInt int | VUint nat | VFloat 'x | VDuration int
| VStrings "string list option" | VSlice "'x go_val list" | VLevel 'x | VLogFormat int | VTree 'x | VOther 'x

text \<open>A field of the \<^verbatim>\<open>Config\<close> structure: the widths are in bits, and \<^verbatim>\<open>uint64\<close> is apart since it has a
  parser of its own.\<close>

datatype 'x field =
  FBool bool | FInt nat int | FUint nat nat | FUint64 nat | FFloat 'x | FString string
| FStrings "string list option" | FDuration int | FLevel 'x | FLogFormat int | FStruct 'x

text \<open>The fields of \<^verbatim>\<open>Config\<close>.\<close>

datatype (plugins only: code) config_key =
  KConfigPath | KStrict | KStellarCoreURL | KCaptiveCoreStoragePath | KStellarCoreBinaryPath |
  KCaptiveCoreConfigPath | KCaptiveCoreHTTPPort | KCaptiveCoreHTTPQueryPort |
  KCaptiveCoreHTTPQueryThreadPoolSize | KCaptiveCoreHTTPQuerySnapshotLedgers | KEndpoint | KAdminEndpoint |
  KCheckpointFrequency | KCoreRequestTimeout | KDefaultEventsLimit | KDefaultTransactionsLimit |
  KDefaultLedgersLimit | KFriendbotURL | KHistoryArchiveURLs | KHistoryArchiveUserAgent |
  KIngestionTimeout | KLogFormat | KLogLevel | KMaxEventsLimit | KMaxTransactionsLimit | KMaxLedgersLimit |
  KMaxHealthyLedgerLatency | KNetworkPassphrase | KPreflightWorkerCount | KPreflightWorkerQueueSize |
  KPreflightEnableDebug | KSQLiteDBPath | KHistoryRetentionWindow | KSorobanFeeStatsLedgerRetentionWindow |
  KClassicFeeStatsLedgerRetentionWindow | KRequestBacklogGlobalQueueLimit |
  KRequestBacklogGetHealthQueueLimit | KRequestBacklogGetEventsQueueLimit |
  KRequestBacklogGetNetworkQueueLimit | KRequestBacklogGetVersionInfoQueueLimit |
  KRequestBacklogGetLatestLedgerQueueLimit | KRequestBacklogGetLedgerEntriesQueueLimit |
  KRequestBacklogGetTransactionQueueLimit | KRequestBacklogGetTransactionsQueueLimit |
  KRequestBacklogGetLedgersQueueLimit | KRequestBacklogSendTransactionQueueLimit |
  KRequestBacklogSimulateTransactionQueueLimit | KRequestBacklogGetFeeStatsTransactionQueueLimit |
  KRequestExecutionWarningThreshold | KMaxRequestExecutionDuration | KMaxGetHealthExecutionDuration |
  KMaxGetEventsExecutionDuration | KMaxGetNetworkExecutionDuration | KMaxGetVersionInfoExecutionDuration |
  KMaxGetLatestLedgerExecutionDuration | KMaxGetLedgerEntriesExecutionDuration |
  KMaxGetTransactionExecutionDuration | KMaxGetTransactionsExecutionDuration |
  KMaxGetLedgersExecutionDuration | KMaxSendTransactionExecutionDuration |
  KMaxSimulateTransactionExecutionDuration | KMaxGetFeeStatsExecutionDuration |
  KServeLedgersFromDatastore | KBufferedStorageBackendConfig | KDataStoreConfig

type_synonym 'x fields = "config_key \<Rightarrow> 'x field"

text \<open>What the configuration takes from the machine and from other packages.\<close>

record 'x host =
  h_frac :: "string \<Rightarrow> nat \<Rightarrow> nat"
  h_ParseFloat :: "string \<Rightarrow> 'x res"
  h_Sprint :: "'x go_val \<Rightarrow> string"
    \<comment> \<open>the text of a value in an error message\<close>
  h_ParseLevel :: "string \<Rightarrow> 'x res"
  h_LevelString :: "'x \<Rightarrow> string"
  h_InfoLevel :: 'x
  h_Getwd :: "string res"
  h_LookPath :: string
  h_NumCPU :: nat
  h_KebabToConstantCase :: "string \<Rightarrow> string"
  h_UnmarshalTree :: "'x \<Rightarrow> 'x \<Rightarrow> 'x res"
    \<comment> \<open>marshals a TOML table and unmarshals it over a structure\<close>
  h_DefaultTree :: "string \<Rightarrow> 'x res"
    \<comment> \<open>the table of the default settings of a structure\<close>
  h_IsZero :: "'x \<Rightarrow> bool"
  h_Version :: string

subsection \<open>The parsers\<close>

definition ParseBool :: "string \<Rightarrow> bool option" where
  "ParseBool s =
     (if s \<in> {''1'', ''t'', ''T'', ''TRUE'', ''true'', ''True''} then Some True
      else if s \<in> {''0'', ''f'', ''F'', ''FALSE'', ''false'', ''False''} then Some False else None)"

fun parseBool :: "'x host \<Rightarrow> string \<Rightarrow> 'x go_val \<Rightarrow> 'x field \<Rightarrow> 'x field res" where
  "parseBool H name VNil f = Inr f"
| "parseBool H name (VBool b) f = Inr (FBool b)"
| "parseBool H name (VString v) f =
     (case ParseBool (map to_lower_char v) of
        None \<Rightarrow> Inl (Err (''invalid boolean value '' @ name @ '': '' @ v))
      | Some b \<Rightarrow> Inr (FBool b))"
| "parseBool H name i f = Inl (Err (''could not parse boolean '' @ name @ '': '' @ h_Sprint H i))"

text \<open>\<^verbatim>\<open>reflect.Value.SetInt\<close> and \<^verbatim>\<open>SetUint\<close> keep the bits that fit the field.\<close>

fun set_int :: "'x field \<Rightarrow> int \<Rightarrow> 'x field" where
  "set_int (FInt w _) n = FInt w ((n + 2 ^ (w - 1)) mod 2 ^ w - 2 ^ (w - 1))"
| "set_int f n = f"

fun set_uint :: "'x field \<Rightarrow> nat \<Rightarrow> 'x field" where
  "set_uint (FUint w _) n = FUint w (n mod 2 ^ w)"
| "set_uint (FUint64 _) n = FUint64 n"
| "set_uint f n = f"

definition parseInt_text :: "string \<Rightarrow> 'x field \<Rightarrow> 'x field res" where
  "parseInt_text v f = bind_res (ParseInt 64 v) (\<lambda>parsed. Inr (set_int f parsed))"

fun parseInt :: "'x host \<Rightarrow> string \<Rightarrow> 'x go_val \<Rightarrow> 'x field \<Rightarrow> 'x field res" where
  "parseInt H name VNil f = Inr f"
| "parseInt H name (VString v) f = parseInt_text v f"
| "parseInt H name (VInt n) f = parseInt_text (itoa n) f"
| "parseInt H name (VUint n) f = parseInt_text (itoa (int n)) f"
| "parseInt H name i f = Inl (Err (''could not parse int '' @ name @ '': '' @ h_Sprint H i))"

definition parseUint_text :: "string \<Rightarrow> 'x field \<Rightarrow> 'x field res" where
  "parseUint_text v f = bind_res (ParseUint 64 v) (\<lambda>parsed. Inr (set_uint f parsed))"

fun parseUint :: "'x host \<Rightarrow> string \<Rightarrow> 'x go_val \<Rightarrow> 'x field \<Rightarrow> 'x field res" where
  "parseUint H name VNil f = Inr f"
| "parseUint H name (VString v) f = parseUint_text v f"
| "parseUint H name (VInt n) f =
     (if n < 0 then Inl (Err (name @ '' cannot be negative'')) else parseUint_text (itoa n) f)"
| "parseUint H name (VUint n) f = parseUint_text (itoa (int n)) f"
| "parseUint H name i f = Inl (Err (''could not parse uint '' @ name @ '': '' @ h_Sprint H i))"

definition parseFloat_text :: "'x host \<Rightarrow> string \<Rightarrow> 'x field res" where
  "parseFloat_text H v = bind_res (h_ParseFloat H v) (\<lambda>parsed. Inr (FFloat parsed))"

fun parseFloat :: "'x host \<Rightarrow> string \<Rightarrow> 'x go_val \<Rightarrow> 'x field \<Rightarrow> 'x field res" where
  "parseFloat H name VNil f = Inr f"
| "parseFloat H name (VString v) f = parseFloat_text H v"
| "parseFloat H name (VInt n) f = parseFloat_text H (itoa n)"
| "parseFloat H name (VUint n) f = parseFloat_text H (itoa (int n))"
| "parseFloat H name (VFloat x) f = parseFloat_text H (h_Sprint H (VFloat x))"
| "parseFloat H name i f = Inl (Err (''could not parse float '' @ name @ '': '' @ h_Sprint H i))"

fun parseString :: "'x host \<Rightarrow> string \<Rightarrow> 'x go_val \<Rightarrow> 'x field \<Rightarrow> 'x field res" where
  "parseString H name VNil f = Inr f"
| "parseString H name (VString v) f =
     (case f of FString _ \<Rightarrow> Inr (FString v)
      | _ \<Rightarrow> Inl (Err (''invalid type for '' @ name @ '': expected *string'')))"
| "parseString H name i f = Inl (Err (''could not parse string '' @ name @ '': '' @ h_Sprint H i))"

definition parseUint32_text :: "string \<Rightarrow> string \<Rightarrow> 'x field \<Rightarrow> 'x field res" where
  "parseUint32_text name v f =
     bind_res (ParseUint 64 v) (\<lambda>parsed.
       if 2 ^ 32 - 1 < parsed then Inl (Err (name @ '' overflows uint32'')) else Inr (set_uint f parsed))"

fun parseUint32 :: "'x host \<Rightarrow> string \<Rightarrow> 'x go_val \<Rightarrow> 'x field \<Rightarrow> 'x field res" where
  "parseUint32 H name VNil f = Inr f"
| "parseUint32 H name (VString v) f = parseUint32_text name v f"
| "parseUint32 H name (VInt n) f =
     (if n < 0 then Inl (Err (name @ '' cannot be negative'')) else parseUint32_text name (itoa n) f)"
| "parseUint32 H name (VUint n) f = parseUint32_text name (itoa (int n)) f"
| "parseUint32 H name i f = Inl (Err (''could not parse uint32 '' @ name @ '': '' @ h_Sprint H i))"

definition parseDuration :: "'x host \<Rightarrow> string \<Rightarrow> 'x go_val \<Rightarrow> 'x field \<Rightarrow> 'x field res" where
  "parseDuration H name i f =
     (case f of
        FDuration _ \<Rightarrow>
          (case i of
             VNil \<Rightarrow> Inr f
           | VString v \<Rightarrow>
               bind_res (map_err (wrap_err (''could not parse duration: '' @ dq @ v @ dq @ '': ''))
                 (ParseDuration (h_frac H) v)) (\<lambda>d. Inr (FDuration d))
           | VDuration d \<Rightarrow> Inr (FDuration d)
           | _ \<Rightarrow> Inl (Err (name @ '' is not a duration'')))
      | _ \<Rightarrow> Inl (Err (''invalid type for '' @ name @ '': expected *time.Duration'')))"

fun string_elements :: "string \<Rightarrow> nat \<Rightarrow> 'x go_val list \<Rightarrow> (string list) res" where
  "string_elements name i [] = Inr []"
| "string_elements name i (VString s # vs) =
     bind_res (string_elements name (Suc i) vs) (\<lambda>ss. Inr (s # ss))"
| "string_elements name i (_ # vs) =
     Inl (Err (''could not parse '' @ name @ '': element '' @ itoa (int i) @ '' is not a string''))"

definition parseStringSlice :: "'x host \<Rightarrow> string \<Rightarrow> 'x go_val \<Rightarrow> 'x field \<Rightarrow> 'x field res" where
  "parseStringSlice H name i f =
     (case f of
        FStrings _ \<Rightarrow>
          (case i of
             VNil \<Rightarrow> Inr f
           | VString v \<Rightarrow> Inr (FStrings (if v = '''' then None else Some (Split (CHR '','') v)))
           | VStrings ss \<Rightarrow> Inr (FStrings ss)
           | VSlice vs \<Rightarrow> bind_res (string_elements name 0 vs) (\<lambda>ss. Inr (FStrings (Some ss)))
           | _ \<Rightarrow> Inl (Err (''could not parse '' @ name @ '': '' @ h_Sprint H i)))
      | _ \<Rightarrow> Inl (Err (''invalid type for '' @ name @ '': expected *[]string'')))"

subsection \<open>Log formats\<close>

definition LogFormatText :: int where "LogFormatText = 0"
definition LogFormatJSON :: int where "LogFormatJSON = 1"

definition LogFormat_MarshalText :: "int \<Rightarrow> string res" where
  "LogFormat_MarshalText f =
     (if f = LogFormatText then Inr ''text'' else if f = LogFormatJSON then Inr ''json''
      else Inl (Err (''unknown log format: '' @ itoa f)))"

definition LogFormat_UnmarshalText :: "string \<Rightarrow> int res" where
  "LogFormat_UnmarshalText s =
     (if s = ''text'' then Inr LogFormatText else if s = ''json'' then Inr LogFormatJSON
      else Inl (Err (''unknown log format: '' @ s)))"

definition LogFormat_String :: "int \<Rightarrow> string res" where
  "LogFormat_String f =
     (if f = LogFormatText then Inr ''text'' else if f = LogFormatJSON then Inr ''json''
      else Inl (Err (''unknown log format: '' @ itoa f)))"

definition LogFormat_MarshalTOML :: "int \<Rightarrow> string res" where
  "LogFormat_MarshalTOML f = LogFormat_MarshalText f"

text \<open>A TOML value is a text or something else, which is printed.\<close>

fun LogFormat_UnmarshalTOML :: "'x host \<Rightarrow> 'x go_val \<Rightarrow> int res" where
  "LogFormat_UnmarshalTOML H (VString v) = LogFormat_UnmarshalText v"
| "LogFormat_UnmarshalTOML H v = Inl (Err (''unknown log format: '' @ h_Sprint H v))"

lemma LogFormat_round_trip: "LogFormat_MarshalTOML f = Inr t \<Longrightarrow> LogFormat_UnmarshalTOML H (VString t) = Inr f"
  by (auto simp: LogFormat_MarshalTOML_def LogFormat_MarshalText_def LogFormat_UnmarshalText_def split: if_splits)

end
