(* ===== verification/ConfigOptions.thy ===== *)
theory ConfigOptions
  imports ConfigParse
begin

text \<open>
  \<^verbatim>\<open>config/option.go\<close>, \<^verbatim>\<open>config/flags.go\<close>, \<^verbatim>\<open>config/toml.go\<close> and the loading of \<^verbatim>\<open>config/main.go\<close>: an
  option is set from its default, from the environment, from the command line and from the
  configuration file. The closures of the options table are the constructors of two datatypes.
  The command line parser, the environment and the TOML package are parameters. A failed load ends
  the process, so the result of a load is an error or the new fields.
\<close>

subsection \<open>Options\<close>

datatype custom_set = NoCustom | SetLogLevel | SetLogFormat | SetStoragePath | SetTree string

datatype validator =
  NoValidate | ValidateRequired | ValidatePositive | DefaultCoreURL | NotAbove config_key config_key string string
    \<comment> \<open>the two fields and the two option names of the message\<close>

record 'x ConfigOption =
  o_Name :: string
  o_EnvVar :: string
  o_TomlKey :: string
  o_Usage :: string
  o_DefaultValue :: "'x go_val"
  o_ConfigKey :: config_key
  o_CustomSetValue :: custom_set
  o_Validate :: validator
  o_flag :: "'x field option"
    \<comment> \<open>the flag \<^verbatim>\<open>AddFlag\<close> has attached, as a field of its type\<close>

definition getEnvKey :: "'x host \<Rightarrow> 'x ConfigOption \<Rightarrow> string option" where
  "getEnvKey H opt =
     (if o_EnvVar opt = ''-'' \<or> o_EnvVar opt = ''_'' then None
      else if o_EnvVar opt \<noteq> '''' then Some (o_EnvVar opt)
      else Some (h_KebabToConstantCase H (o_Name opt)))"

definition getTomlKey :: "'x host \<Rightarrow> 'x ConfigOption \<Rightarrow> string option" where
  "getTomlKey H opt =
     (if o_TomlKey opt = ''-'' \<or> o_TomlKey opt = ''_'' then None
      else if o_TomlKey opt \<noteq> '''' then Some (o_TomlKey opt)
      else (case getEnvKey H opt of
              Some envVar \<Rightarrow> Some envVar
            | None \<Rightarrow> Some (h_KebabToConstantCase H (o_Name opt))))"

text \<open>The custom setters of the options table.\<close>

definition set_log_level :: "'x host \<Rightarrow> string \<Rightarrow> 'x go_val \<Rightarrow> 'x field \<Rightarrow> 'x field res" where
  "set_log_level H name i f =
     (case i of
        VNil \<Rightarrow> Inr f
      | VString v \<Rightarrow>
          (case h_ParseLevel H v of
             Inl _ \<Rightarrow> Inl (Err (''could not parse '' @ name @ '': '' @ dq @ v @ dq)) | Inr l \<Rightarrow> Inr (FLevel l))
      | VLevel l \<Rightarrow> Inr (FLevel l)
      | _ \<Rightarrow> Inl (Err (''could not parse '' @ name @ '': '' @ h_Sprint H i)))"

definition set_log_format :: "'x host \<Rightarrow> string \<Rightarrow> 'x go_val \<Rightarrow> 'x field \<Rightarrow> 'x field res" where
  "set_log_format H name i f =
     (case i of
        VNil \<Rightarrow> Inr f
      | VString v \<Rightarrow>
          bind_res (map_err (wrap_err (''could not parse '' @ name @ '': '')) (LogFormat_UnmarshalText v))
            (\<lambda>l. Inr (FLogFormat l))
      | VLogFormat l \<Rightarrow> Inr (FLogFormat l)
      | _ \<Rightarrow> Inl (Err (''could not parse '' @ name @ '': '' @ h_Sprint H i)))"

definition set_storage_path :: "'x host \<Rightarrow> string \<Rightarrow> 'x go_val \<Rightarrow> 'x field res" where
  "set_storage_path H name i =
     (let cwd = map_err (wrap_err ''unable to determine the current directory: '') (h_Getwd H) in
      case i of
        VString v \<Rightarrow>
          if v = '''' \<or> v = ''.'' then bind_res cwd (\<lambda>d. Inr (FString d)) else Inr (FString v)
      | VNil \<Rightarrow> bind_res cwd (\<lambda>d. Inr (FString d))
      | _ \<Rightarrow> Inl (Err (''could not parse '' @ name @ '': '' @ h_Sprint H i)))"

definition unmarshalTOMLTree :: "'x host \<Rightarrow> string \<Rightarrow> 'x go_val \<Rightarrow> 'x field \<Rightarrow> 'x field res" where
  "unmarshalTOMLTree H configName tree out =
     (case (tree, out) of
        (VTree t, FStruct x) \<Rightarrow> bind_res (h_UnmarshalTree H t x) (\<lambda>x'. Inr (FStruct x'))
      | _ \<Rightarrow> Inl (Err (''expected TOML table for '' @ configName)))"

definition parser_for :: "'x host \<Rightarrow> string \<Rightarrow> 'x field \<Rightarrow> 'x go_val \<Rightarrow> 'x field res" where
  "parser_for H name f i =
     (case f of
        FBool _ \<Rightarrow> parseBool H name i f
      | FInt _ _ \<Rightarrow> parseInt H name i f
      | FUint _ _ \<Rightarrow> parseUint32 H name i f
      | FUint64 _ \<Rightarrow> parseUint H name i f
      | FFloat _ \<Rightarrow> parseFloat H name i f
      | FString _ \<Rightarrow> parseString H name i f
      | FStrings _ \<Rightarrow> parseStringSlice H name i f
      | FDuration _ \<Rightarrow> parseDuration H name i f
      | _ \<Rightarrow> Inl (Err (''no parser for flag '' @ name)))"

definition new_field :: "'x host \<Rightarrow> 'x ConfigOption \<Rightarrow> 'x go_val \<Rightarrow> 'x field \<Rightarrow> 'x field res" where
  "new_field H opt i f =
     (case o_CustomSetValue opt of
        NoCustom \<Rightarrow> parser_for H (o_Name opt) f i
      | SetLogLevel \<Rightarrow> set_log_level H (o_Name opt) i f
      | SetLogFormat \<Rightarrow> set_log_format H (o_Name opt) i f
      | SetStoragePath \<Rightarrow> set_storage_path H (o_Name opt) i
      | SetTree configName \<Rightarrow> unmarshalTOMLTree H configName i f)"

definition setValue :: "'x host \<Rightarrow> 'x ConfigOption \<Rightarrow> 'x go_val \<Rightarrow> 'x fields \<Rightarrow> 'x fields res" where
  "setValue H opt i cfg =
     bind_res (new_field H opt i (cfg (o_ConfigKey opt))) (\<lambda>f. Inr (cfg(o_ConfigKey opt := f)))"

subsection \<open>Loading\<close>

text \<open>A pass over the options that sets those for which a source has a value.\<close>

fun load_from ::
  "'x host \<Rightarrow> ('x ConfigOption \<Rightarrow> 'x go_val option res) \<Rightarrow> 'x ConfigOption list \<Rightarrow> 'x fields \<Rightarrow> 'x fields res" where
  "load_from H source [] cfg = Inr cfg"
| "load_from H source (opt # opts) cfg =
     bind_res (source opt) (\<lambda>v.
       case v of None \<Rightarrow> load_from H source opts cfg
       | Some i \<Rightarrow> bind_res (setValue H opt i cfg) (load_from H source opts))"

definition from_defaults :: "'x ConfigOption \<Rightarrow> 'x go_val option res" where
  "from_defaults opt = Inr (if o_DefaultValue opt = VNil then None else Some (o_DefaultValue opt))"

definition loadDefaults :: "'x host \<Rightarrow> 'x ConfigOption list \<Rightarrow> 'x fields \<Rightarrow> 'x fields res" where
  "loadDefaults H opts cfg =
     bind_res (load_from H from_defaults opts cfg) (\<lambda>cfg'.
       Inr (cfg'(KHistoryArchiveUserAgent := FString (''stellar-rpc/'' @ h_Version H))))"

definition from_env :: "'x host \<Rightarrow> (string \<rightharpoonup> string) \<Rightarrow> 'x ConfigOption \<Rightarrow> 'x go_val option res" where
  "from_env H lookupEnv opt =
     Inr (case getEnvKey H opt of None \<Rightarrow> None | Some key \<Rightarrow> map_option VString (lookupEnv key))"

definition loadEnv :: "'x host \<Rightarrow> (string \<rightharpoonup> string) \<Rightarrow> 'x ConfigOption list \<Rightarrow> 'x fields \<Rightarrow> 'x fields res" where
  "loadEnv H lookupEnv = load_from H (from_env H lookupEnv)"

text \<open>
  \<^verbatim>\<open>AddFlag\<close>: an option with a name gets a flag of the type of its field; the missing default of a
  string or a custom option becomes the empty one. A default of another type than the field
  fails its type assertion. The flag types without a field of the configuration are left out.
\<close>

definition default_fits :: "'x field \<Rightarrow> 'x go_val \<Rightarrow> bool" where
  "default_fits f v =
     (case f of
        FBool _ \<Rightarrow> (case v of VBool _ \<Rightarrow> True | _ \<Rightarrow> False)
      | FDuration _ \<Rightarrow> (case v of VDuration _ \<Rightarrow> True | _ \<Rightarrow> False)
      | FFloat _ \<Rightarrow> (case v of VFloat _ \<Rightarrow> True | _ \<Rightarrow> False)
      | FInt _ _ \<Rightarrow> (case v of VInt _ \<Rightarrow> True | _ \<Rightarrow> False)
      | FUint _ _ \<Rightarrow> (case v of VUint _ \<Rightarrow> True | _ \<Rightarrow> False)
      | FUint64 _ \<Rightarrow> (case v of VUint _ \<Rightarrow> True | _ \<Rightarrow> False)
      | FString _ \<Rightarrow> (case v of VString _ \<Rightarrow> True | _ \<Rightarrow> False)
      | FStrings _ \<Rightarrow> (case v of VStrings _ \<Rightarrow> True | _ \<Rightarrow> False)
      | _ \<Rightarrow> False)"

definition flag_default :: "'x ConfigOption \<Rightarrow> 'x field \<Rightarrow> 'x go_val" where
  "flag_default opt f =
     (if o_DefaultValue opt \<noteq> VNil then o_DefaultValue opt
      else if o_CustomSetValue opt \<noteq> NoCustom then VString ''''
      else (case f of FString _ \<Rightarrow> VString '''' | FStrings _ \<Rightarrow> VStrings (Some []) | _ \<Rightarrow> VNil))"

definition AddFlag :: "'x fields \<Rightarrow> 'x ConfigOption \<Rightarrow> 'x ConfigOption res" where
  "AddFlag cfg opt =
     (if o_Name opt = '''' then Inr opt
      else
        let f = cfg (o_ConfigKey opt); opt' = opt\<lparr>o_DefaultValue := flag_default opt f, o_flag := Some f\<rparr> in
        if o_CustomSetValue opt \<noteq> NoCustom then Inr opt'
        else (case f of
                FLevel _ \<Rightarrow> Inl (Err ''unexpected option type'')
              | FLogFormat _ \<Rightarrow> Inl (Err ''unexpected option type'')
              | FStruct _ \<Rightarrow> Inl (Err ''unexpected option type'')
              | _ \<Rightarrow> if default_fits f (flag_default opt f) then Inr opt'
                     else Inl (Panic ''interface conversion'')))"

definition AddFlags :: "'x fields \<Rightarrow> 'x ConfigOption list \<Rightarrow> ('x ConfigOption list) res" where
  "AddFlags cfg = traverse (AddFlag cfg)"

text \<open>The parsed command line: whether a flag was given, and its value.\<close>

record 'x flagset =
  fs_Changed :: "string \<Rightarrow> bool"
  fs_Value :: "string \<Rightarrow> 'x go_val"

text \<open>A typed getter of the flag set fails on a flag of another type.\<close>

definition GetFlag :: "'x flagset \<Rightarrow> 'x ConfigOption \<Rightarrow> 'x field \<Rightarrow> 'x go_val res" where
  "GetFlag fl opt f =
     (let v = fs_Value fl (o_Name opt) in
      if o_CustomSetValue opt \<noteq> NoCustom
      then (case v of VString _ \<Rightarrow> Inr v | _ \<Rightarrow> Inl (Err (''trying to get string value of flag '' @ o_Name opt)))
      else if default_fits f v then Inr v
      else Inl (Err (''unexpected type of flag '' @ o_Name opt)))"

definition from_flags :: "'x flagset \<Rightarrow> 'x ConfigOption \<Rightarrow> 'x go_val option res" where
  "from_flags fl opt =
     (case o_flag opt of
        None \<Rightarrow> Inr None
      | Some f \<Rightarrow>
          if \<not> fs_Changed fl (o_Name opt) then Inr None
          else bind_res (GetFlag fl opt f) (\<lambda>v. Inr (Some v)))"

definition loadFlags :: "'x host \<Rightarrow> 'x flagset \<Rightarrow> 'x ConfigOption list \<Rightarrow> 'x fields \<Rightarrow> 'x fields res" where
  "loadFlags H fl = load_from H (from_flags fl)"

definition UsageText :: "'x host \<Rightarrow> 'x ConfigOption \<Rightarrow> string" where
  "UsageText H opt =
     (case getEnvKey H opt of Some envVar \<Rightarrow> o_Usage opt @ '' ('' @ envVar @ '')'' | None \<Rightarrow> o_Usage opt)"

subsection \<open>The configuration file\<close>

text \<open>A TOML document: the value of a key, nil if there is none, and the keys.\<close>

record 'x toml_tree =
  tr_Get :: "string \<Rightarrow> 'x go_val"
  tr_Keys :: "string list"

definition from_toml :: "'x host \<Rightarrow> 'x toml_tree \<Rightarrow> 'x ConfigOption \<Rightarrow> 'x go_val option res" where
  "from_toml H tree opt =
     Inr (case getTomlKey H opt of
            None \<Rightarrow> None
          | Some key \<Rightarrow> if tr_Get tree key = VNil then None else Some (tr_Get tree key))"

definition is_strict :: "'x fields \<Rightarrow> bool" where
  "is_strict cfg \<longleftrightarrow> cfg KStrict = FBool True"

definition parseToml ::
  "'x host \<Rightarrow> 'x toml_tree \<Rightarrow> bool \<Rightarrow> 'x ConfigOption list \<Rightarrow> 'x fields \<Rightarrow> 'x fields res" where
  "parseToml H tree strict opts cfg =
     bind_res (load_from H (from_toml H tree) opts cfg) (\<lambda>cfg'.
       let validKeys = set (List.map_filter (getTomlKey H) opts) in
       if is_strict cfg' \<or> strict then
         (case find (\<lambda>key. key \<notin> validKeys) (tr_Keys tree) of
            Some key \<Rightarrow> Inl (Err (''invalid config: unexpected entry specified in toml file '' @ dq @ key @ dq))
          | None \<Rightarrow> Inr cfg')
       else Inr cfg')"

text \<open>\<^verbatim>\<open>open_toml\<close> opens and parses the file of a path.\<close>

definition loadConfigPath ::
  "'x host \<Rightarrow> (string \<Rightarrow> 'x toml_tree res) \<Rightarrow> 'x ConfigOption list \<Rightarrow> string \<Rightarrow> 'x fields \<Rightarrow> 'x fields res" where
  "loadConfigPath H open_toml opts path cfg =
     bind_res (open_toml path) (\<lambda>tree. parseToml H tree (is_strict cfg) opts cfg)"

definition SetValues ::
  "'x host \<Rightarrow> (string \<rightharpoonup> string) \<Rightarrow> 'x flagset \<Rightarrow> (string \<Rightarrow> 'x toml_tree res) \<Rightarrow> 'x ConfigOption list \<Rightarrow>
   'x fields \<Rightarrow> 'x fields res" where
  "SetValues H lookupEnv fl open_toml opts cfg =
     bind_res (loadDefaults H opts cfg) (\<lambda>cfg1.
     bind_res (loadEnv H lookupEnv opts cfg1) (\<lambda>cfg2.
     bind_res (loadFlags H fl opts cfg2) (\<lambda>cfg3.
       case cfg3 KConfigPath of
         FString path \<Rightarrow>
           if path = '''' then Inr cfg3
           else bind_res (loadConfigPath H open_toml opts path cfg3) (\<lambda>cfg4.
                bind_res (loadEnv H lookupEnv opts cfg4) (loadFlags H fl opts))
       | _ \<Rightarrow> Inr cfg3)))"

subsection \<open>Validation\<close>

text \<open>An error of a validator: a missing option with its advice and usage, or any other.\<close>

datatype validate_error = Missing string string | Invalid go_error

definition field_IsZero :: "'x host \<Rightarrow> 'x field \<Rightarrow> bool" where
  "field_IsZero H f =
     (case f of
        FStrings ss \<Rightarrow> ss = None | FString s \<Rightarrow> s = '''' | FBool b \<Rightarrow> \<not> b | FInt _ n \<Rightarrow> n = 0 | FUint _ n \<Rightarrow> n = 0
      | FUint64 n \<Rightarrow> n = 0 | FDuration d \<Rightarrow> d = 0 | FLogFormat l \<Rightarrow> l = 0 | FFloat x \<Rightarrow> h_IsZero H x
      | FLevel x \<Rightarrow> h_IsZero H x | FStruct x \<Rightarrow> h_IsZero H x)"

definition is_set :: "'x host \<Rightarrow> 'x field \<Rightarrow> bool" where
  "is_set H f = (case f of FStrings ss \<Rightarrow> (case ss of Some (_ # _) \<Rightarrow> True | _ \<Rightarrow> False) | _ \<Rightarrow> \<not> field_IsZero H f)"

definition ways_to_set :: "'x host \<Rightarrow> 'x ConfigOption \<Rightarrow> string list" where
  "ways_to_set H opt =
     (if o_Name opt \<noteq> '''' \<and> o_Name opt \<noteq> ''-''
      then [''specify --'' @ o_Name opt @ '' on the command line''] else []) @
     (if o_EnvVar opt \<noteq> '''' \<and> o_EnvVar opt \<noteq> ''-''
      then [''set the '' @ o_EnvVar opt @ '' environment variable''] else []) @
     (case getTomlKey H opt of
        Some tomlKey \<Rightarrow> [''set '' @ tomlKey @ '' in the config file''] | None \<Rightarrow> [])"

fun advice :: "string list \<Rightarrow> string" where
  "advice [a] = '' Please '' @ a @ ''.''"
| "advice [a, b] = '' Please '' @ a @ '' or '' @ b @ ''.''"
| "advice [a, b, c] = '' Please '' @ a @ '', '' @ b @ '', or '' @ c @ ''.''"
| "advice _ = ''''"

definition required :: "'x host \<Rightarrow> 'x ConfigOption \<Rightarrow> 'x fields \<Rightarrow> validate_error option" where
  "required H opt cfg =
     (if is_set H (cfg (o_ConfigKey opt)) then None
      else Some (Missing (o_Name opt @ '' is required.'' @ advice (ways_to_set H opt)) (o_Usage opt)))"

definition positive :: "'x ConfigOption \<Rightarrow> 'x fields \<Rightarrow> validate_error option" where
  "positive opt cfg =
     (let must = Some (Invalid (Err (o_Name opt @ '' must be positive''))) in
      case cfg (o_ConfigKey opt) of
        FInt _ n \<Rightarrow> if n \<le> 0 then must else None
      | FUint _ n \<Rightarrow> if n \<le> 0 then must else None
      | FUint64 n \<Rightarrow> if n \<le> 0 then must else None
      | _ \<Rightarrow> Some (Invalid (Err (o_Name opt @ '' is not a positive integer''))))"

definition uint_at :: "'x fields \<Rightarrow> config_key \<Rightarrow> nat" where
  "uint_at cfg key = (case cfg key of FUint _ n \<Rightarrow> n | _ \<Rightarrow> 0)"

text \<open>A validator may also set a default that depends on other options.\<close>

definition validate_option :: "'x host \<Rightarrow> 'x ConfigOption \<Rightarrow> 'x fields \<Rightarrow> validate_error option \<times> 'x fields" where
  "validate_option H opt cfg =
     (case o_Validate opt of
        NoValidate \<Rightarrow> (None, cfg)
      | ValidateRequired \<Rightarrow> (required H opt cfg, cfg)
      | ValidatePositive \<Rightarrow> (positive opt cfg, cfg)
      | DefaultCoreURL \<Rightarrow>
          (None, if cfg KStellarCoreURL = FString ''''
             then cfg(KStellarCoreURL :=
               FString (''http://localhost:'' @ itoa (int (uint_at cfg KCaptiveCoreHTTPPort))))
             else cfg)
      | NotAbove lower upper lowerName upperName \<Rightarrow>
          (if uint_at cfg upper < uint_at cfg lower
           then Some (Invalid (Err (lowerName @ '' ('' @ itoa (int (uint_at cfg lower)) @ '') cannot exceed '' @
             upperName @ '' ('' @ itoa (int (uint_at cfg upper)) @ '')'')))
           else None, cfg))"

fun validate_loop ::
  "'x host \<Rightarrow> 'x ConfigOption list \<Rightarrow> (string \<times> string) list \<Rightarrow> 'x fields \<Rightarrow> ((string \<times> string) list \<times> 'x fields) res" where
  "validate_loop H [] missing cfg = Inr (missing, cfg)"
| "validate_loop H (opt # opts) missing cfg =
     (case validate_option H opt cfg of
        (None, cfg') \<Rightarrow> validate_loop H opts missing cfg'
      | (Some (Missing strErr usage), cfg') \<Rightarrow> validate_loop H opts (missing @ [(strErr, usage)]) cfg'
      | (Some (Invalid err), cfg') \<Rightarrow>
          Inl (wrap_err (''invalid config value for '' @ o_Name opt @ '': '') err))"

definition Options_Validate :: "'x host \<Rightarrow> 'x ConfigOption list \<Rightarrow> 'x fields \<Rightarrow> 'x fields res" where
  "Options_Validate H opts cfg =
     bind_res (validate_loop H opts [] cfg) (\<lambda>(missingOptions, cfg').
       if missingOptions \<noteq> [] then
         Inl (Err (''The following required configuration parameters are missing:'' @
           concat (map (\<lambda>(strErr, usage).
             [CHR 0x0A] @ ''*'' @ [CHR 0x09] @ strErr @ [CHR 0x0A] @ '' '' @ [CHR 0x09] @ usage) missingOptions)))
       else Inr cfg')"

definition ExtendedUserAgent :: "'x fields \<Rightarrow> string \<Rightarrow> string" where
  "ExtendedUserAgent cfg extension =
     (case cfg KHistoryArchiveUserAgent of
        FString agent \<Rightarrow> if agent = '''' then extension else agent @ ''/'' @ extension
      | _ \<Rightarrow> extension)"

end
