(* ===== verification/ConfigTable.thy ===== *)
theory ConfigTable
  imports ConfigOptions
begin

text \<open>
  \<^verbatim>\<open>config/options.go\<close>, the fields of \<^verbatim>\<open>config/main.go\<close> and the generation of a configuration file in
  \<^verbatim>\<open>config/toml.go\<close>. The help text of an option is a function of its field.
\<close>

subsection \<open>The fields\<close>

text \<open>The zero values of the \<^verbatim>\<open>Config\<close> structure; \<open>zero\<close> gives those of the foreign types.\<close>

primrec zero_Config :: "(config_key \<Rightarrow> 'x) \<Rightarrow> 'x fields" where
  "zero_Config zero KConfigPath = FString ''''"
| "zero_Config zero KStrict = FBool False"
| "zero_Config zero KStellarCoreURL = FString ''''"
| "zero_Config zero KCaptiveCoreStoragePath = FString ''''"
| "zero_Config zero KStellarCoreBinaryPath = FString ''''"
| "zero_Config zero KCaptiveCoreConfigPath = FString ''''"
| "zero_Config zero KCaptiveCoreHTTPPort = FUint 16 0"
| "zero_Config zero KCaptiveCoreHTTPQueryPort = FUint 16 0"
| "zero_Config zero KCaptiveCoreHTTPQueryThreadPoolSize = FUint 16 0"
| "zero_Config zero KCaptiveCoreHTTPQuerySnapshotLedgers = FUint 16 0"
| "zero_Config zero KEndpoint = FString ''''"
| "zero_Config zero KAdminEndpoint = FString ''''"
| "zero_Config zero KCheckpointFrequency = FUint 32 0"
| "zero_Config zero KCoreRequestTimeout = FDuration 0"
| "zero_Config zero KDefaultEventsLimit = FUint 64 0"
| "zero_Config zero KDefaultTransactionsLimit = FUint 64 0"
| "zero_Config zero KDefaultLedgersLimit = FUint 64 0"
| "zero_Config zero KFriendbotURL = FString ''''"
| "zero_Config zero KHistoryArchiveURLs = FStrings None"
| "zero_Config zero KHistoryArchiveUserAgent = FString ''''"
| "zero_Config zero KIngestionTimeout = FDuration 0"
| "zero_Config zero KLogFormat = FLogFormat 0"
| "zero_Config zero KLogLevel = FLevel (zero KLogLevel)"
| "zero_Config zero KMaxEventsLimit = FUint 64 0"
| "zero_Config zero KMaxTransactionsLimit = FUint 64 0"
| "zero_Config zero KMaxLedgersLimit = FUint 64 0"
| "zero_Config zero KMaxHealthyLedgerLatency = FDuration 0"
| "zero_Config zero KNetworkPassphrase = FString ''''"
| "zero_Config zero KPreflightWorkerCount = FUint 64 0"
| "zero_Config zero KPreflightWorkerQueueSize = FUint 64 0"
| "zero_Config zero KPreflightEnableDebug = FBool False"
| "zero_Config zero KSQLiteDBPath = FString ''''"
| "zero_Config zero KHistoryRetentionWindow = FUint 32 0"
| "zero_Config zero KSorobanFeeStatsLedgerRetentionWindow = FUint 32 0"
| "zero_Config zero KClassicFeeStatsLedgerRetentionWindow = FUint 32 0"
| "zero_Config zero KRequestBacklogGlobalQueueLimit = FUint 64 0"
| "zero_Config zero KRequestBacklogGetHealthQueueLimit = FUint 64 0"
| "zero_Config zero KRequestBacklogGetEventsQueueLimit = FUint 64 0"
| "zero_Config zero KRequestBacklogGetNetworkQueueLimit = FUint 64 0"
| "zero_Config zero KRequestBacklogGetVersionInfoQueueLimit = FUint 64 0"
| "zero_Config zero KRequestBacklogGetLatestLedgerQueueLimit = FUint 64 0"
| "zero_Config zero KRequestBacklogGetLedgerEntriesQueueLimit = FUint 64 0"
| "zero_Config zero KRequestBacklogGetTransactionQueueLimit = FUint 64 0"
| "zero_Config zero KRequestBacklogGetTransactionsQueueLimit = FUint 64 0"
| "zero_Config zero KRequestBacklogGetLedgersQueueLimit = FUint 64 0"
| "zero_Config zero KRequestBacklogSendTransactionQueueLimit = FUint 64 0"
| "zero_Config zero KRequestBacklogSimulateTransactionQueueLimit = FUint 64 0"
| "zero_Config zero KRequestBacklogGetFeeStatsTransactionQueueLimit = FUint 64 0"
| "zero_Config zero KRequestExecutionWarningThreshold = FDuration 0"
| "zero_Config zero KMaxRequestExecutionDuration = FDuration 0"
| "zero_Config zero KMaxGetHealthExecutionDuration = FDuration 0"
| "zero_Config zero KMaxGetEventsExecutionDuration = FDuration 0"
| "zero_Config zero KMaxGetNetworkExecutionDuration = FDuration 0"
| "zero_Config zero KMaxGetVersionInfoExecutionDuration = FDuration 0"
| "zero_Config zero KMaxGetLatestLedgerExecutionDuration = FDuration 0"
| "zero_Config zero KMaxGetLedgerEntriesExecutionDuration = FDuration 0"
| "zero_Config zero KMaxGetTransactionExecutionDuration = FDuration 0"
| "zero_Config zero KMaxGetTransactionsExecutionDuration = FDuration 0"
| "zero_Config zero KMaxGetLedgersExecutionDuration = FDuration 0"
| "zero_Config zero KMaxSendTransactionExecutionDuration = FDuration 0"
| "zero_Config zero KMaxSimulateTransactionExecutionDuration = FDuration 0"
| "zero_Config zero KMaxGetFeeStatsExecutionDuration = FDuration 0"
| "zero_Config zero KServeLedgersFromDatastore = FBool False"
| "zero_Config zero KBufferedStorageBackendConfig = FStruct (zero KBufferedStorageBackendConfig)"
| "zero_Config zero KDataStoreConfig = FStruct (zero KDataStoreConfig)"

subsection \<open>The options\<close>

definition OneDayOfLedgers :: nat where "OneDayOfLedgers = 17280"
definition SevenDayOfLedgers :: nat where "SevenDayOfLedgers = OneDayOfLedgers * 7"
definition second :: int where "second = 10 ^ 9"
definition minute :: int where "minute = 60 * second"

definition option0 :: "'x ConfigOption" where
  "option0 = \<lparr>o_Name = '''', o_EnvVar = '''', o_TomlKey = '''', o_Usage = '''', o_DefaultValue = VNil,
     o_ConfigKey = KConfigPath, o_CustomSetValue = NoCustom, o_Validate = NoValidate, o_flag = None\<rparr>"

definition server_options :: "'x host \<Rightarrow> (config_key \<Rightarrow> string) \<Rightarrow> 'x ConfigOption list" where
  "server_options H usage = [
     option0\<lparr>o_Name := ''config-path'', o_EnvVar := ''SOROBAN_RPC_CONFIG_PATH'', o_TomlKey := ''-'',
       o_Usage := usage KConfigPath, o_ConfigKey := KConfigPath\<rparr>,
     option0\<lparr>o_Name := ''config-strict'', o_EnvVar := ''SOROBAN_RPC_CONFIG_STRICT'',
       o_TomlKey := ''STRICT'', o_Usage := usage KStrict, o_DefaultValue := VBool False,
       o_ConfigKey := KStrict\<rparr>,
     option0\<lparr>o_Name := ''endpoint'', o_Usage := usage KEndpoint,
       o_DefaultValue := VString ''localhost:8000'', o_ConfigKey := KEndpoint\<rparr>,
     option0\<lparr>o_Name := ''admin-endpoint'', o_Usage := usage KAdminEndpoint,
       o_ConfigKey := KAdminEndpoint\<rparr>,
     option0\<lparr>o_Name := ''stellar-core-url'', o_Usage := usage KStellarCoreURL,
       o_ConfigKey := KStellarCoreURL, o_Validate := DefaultCoreURL\<rparr>,
     option0\<lparr>o_Name := ''stellar-core-timeout'', o_Usage := usage KCoreRequestTimeout,
       o_DefaultValue := VDuration (2 * second), o_ConfigKey := KCoreRequestTimeout\<rparr>,
     option0\<lparr>o_Name := ''stellar-captive-core-http-port'', o_Usage := usage KCaptiveCoreHTTPPort,
       o_DefaultValue := VUint 11626, o_ConfigKey := KCaptiveCoreHTTPPort\<rparr>,
     option0\<lparr>o_Name := ''stellar-captive-core-http-query-port'',
       o_Usage := usage KCaptiveCoreHTTPQueryPort, o_DefaultValue := VUint 11628,
       o_ConfigKey := KCaptiveCoreHTTPQueryPort, o_Validate := ValidatePositive\<rparr>,
     option0\<lparr>o_Name := ''stellar-captive-core-http-query-thread-pool-size'',
       o_Usage := usage KCaptiveCoreHTTPQueryThreadPoolSize,
       o_DefaultValue := VUint (h_NumCPU H mod 2 ^ 16),
       o_ConfigKey := KCaptiveCoreHTTPQueryThreadPoolSize\<rparr>,
     option0\<lparr>o_Name := ''stellar-captive-core-http-query-snapshot-ledgers'',
       o_Usage := usage KCaptiveCoreHTTPQuerySnapshotLedgers, o_DefaultValue := VUint 4,
       o_ConfigKey := KCaptiveCoreHTTPQuerySnapshotLedgers\<rparr>,
     option0\<lparr>o_Name := ''log-level'', o_Usage := usage KLogLevel,
       o_DefaultValue := VLevel (h_InfoLevel H), o_ConfigKey := KLogLevel,
       o_CustomSetValue := SetLogLevel\<rparr>,
     option0\<lparr>o_Name := ''log-format'', o_Usage := usage KLogFormat,
       o_DefaultValue := VLogFormat LogFormatText, o_ConfigKey := KLogFormat,
       o_CustomSetValue := SetLogFormat\<rparr>,
     option0\<lparr>o_Name := ''stellar-core-binary-path'', o_Usage := usage KStellarCoreBinaryPath,
       o_DefaultValue := VString (h_LookPath H), o_ConfigKey := KStellarCoreBinaryPath,
       o_Validate := ValidateRequired\<rparr>,
     option0\<lparr>o_Name := ''captive-core-config-path'', o_Usage := usage KCaptiveCoreConfigPath,
       o_ConfigKey := KCaptiveCoreConfigPath, o_Validate := ValidateRequired\<rparr>]"

definition storage_options :: "'x host \<Rightarrow> (config_key \<Rightarrow> string) \<Rightarrow> 'x ConfigOption list" where
  "storage_options H usage = [
     option0\<lparr>o_Name := ''captive-core-storage-path'', o_Usage := usage KCaptiveCoreStoragePath,
       o_ConfigKey := KCaptiveCoreStoragePath, o_CustomSetValue := SetStoragePath\<rparr>,
     option0\<lparr>o_Name := ''history-archive-urls'', o_Usage := usage KHistoryArchiveURLs,
       o_ConfigKey := KHistoryArchiveURLs, o_Validate := ValidateRequired\<rparr>,
     option0\<lparr>o_Name := ''friendbot-url'', o_Usage := usage KFriendbotURL,
       o_ConfigKey := KFriendbotURL\<rparr>,
     option0\<lparr>o_Name := ''network-passphrase'', o_Usage := usage KNetworkPassphrase,
       o_ConfigKey := KNetworkPassphrase, o_Validate := ValidateRequired\<rparr>,
     option0\<lparr>o_Name := ''db-path'', o_Usage := usage KSQLiteDBPath,
       o_DefaultValue := VString ''soroban_rpc.sqlite'', o_ConfigKey := KSQLiteDBPath\<rparr>,
     option0\<lparr>o_Name := ''ingestion-timeout'', o_Usage := usage KIngestionTimeout,
       o_DefaultValue := VDuration (50 * minute), o_ConfigKey := KIngestionTimeout\<rparr>,
     option0\<lparr>o_Name := ''checkpoint-frequency'', o_Usage := usage KCheckpointFrequency,
       o_DefaultValue := VUint 64, o_ConfigKey := KCheckpointFrequency\<rparr>,
     option0\<lparr>o_Name := ''history-retention-window'', o_Usage := usage KHistoryRetentionWindow,
       o_DefaultValue := VUint SevenDayOfLedgers, o_ConfigKey := KHistoryRetentionWindow,
       o_Validate := ValidatePositive\<rparr>,
     option0\<lparr>o_Name := ''classic-fee-stats-retention-window'',
       o_Usage := usage KClassicFeeStatsLedgerRetentionWindow, o_DefaultValue := VUint 10,
       o_ConfigKey := KClassicFeeStatsLedgerRetentionWindow, o_Validate := ValidatePositive\<rparr>,
     option0\<lparr>o_Name := ''soroban-fee-stats-retention-window'',
       o_Usage := usage KSorobanFeeStatsLedgerRetentionWindow, o_DefaultValue := VUint 50,
       o_ConfigKey := KSorobanFeeStatsLedgerRetentionWindow, o_Validate := ValidatePositive\<rparr>,
     option0\<lparr>o_Name := ''max-events-limit'', o_Usage := usage KMaxEventsLimit,
       o_DefaultValue := VUint 10000, o_ConfigKey := KMaxEventsLimit\<rparr>,
     option0\<lparr>o_Name := ''default-events-limit'', o_Usage := usage KDefaultEventsLimit,
       o_DefaultValue := VUint 100, o_ConfigKey := KDefaultEventsLimit,
       o_Validate := NotAbove KDefaultEventsLimit KMaxEventsLimit ''default-events-limit'' ''max-events-limit''\<rparr>,
     option0\<lparr>o_Name := ''max-transactions-limit'', o_Usage := usage KMaxTransactionsLimit,
       o_DefaultValue := VUint 200, o_ConfigKey := KMaxTransactionsLimit\<rparr>,
     option0\<lparr>o_Name := ''default-transactions-limit'', o_Usage := usage KDefaultTransactionsLimit,
       o_DefaultValue := VUint 50, o_ConfigKey := KDefaultTransactionsLimit,
       o_Validate := NotAbove KDefaultTransactionsLimit KMaxTransactionsLimit ''default-transactions-limit'' ''max-transactions-limit''\<rparr>,
     option0\<lparr>o_Name := ''max-ledgers-limit'', o_Usage := usage KMaxLedgersLimit,
       o_DefaultValue := VUint 200, o_ConfigKey := KMaxLedgersLimit\<rparr>]"

definition queue_options :: "'x host \<Rightarrow> (config_key \<Rightarrow> string) \<Rightarrow> 'x ConfigOption list" where
  "queue_options H usage = [
     option0\<lparr>o_Name := ''default-ledgers-limit'', o_Usage := usage KDefaultLedgersLimit,
       o_DefaultValue := VUint 50, o_ConfigKey := KDefaultLedgersLimit,
       o_Validate := NotAbove KDefaultLedgersLimit KMaxLedgersLimit ''default-ledgers-limit'' ''max-ledgers-limit''\<rparr>,
     option0\<lparr>o_Name := ''max-healthy-ledger-latency'', o_Usage := usage KMaxHealthyLedgerLatency,
       o_DefaultValue := VDuration (30 * second), o_ConfigKey := KMaxHealthyLedgerLatency\<rparr>,
     option0\<lparr>o_Name := ''preflight-worker-count'', o_Usage := usage KPreflightWorkerCount,
       o_DefaultValue := VUint (h_NumCPU H), o_ConfigKey := KPreflightWorkerCount,
       o_Validate := ValidatePositive\<rparr>,
     option0\<lparr>o_Name := ''preflight-worker-queue-size'', o_Usage := usage KPreflightWorkerQueueSize,
       o_DefaultValue := VUint (h_NumCPU H), o_ConfigKey := KPreflightWorkerQueueSize,
       o_Validate := ValidatePositive\<rparr>,
     option0\<lparr>o_Name := ''preflight-enable-debug'', o_Usage := usage KPreflightEnableDebug,
       o_DefaultValue := VBool True, o_ConfigKey := KPreflightEnableDebug\<rparr>,
     option0\<lparr>o_TomlKey := h_KebabToConstantCase H ''request-backlog-global-queue-limit'',
       o_Usage := usage KRequestBacklogGlobalQueueLimit, o_DefaultValue := VUint 5000,
       o_ConfigKey := KRequestBacklogGlobalQueueLimit, o_Validate := ValidatePositive\<rparr>,
     option0\<lparr>o_TomlKey := h_KebabToConstantCase H ''request-backlog-get-health-queue-limit'',
       o_Usage := usage KRequestBacklogGetHealthQueueLimit, o_DefaultValue := VUint 1000,
       o_ConfigKey := KRequestBacklogGetHealthQueueLimit, o_Validate := ValidatePositive\<rparr>,
     option0\<lparr>o_TomlKey := h_KebabToConstantCase H ''request-backlog-get-events-queue-limit'',
       o_Usage := usage KRequestBacklogGetEventsQueueLimit, o_DefaultValue := VUint 1000,
       o_ConfigKey := KRequestBacklogGetEventsQueueLimit, o_Validate := ValidatePositive\<rparr>,
     option0\<lparr>o_TomlKey := h_KebabToConstantCase H ''request-backlog-get-network-queue-limit'',
       o_Usage := usage KRequestBacklogGetNetworkQueueLimit, o_DefaultValue := VUint 1000,
       o_ConfigKey := KRequestBacklogGetNetworkQueueLimit, o_Validate := ValidatePositive\<rparr>,
     option0\<lparr>o_TomlKey := h_KebabToConstantCase H ''request-backlog-get-version-info-queue-limit'',
       o_Usage := usage KRequestBacklogGetVersionInfoQueueLimit, o_DefaultValue := VUint 1000,
       o_ConfigKey := KRequestBacklogGetVersionInfoQueueLimit, o_Validate := ValidatePositive\<rparr>,
     option0\<lparr>o_TomlKey := h_KebabToConstantCase H ''request-backlog-get-latest-ledger-queue-limit'',
       o_Usage := usage KRequestBacklogGetLatestLedgerQueueLimit, o_DefaultValue := VUint 1000,
       o_ConfigKey := KRequestBacklogGetLatestLedgerQueueLimit, o_Validate := ValidatePositive\<rparr>,
     option0\<lparr>o_TomlKey := h_KebabToConstantCase H ''request-backlog-get-ledger-entries-queue-limit'',
       o_Usage := usage KRequestBacklogGetLedgerEntriesQueueLimit, o_DefaultValue := VUint 1000,
       o_ConfigKey := KRequestBacklogGetLedgerEntriesQueueLimit, o_Validate := ValidatePositive\<rparr>,
     option0\<lparr>o_TomlKey := h_KebabToConstantCase H ''request-backlog-get-transaction-queue-limit'',
       o_Usage := usage KRequestBacklogGetTransactionQueueLimit, o_DefaultValue := VUint 1000,
       o_ConfigKey := KRequestBacklogGetTransactionQueueLimit, o_Validate := ValidatePositive\<rparr>,
     option0\<lparr>o_TomlKey := h_KebabToConstantCase H ''request-backlog-get-transactions-queue-limit'',
       o_Usage := usage KRequestBacklogGetTransactionsQueueLimit, o_DefaultValue := VUint 1000,
       o_ConfigKey := KRequestBacklogGetTransactionsQueueLimit, o_Validate := ValidatePositive\<rparr>,
     option0\<lparr>o_TomlKey := h_KebabToConstantCase H ''request-backlog-get-ledgers-queue-limit'',
       o_Usage := usage KRequestBacklogGetLedgersQueueLimit, o_DefaultValue := VUint 1000,
       o_ConfigKey := KRequestBacklogGetLedgersQueueLimit, o_Validate := ValidatePositive\<rparr>,
     option0\<lparr>o_TomlKey := h_KebabToConstantCase H ''request-backlog-send-transaction-queue-limit'',
       o_Usage := usage KRequestBacklogSendTransactionQueueLimit, o_DefaultValue := VUint 500,
       o_ConfigKey := KRequestBacklogSendTransactionQueueLimit, o_Validate := ValidatePositive\<rparr>,
     option0\<lparr>o_TomlKey := h_KebabToConstantCase H ''request-backlog-simulate-transaction-queue-limit'',
       o_Usage := usage KRequestBacklogSimulateTransactionQueueLimit, o_DefaultValue := VUint 100,
       o_ConfigKey := KRequestBacklogSimulateTransactionQueueLimit, o_Validate := ValidatePositive\<rparr>,
     option0\<lparr>o_TomlKey := h_KebabToConstantCase H ''request-backlog-get-fee-stats-queue-limit'',
       o_Usage := usage KRequestBacklogGetFeeStatsTransactionQueueLimit, o_DefaultValue := VUint 100,
       o_ConfigKey := KRequestBacklogGetFeeStatsTransactionQueueLimit, o_Validate := ValidatePositive\<rparr>,
     option0\<lparr>o_TomlKey := h_KebabToConstantCase H ''request-execution-warning-threshold'',
       o_Usage := usage KRequestExecutionWarningThreshold, o_DefaultValue := VDuration (5 * second),
       o_ConfigKey := KRequestExecutionWarningThreshold\<rparr>,
     option0\<lparr>o_TomlKey := h_KebabToConstantCase H ''max-request-execution-duration'',
       o_Usage := usage KMaxRequestExecutionDuration, o_DefaultValue := VDuration (25 * second),
       o_ConfigKey := KMaxRequestExecutionDuration\<rparr>]"

definition duration_options :: "'x host \<Rightarrow> (config_key \<Rightarrow> string) \<Rightarrow> 'x ConfigOption list" where
  "duration_options H usage = [
     option0\<lparr>o_TomlKey := h_KebabToConstantCase H ''max-get-health-execution-duration'',
       o_Usage := usage KMaxGetHealthExecutionDuration, o_DefaultValue := VDuration (5 * second),
       o_ConfigKey := KMaxGetHealthExecutionDuration\<rparr>,
     option0\<lparr>o_TomlKey := h_KebabToConstantCase H ''max-get_events-execution-duration'',
       o_Usage := usage KMaxGetEventsExecutionDuration, o_DefaultValue := VDuration (10 * second),
       o_ConfigKey := KMaxGetEventsExecutionDuration\<rparr>,
     option0\<lparr>o_TomlKey := h_KebabToConstantCase H ''max-get-network-execution-duration'',
       o_Usage := usage KMaxGetNetworkExecutionDuration, o_DefaultValue := VDuration (5 * second),
       o_ConfigKey := KMaxGetNetworkExecutionDuration\<rparr>,
     option0\<lparr>o_TomlKey := h_KebabToConstantCase H ''max-get-version-info-execution-duration'',
       o_Usage := usage KMaxGetVersionInfoExecutionDuration, o_DefaultValue := VDuration (5 * second),
       o_ConfigKey := KMaxGetVersionInfoExecutionDuration\<rparr>,
     option0\<lparr>o_TomlKey := h_KebabToConstantCase H ''max-get-latest-ledger-execution-duration'',
       o_Usage := usage KMaxGetLatestLedgerExecutionDuration, o_DefaultValue := VDuration (5 * second),
       o_ConfigKey := KMaxGetLatestLedgerExecutionDuration\<rparr>,
     option0\<lparr>o_TomlKey := h_KebabToConstantCase H ''max-get_ledger-entries-execution-duration'',
       o_Usage := usage KMaxGetLedgerEntriesExecutionDuration, o_DefaultValue := VDuration (5 * second),
       o_ConfigKey := KMaxGetLedgerEntriesExecutionDuration\<rparr>,
     option0\<lparr>o_TomlKey := h_KebabToConstantCase H ''max-get-transaction-execution-duration'',
       o_Usage := usage KMaxGetTransactionExecutionDuration, o_DefaultValue := VDuration (5 * second),
       o_ConfigKey := KMaxGetTransactionExecutionDuration\<rparr>,
     option0\<lparr>o_TomlKey := h_KebabToConstantCase H ''max-get-transactions-execution-duration'',
       o_Usage := usage KMaxGetTransactionsExecutionDuration, o_DefaultValue := VDuration (5 * second),
       o_ConfigKey := KMaxGetTransactionsExecutionDuration\<rparr>,
     option0\<lparr>o_TomlKey := h_KebabToConstantCase H ''max-get-ledgers-execution-duration'',
       o_Usage := usage KMaxGetLedgersExecutionDuration, o_DefaultValue := VDuration (10 * second),
       o_ConfigKey := KMaxGetLedgersExecutionDuration\<rparr>,
     option0\<lparr>o_TomlKey := h_KebabToConstantCase H ''max-send-transaction-execution-duration'',
       o_Usage := usage KMaxSendTransactionExecutionDuration, o_DefaultValue := VDuration (15 * second),
       o_ConfigKey := KMaxSendTransactionExecutionDuration\<rparr>,
     option0\<lparr>o_TomlKey := h_KebabToConstantCase H ''max-simulate-transaction-execution-duration'',
       o_Usage := usage KMaxSimulateTransactionExecutionDuration, o_DefaultValue := VDuration (15 * second),
       o_ConfigKey := KMaxSimulateTransactionExecutionDuration\<rparr>,
     option0\<lparr>o_TomlKey := h_KebabToConstantCase H ''max-get-fee-stats-execution-duration'',
       o_Usage := usage KMaxGetFeeStatsExecutionDuration, o_DefaultValue := VDuration (5 * second),
       o_ConfigKey := KMaxGetFeeStatsExecutionDuration\<rparr>,
     option0\<lparr>o_Name := ''serve-ledgers-from-datastore'',
       o_TomlKey := h_KebabToConstantCase H ''serve-ledgers-from-datastore'',
       o_Usage := usage KServeLedgersFromDatastore, o_DefaultValue := VBool False,
       o_ConfigKey := KServeLedgersFromDatastore\<rparr>,
     option0\<lparr>o_TomlKey := ''buffered_storage_backend_config'',
       o_Usage := usage KBufferedStorageBackendConfig, o_ConfigKey := KBufferedStorageBackendConfig,
       o_CustomSetValue := SetTree ''buffered_storage_backend_config''\<rparr>,
     option0\<lparr>o_TomlKey := ''datastore_config'', o_Usage := usage KDataStoreConfig,
       o_ConfigKey := KDataStoreConfig, o_CustomSetValue := SetTree ''datastore_config''\<rparr>]"

definition options :: "'x host \<Rightarrow> (config_key \<Rightarrow> string) \<Rightarrow> 'x ConfigOption list" where
  "options H usage =
     server_options H usage @ storage_options H usage @ queue_options H usage @ duration_options H usage"

definition Validate :: "'x host \<Rightarrow> (config_key \<Rightarrow> string) \<Rightarrow> 'x fields \<Rightarrow> 'x fields res" where
  "Validate H usage cfg = Options_Validate H (options H usage) cfg"

subsection \<open>Writing a configuration file\<close>

text \<open>\<^verbatim>\<open>strings.Fields(strings.TrimSpace(text))\<close> on ASCII text.\<close>

function Fields :: "string \<Rightarrow> string list" where
  "Fields s =
     (let r = dropWhile is_space s in
      if r = [] then [] else takeWhile (\<lambda>c. \<not> is_space c) r # Fields (dropWhile (\<lambda>c. \<not> is_space c) r))"
  by pat_completeness auto

lemma Fields_shorter:
  assumes "dropWhile is_space s \<noteq> []"
  shows "length (dropWhile (\<lambda>c. \<not> is_space c) (dropWhile is_space s)) < length s"
  using assms length_dropWhile_le [of is_space s] hd_dropWhile [OF assms]
  by (intro dropWhile_shorter) (auto simp: takeWhile_eq_Nil_iff)

termination Fields
  by (relation "measure length") (auto simp: Fields_shorter)

declare Fields.simps [simp del]

fun wrap_words :: "int \<Rightarrow> int \<Rightarrow> string list \<Rightarrow> string" where
  "wrap_words lineWidth spaceLeft [] = []"
| "wrap_words lineWidth spaceLeft (word # ws) =
     (if int (length word) + 1 > spaceLeft
      then CHR 0x0A # word @ wrap_words lineWidth (lineWidth - int (length word)) ws
      else CHR 0x20 # word @ wrap_words lineWidth (spaceLeft - (1 + int (length word))) ws)"

definition wordWrap :: "string \<Rightarrow> int \<Rightarrow> string" where
  "wordWrap t lineWidth =
     (case Fields t of
        [] \<Rightarrow> t
      | w # ws \<Rightarrow> w @ wrap_words lineWidth (lineWidth - int (length w)) ws)"

text \<open>The value written for an option: bytes, a text, a table, or a field the package encodes.\<close>

datatype 'x toml_out = TBytes string | TText string | TTree 'x | TField "'x field"

definition option_marshalTOML :: "'x host \<Rightarrow> 'x ConfigOption \<Rightarrow> 'x field \<Rightarrow> 'x toml_out res" where
  "option_marshalTOML H opt f =
     (case (o_CustomSetValue opt, f) of
        (SetLogLevel, FLevel l) \<Rightarrow> Inr (TText (h_LevelString H l))
      | (SetLogFormat, FLogFormat l) \<Rightarrow> bind_res (LogFormat_String l) (\<lambda>s. Inr (TText s))
      | (SetTree configName, _) \<Rightarrow>
          bind_res (map_err (wrap_err (''failed to marshal '' @ configName @ '': '')) (h_DefaultTree H configName))
            (\<lambda>t. Inr (TTree t))
      | (_, FInt _ n) \<Rightarrow> Inr (TBytes (itoa n))
      | (_, FUint _ n) \<Rightarrow> Inr (TBytes (itoa (int n)))
      | (_, FUint64 n) \<Rightarrow> Inr (TBytes (itoa (int n)))
      | (_, FDuration d) \<Rightarrow> Inr (TText (Duration_String d))
      | _ \<Rightarrow> Inr (TField f))"

definition maxLineWidth :: int where "maxLineWidth = 80"
definition commentIndent :: int where "commentIndent = 2"

record 'x toml_entry =
  te_key :: string
  te_comment :: string
  te_commented :: bool
  te_value :: "'x toml_out"

fun newline_indent :: "string \<Rightarrow> string" where
  "newline_indent [] = []"
| "newline_indent (c # cs) = (if c = CHR 0x0A then [c, CHR 0x20] else [c]) @ newline_indent cs"

text \<open>\<^verbatim>\<open>Config.MarshalTOML\<close> up to the printing of the tree: the entries it sets, in order.\<close>

fun MarshalTOML :: "'x host \<Rightarrow> 'x ConfigOption list \<Rightarrow> 'x fields \<Rightarrow> ('x toml_entry list) res" where
  "MarshalTOML H [] cfg = Inr []"
| "MarshalTOML H (opt # opts) cfg =
     (case getTomlKey H opt of
        None \<Rightarrow> MarshalTOML H opts cfg
      | Some key \<Rightarrow>
          bind_res (option_marshalTOML H opt (cfg (o_ConfigKey opt))) (\<lambda>v.
          bind_res (MarshalTOML H opts cfg) (\<lambda>es.
            Inr (\<lparr>te_key = key,
                  te_comment = newline_indent (wordWrap (o_Usage opt) (maxLineWidth - commentIndent)),
                  te_commented = field_IsZero H (cfg (o_ConfigKey opt)), te_value = v\<rparr> # es))))"

end
