(* ===== verification/ConfigProps.thy ===== *)
theory ConfigProps
  imports ConfigTable
begin

text \<open>Properties of the configuration: precedence of the sources, validation, text formats.\<close>

subsection \<open>One pass over the options\<close>

text \<open>The type of a field, with the width of its integers.\<close>

fun field_type :: "'x field \<Rightarrow> nat \<times> nat" where
  "field_type (FBool _) = (0, 0)"
| "field_type (FInt w _) = (1, w)"
| "field_type (FUint w _) = (2, w)"
| "field_type (FUint64 _) = (3, 0)"
| "field_type (FFloat _) = (4, 0)"
| "field_type (FString _) = (5, 0)"
| "field_type (FStrings _) = (6, 0)"
| "field_type (FDuration _) = (7, 0)"
| "field_type (FLevel _) = (8, 0)"
| "field_type (FLogFormat _) = (9, 0)"
| "field_type (FStruct _) = (10, 0)"

lemma parser_for_overwrites:
  assumes "field_type f = field_type g" and "i \<noteq> VNil"
  shows "parser_for H name f i = parser_for H name g i"
  using assms
  by (cases f; cases g; simp add: parser_for_def; cases i;
      simp add: parseInt_text_def parseUint_text_def parseUint32_text_def parseDuration_def parseStringSlice_def
        cong: if_cong)

lemma parser_for_type:
  assumes "parser_for H name f i = Inr f'"
  shows "field_type f' = field_type f"
  using assms
  by (cases f; simp add: parser_for_def; cases i;
      auto simp: parseInt_text_def parseUint_text_def parseUint32_text_def parseFloat_text_def parseDuration_def
        parseStringSlice_def bind_res_Inr_iff split: option.splits if_splits)

text \<open>The custom setters are used on fields of their own type.\<close>

fun setter_fits :: "custom_set \<Rightarrow> nat \<times> nat \<Rightarrow> bool" where
  "setter_fits NoCustom t = True"
| "setter_fits SetLogLevel t = (t = (8, 0))"
| "setter_fits SetLogFormat t = (t = (9, 0))"
| "setter_fits SetStoragePath t = (t = (5, 0))"
| "setter_fits (SetTree _) t = False"

lemma custom_overwrites:
  assumes "i \<noteq> VNil"
  shows "set_log_level H name i f = set_log_level H name i g" "set_log_format H name i f = set_log_format H name i g"
  using assms by (cases i; simp add: set_log_level_def set_log_format_def)+

lemma new_field_overwrites:
  assumes "field_type f = field_type g" and "i \<noteq> VNil" and "setter_fits (o_CustomSetValue opt) (field_type g)"
  shows "new_field H opt i f = new_field H opt i g"
  using assms parser_for_overwrites [OF assms(1,2)] custom_overwrites [OF assms(2)]
  by (cases "o_CustomSetValue opt") (auto simp: new_field_def)

lemma custom_type:
  "set_log_level H name i f = Inr f' \<Longrightarrow> field_type f = (8, 0) \<Longrightarrow> field_type f' = (8, 0)"
  "set_log_format H name i f = Inr f' \<Longrightarrow> field_type f = (9, 0) \<Longrightarrow> field_type f' = (9, 0)"
  "set_storage_path H name i = Inr f' \<Longrightarrow> field_type f' = (5, 0)"
  by (cases i; auto simp: set_log_level_def set_log_format_def set_storage_path_def Let_def bind_res_Inr_iff
      split: sum.splits if_splits)+

lemma new_field_type:
  assumes "new_field H opt i f = Inr f'" and "setter_fits (o_CustomSetValue opt) (field_type f)"
  shows "field_type f' = field_type f"
proof (cases "o_CustomSetValue opt")
  case NoCustom
  then show ?thesis using assms by (simp add: new_field_def parser_for_type)
qed (use assms custom_type in \<open>auto simp: new_field_def\<close>)

lemma setValue_Inr:
  "setValue H opt i cfg = Inr cfg' \<longleftrightarrow>
     (\<exists>f. new_field H opt i (cfg (o_ConfigKey opt)) = Inr f \<and> cfg' = cfg(o_ConfigKey opt := f))"
  by (auto simp: setValue_def bind_res_Inr_iff)

lemma load_from_other:
  assumes "load_from H source opts cfg = Inr cfg'" and "key \<notin> o_ConfigKey ` set opts"
  shows "cfg' key = cfg key"
  using assms
proof (induction opts arbitrary: cfg)
  case (Cons opt opts)
  then show ?case by (auto simp: bind_res_Inr_iff setValue_Inr split: option.splits)
qed simp

text \<open>What a pass leaves in the field of an option.\<close>

definition loaded ::
  "'x host \<Rightarrow> ('x ConfigOption \<Rightarrow> 'x go_val option res) \<Rightarrow> 'x ConfigOption \<Rightarrow> 'x field \<Rightarrow> 'x field \<Rightarrow> bool" where
  "loaded H source opt old new \<longleftrightarrow>
     source opt = Inr None \<and> new = old \<or> (\<exists>v. source opt = Inr (Some v) \<and> new_field H opt v old = Inr new)"

lemma load_from_loaded:
  assumes "load_from H source opts cfg = Inr cfg'" and "opt \<in> set opts" and "distinct (map o_ConfigKey opts)"
  shows "loaded H source opt (cfg (o_ConfigKey opt)) (cfg' (o_ConfigKey opt))"
  using assms
proof (induction opts arbitrary: cfg)
  case (Cons first rest)
  show ?case
  proof (cases "opt = first")
    case True
    then have "o_ConfigKey opt \<notin> o_ConfigKey ` set rest" using Cons.prems(3) by auto
    with True Cons.prems(1) show ?thesis
      by (cases "source first"; auto simp: loaded_def bind_res_Inr_iff setValue_Inr load_from_other split: option.splits)
  next
    case False
    then have opt: "opt \<in> set rest" using Cons.prems(2) by simp
    moreover have "o_ConfigKey first \<notin> o_ConfigKey ` set rest" using Cons.prems(3) by simp
    ultimately have other: "o_ConfigKey opt \<noteq> o_ConfigKey first" by (metis imageI)
    obtain cfg1 where "load_from H source rest cfg1 = Inr cfg'" "cfg1 (o_ConfigKey opt) = cfg (o_ConfigKey opt)"
      using Cons.prems(1) other by (auto simp: bind_res_Inr_iff setValue_Inr split: option.splits)
    with Cons.IH [OF this(1) opt] Cons.prems(3) show ?thesis by simp
  qed
qed simp

subsection \<open>Precedence\<close>

text \<open>The field of an option after a pass, in terms of a reference field of the same type.\<close>

definition settle :: "'x host \<Rightarrow> 'x ConfigOption \<Rightarrow> 'x field \<Rightarrow> 'x go_val option \<Rightarrow> 'x field res \<Rightarrow> 'x field res" where
  "settle H opt g v old = (case v of None \<Rightarrow> old | Some i \<Rightarrow> new_field H opt i g)"

text \<open>A source of values: it never yields nil, which the parsers take as no value.\<close>

locale value_source =
  fixes source :: "'x ConfigOption \<Rightarrow> 'x go_val option res"
  assumes nonnil: "source opt \<noteq> Inr (Some VNil)"
begin

lemma loaded_settle:
  assumes "loaded H source opt old new" and "field_type old = field_type g"
    and "setter_fits (o_CustomSetValue opt) (field_type g)"
  shows "Inr new = settle H opt g (projr (source opt)) (Inr old) \<and> field_type new = field_type g"
  using assms(1) unfolding loaded_def
proof (elim disjE exE conjE)
  fix v
  assume *: "source opt = Inr (Some v)" "new_field H opt v old = Inr new"
  have "v \<noteq> VNil" using *(1) nonnil by auto
  with * assms(2,3) have "new_field H opt v g = Inr new" "field_type new = field_type g"
    using new_field_overwrites [of old g v opt H] new_field_type [of H opt v old new] by auto
  with * show ?thesis by (simp add: settle_def)
qed (use assms(2) in \<open>simp add: settle_def\<close>)

lemma pass_settles:
  assumes "load_from H source opts cfg = Inr cfg'" and "opt \<in> set opts" and "distinct (map o_ConfigKey opts)"
    and "setter_fits (o_CustomSetValue opt) (field_type g)" and "field_type (cfg (o_ConfigKey opt)) = field_type g"
  shows "Inr (cfg' (o_ConfigKey opt)) = settle H opt g (projr (source opt)) (Inr (cfg (o_ConfigKey opt))) \<and>
    field_type (cfg' (o_ConfigKey opt)) = field_type g"
  using loaded_settle [OF load_from_loaded [OF assms(1-3)] assms(5,4)] .

end

interpretation defaults: value_source from_defaults
  by unfold_locales (simp add: from_defaults_def)

interpretation env: value_source "from_env H lookupEnv" for H :: "'x host" and lookupEnv
  by unfold_locales (auto simp: from_env_def split: option.splits)

interpretation toml: value_source "from_toml H tree" for H :: "'x host" and tree
  by unfold_locales (auto simp: from_toml_def split: option.splits)

interpretation flags: value_source "from_flags fl" for fl :: "'x flagset"
  by unfold_locales (auto simp: from_flags_def GetFlag_def bind_res_Inr_iff default_fits_def Let_def
      split: option.splits if_splits go_val.splits field.splits)

text \<open>The value of the highest source that has one: flag, environment, file, default.\<close>

definition effective_value ::
  "'x host \<Rightarrow> (string \<rightharpoonup> string) \<Rightarrow> 'x flagset \<Rightarrow> 'x toml_tree option \<Rightarrow> 'x ConfigOption \<Rightarrow> 'x go_val option" where
  "effective_value H lookupEnv fl tree opt =
     (case projr (from_flags fl opt) of Some v \<Rightarrow> Some v
      | None \<Rightarrow> (case projr (from_env H lookupEnv opt) of Some v \<Rightarrow> Some v
      | None \<Rightarrow> (case Option.bind tree (\<lambda>t. projr (from_toml H t opt)) of Some v \<Rightarrow> Some v
      | None \<Rightarrow> projr (from_defaults opt))))"

text \<open>The document of the configuration file, if the configuration names one.\<close>

definition config_tree :: "(string \<Rightarrow> 'x toml_tree res) \<Rightarrow> 'x fields \<Rightarrow> 'x toml_tree option" where
  "config_tree open_toml cfg =
     (case cfg KConfigPath of
        FString path \<Rightarrow> if path = '''' then None else Some (projr (open_toml path))
      | _ \<Rightarrow> None)"

lemma parseToml_load:
  "parseToml H tree strict opts cfg = Inr cfg' \<Longrightarrow> load_from H (from_toml H tree) opts cfg = Inr cfg'"
  by (auto simp: parseToml_def bind_res_Inr_iff Let_def split: if_splits option.splits)

lemma settle_chain:
  "settle H opt g (projr (from_flags fl opt)) (settle H opt g (projr (from_env H lookupEnv opt))
     (settle H opt g (projr (from_defaults opt)) old)) = settle H opt g (effective_value H lookupEnv fl None opt) old"
  "settle H opt g (projr (from_flags fl opt)) (settle H opt g (projr (from_env H lookupEnv opt))
     (settle H opt g (projr (from_toml H t opt))
       (settle H opt g (effective_value H lookupEnv fl None opt) old))) =
   settle H opt g (effective_value H lookupEnv fl (Some t) opt) old"
  by (auto simp: settle_def effective_value_def split: option.splits)

lemma first_loads:
  assumes "loadDefaults H opts cfg = Inr cfg1" and "loadEnv H lookupEnv opts cfg1 = Inr cfg2"
    and "loadFlags H fl opts cfg2 = Inr cfg3" and "opt \<in> set opts" and "distinct (map o_ConfigKey opts)"
    and "KHistoryArchiveUserAgent \<notin> o_ConfigKey ` set opts"
    and "setter_fits (o_CustomSetValue opt) (field_type g)" and "cfg (o_ConfigKey opt) = g"
  shows "Inr (cfg3 (o_ConfigKey opt)) = settle H opt g (effective_value H lookupEnv fl None opt) (Inr g) \<and>
    field_type (cfg3 (o_ConfigKey opt)) = field_type g"
proof -
  note s = assms(4,5,7)
  obtain cfg0 where c0: "load_from H from_defaults opts cfg = Inr cfg0"
    and c1: "cfg1 = cfg0(KHistoryArchiveUserAgent := FString (''stellar-rpc/'' @ h_Version H))"
    using assms(1) by (auto simp: loadDefaults_def bind_res_Inr_iff)
  have "o_ConfigKey opt \<noteq> KHistoryArchiveUserAgent" using assms(4,6) by (metis imageI)
  then have "cfg1 (o_ConfigKey opt) = cfg0 (o_ConfigKey opt)" by (simp add: c1)
  then have 1: "Inr (cfg1 (o_ConfigKey opt)) = settle H opt g (projr (from_defaults opt)) (Inr g)"
    "field_type (cfg1 (o_ConfigKey opt)) = field_type g"
    using defaults.pass_settles [OF c0 s] assms(8) by auto
  note 2 = env.pass_settles [OF assms(2) [unfolded loadEnv_def] s 1(2)]
  note 3 = flags.pass_settles [OF assms(3) [unfolded loadFlags_def] s conjunct2 [OF 2]]
  show ?thesis using 1(1) 2 3 settle_chain(1) [of H opt g fl lookupEnv "Inr g"] by metis
qed

lemma file_loads:
  assumes "loadConfigPath H open_toml opts path cfg3 = Inr cfg4" and "loadEnv H lookupEnv opts cfg4 = Inr cfg5"
    and "loadFlags H fl opts cfg5 = Inr cfg6" and "opt \<in> set opts" and "distinct (map o_ConfigKey opts)"
    and "setter_fits (o_CustomSetValue opt) (field_type g)"
    and "Inr (cfg3 (o_ConfigKey opt)) = settle H opt g (effective_value H lookupEnv fl None opt) (Inr g) \<and>
      field_type (cfg3 (o_ConfigKey opt)) = field_type g"
  shows "Inr (cfg6 (o_ConfigKey opt)) =
    settle H opt g (effective_value H lookupEnv fl (Some (projr (open_toml path))) opt) (Inr g)"
proof -
  note s = assms(4-6)
  obtain tree where tree: "open_toml path = Inr tree" and load: "load_from H (from_toml H tree) opts cfg3 = Inr cfg4"
    using assms(1) by (auto simp: loadConfigPath_def bind_res_Inr_iff dest: parseToml_load)
  note 4 = toml.pass_settles [OF load s conjunct2 [OF assms(7)]]
  note 5 = env.pass_settles [OF assms(2) [unfolded loadEnv_def] s conjunct2 [OF 4]]
  note 6 = flags.pass_settles [OF assms(3) [unfolded loadFlags_def] s conjunct2 [OF 5]]
  show ?thesis using 4 5 6 tree assms(7) settle_chain(2) [of H opt g fl lookupEnv tree "Inr g"] by (metis sum.sel(2))
qed

lemma string_field: "field_type f = (5, 0) \<Longrightarrow> \<exists>q. f = FString q"
  by (cases f) auto

lemma SetValues_effective:
  assumes run: "SetValues H lookupEnv fl open_toml opts cfg = Inr cfg'" and keys: "distinct (map o_ConfigKey opts)"
    and agent: "KHistoryArchiveUserAgent \<notin> o_ConfigKey ` set opts"
    and path: "pathopt \<in> set opts" "o_ConfigKey pathopt = KConfigPath" "o_TomlKey pathopt = ''-''"
      "o_CustomSetValue pathopt = NoCustom" "cfg KConfigPath = FString p"
    and opt: "opt \<in> set opts" "setter_fits (o_CustomSetValue opt) (field_type (cfg (o_ConfigKey opt)))"
  shows "Inr (cfg' (o_ConfigKey opt)) = settle H opt (cfg (o_ConfigKey opt))
    (effective_value H lookupEnv fl (config_tree open_toml cfg') opt) (Inr (cfg (o_ConfigKey opt)))"
proof -
  obtain cfg1 cfg2 cfg3 where first: "loadDefaults H opts cfg = Inr cfg1" "loadEnv H lookupEnv opts cfg1 = Inr cfg2"
    "loadFlags H fl opts cfg2 = Inr cfg3"
    using run by (auto simp: SetValues_def bind_res_Inr_iff)
  note load = first_loads [OF first _ keys agent _ refl]
  have p3: "setter_fits (o_CustomSetValue pathopt) (field_type (cfg (o_ConfigKey pathopt)))"
    using path by simp
  then obtain q where q: "cfg3 KConfigPath = FString q"
    using load [OF path(1)] path by (auto dest!: string_field)
  show ?thesis
  proof (cases "q = ''''")
    case True
    then have "cfg' = cfg3" using run first q by (simp add: SetValues_def)
    with load [OF opt] q True show ?thesis by (simp add: config_tree_def)
  next
    case False
    then obtain cfg4 cfg5 where reload: "loadConfigPath H open_toml opts q cfg3 = Inr cfg4"
      "loadEnv H lookupEnv opts cfg4 = Inr cfg5" "loadFlags H fl opts cfg5 = Inr cfg'"
      using run first q by (auto simp: SetValues_def bind_res_Inr_iff)
    have "from_toml H t pathopt = Inr None" for t
      by (simp add: from_toml_def getTomlKey_def path(3))
    then have "effective_value H lookupEnv fl (Some t) pathopt = effective_value H lookupEnv fl None pathopt" for t
      by (simp add: effective_value_def split: option.split)
    then have "cfg' (o_ConfigKey pathopt) = cfg3 (o_ConfigKey pathopt)"
      using file_loads [OF reload path(1) keys p3 load [OF path(1) p3]] load [OF path(1) p3] by (metis sum.inject(2))
    then have "config_tree open_toml cfg' = Some (projr (open_toml q))" using q False path(2) by (simp add: config_tree_def)
    then show ?thesis using file_loads [OF reload opt(1) keys opt(2) load [OF opt]] by simp
  qed
qed

subsection \<open>The options table\<close>

lemmas options_defs = options_def server_options_def storage_options_def queue_options_def duration_options_def

lemma options_keys: "distinct (map o_ConfigKey (options H usage))"
  by (simp add: options_defs option0_def)

lemma options_no_agent: "KHistoryArchiveUserAgent \<notin> o_ConfigKey ` set (options H usage)"
  by (simp add: options_defs option0_def)

definition is_tree :: "'x ConfigOption \<Rightarrow> bool" where
  "is_tree opt \<longleftrightarrow> (\<exists>n. o_CustomSetValue opt = SetTree n)"

lemma options_fit:
  "list_all (\<lambda>opt. is_tree opt \<or> setter_fits (o_CustomSetValue opt) (field_type (zero_Config zero (o_ConfigKey opt))))
     (options H usage)"
  by (simp add: options_defs option0_def is_tree_def)

lemma AddFlag_keeps:
  assumes "AddFlag cfg opt = Inr opt'"
  shows "o_ConfigKey opt' = o_ConfigKey opt" "o_CustomSetValue opt' = o_CustomSetValue opt"
    "o_TomlKey opt' = o_TomlKey opt" "o_Name opt' = o_Name opt" "o_EnvVar opt' = o_EnvVar opt"
    "o_Validate opt' = o_Validate opt"
  using assms by (auto simp: AddFlag_def Let_def split: if_splits field.splits)

lemma AddFlags_keys: "AddFlags cfg opts = Inr opts' \<Longrightarrow> map o_ConfigKey opts' = map o_ConfigKey opts"
  by (auto simp: AddFlags_def traverse_Inr_iff list_all2_conv_all_nth AddFlag_keeps intro!: nth_equalityI)

lemma AddFlags_from:
  assumes "AddFlags cfg opts = Inr opts'"
  shows "opt' \<in> set opts' \<Longrightarrow> \<exists>opt \<in> set opts. AddFlag cfg opt = Inr opt'"
    and "opt \<in> set opts \<Longrightarrow> \<exists>opt' \<in> set opts'. AddFlag cfg opt = Inr opt'"
  using assms unfolding AddFlags_def traverse_Inr_iff list_all2_conv_all_nth
  by (metis in_set_conv_nth)+

lemma options_path:
  "option0\<lparr>o_Name := ''config-path'', o_EnvVar := ''SOROBAN_RPC_CONFIG_PATH'', o_TomlKey := ''-'',
     o_Usage := usage KConfigPath, o_ConfigKey := KConfigPath\<rparr> \<in> set (options H usage)"
  by (simp add: options_def server_options_def)

text \<open>C37: The sources of the configuration have a fixed precedence. When the options have been added
  to the command line and the values are loaded, the field of every option outside the two
  datastore tables holds the value of the first source that has one, in the order command line,
  environment, configuration file (if the configuration names one) and default, parsed for the
  type of the field; an option that no source sets keeps its zero value.\<close>

theorem configuration_precedence:
  assumes "AddFlags (zero_Config zero) (options H usage) = Inr opts"
    and "SetValues H lookupEnv fl open_toml opts (zero_Config zero) = Inr cfg"
    and "opt \<in> set opts" and "\<not> is_tree opt"
  shows "Inr (cfg (o_ConfigKey opt)) =
    (case effective_value H lookupEnv fl (config_tree open_toml cfg) opt of
       Some v \<Rightarrow> new_field H opt v (zero_Config zero (o_ConfigKey opt))
     | None \<Rightarrow> Inr (zero_Config zero (o_ConfigKey opt)))"
proof -
  have keys: "distinct (map o_ConfigKey opts)" "KHistoryArchiveUserAgent \<notin> o_ConfigKey ` set opts"
    using AddFlags_keys [OF assms(1)] options_keys [of H usage] options_no_agent [of H usage]
    by (simp, metis list.set_map)
  obtain path where path: "path \<in> set opts" "o_ConfigKey path = KConfigPath" "o_TomlKey path = ''-''"
    "o_CustomSetValue path = NoCustom"
    using AddFlags_from(2) [OF assms(1) options_path] by (auto simp: AddFlag_keeps option0_def)
  obtain opt0 where opt0: "opt0 \<in> set (options H usage)" "AddFlag (zero_Config zero) opt0 = Inr opt"
    using AddFlags_from(1) [OF assms(1,3)] by blast
  have "setter_fits (o_CustomSetValue opt) (field_type (zero_Config zero (o_ConfigKey opt)))"
    using options_fit [of zero H usage] opt0 assms(4) by (auto simp: list_all_iff is_tree_def AddFlag_keeps)
  from SetValues_effective [OF assms(2) keys path _ assms(3) this] show ?thesis
    by (simp add: settle_def)
qed

text \<open>The table loads from its defaults alone on every machine with a working directory.\<close>

lemma load_from_total:
  assumes "distinct (map o_ConfigKey opts)"
    and "\<forall>opt \<in> set opts. \<exists>v. source opt = Inr v \<and>
      (\<forall>i. v = Some i \<longrightarrow> \<not> isl (new_field H opt i (cfg (o_ConfigKey opt))))"
  shows "\<exists>cfg'. load_from H source opts cfg = Inr cfg'"
  using assms
proof (induction opts arbitrary: cfg)
  case (Cons opt opts)
  then obtain v where v: "source opt = Inr v" "\<And>i. v = Some i \<Longrightarrow> \<not> isl (new_field H opt i (cfg (o_ConfigKey opt)))"
    by auto
  show ?case
  proof (cases v)
    case None
    then show ?thesis using Cons v(1) by simp
  next
    case (Some i)
    then obtain f where f: "new_field H opt i (cfg (o_ConfigKey opt)) = Inr f"
      using v(2) by (auto simp: isl_def split: sum.splits) (metis isl_def sum.exhaust)
    have "o_ConfigKey opt \<notin> o_ConfigKey ` set opts" using Cons.prems(1) by simp
    then have "\<forall>x \<in> set opts. (cfg(o_ConfigKey opt := f)) (o_ConfigKey x) = cfg (o_ConfigKey x)"
      by (metis fun_upd_other imageI)
    then have "\<exists>cfg'. load_from H source opts (cfg(o_ConfigKey opt := f)) = Inr cfg'"
      using Cons.prems by (intro Cons.IH) auto
    then show ?thesis using v(1) Some f by (simp add: setValue_def)
  qed
qed simp

lemma parseUint32_text_number:
  assumes "0 \<le> x" and "x < 2 ^ 32"
  shows "parseUint32_text name (itoa x) (FUint w m) = Inr (FUint w (nat x mod 2 ^ w))"
proof -
  have "ParseUint 64 (itoa x) = Inr (nat x)" using ParseUint_sprintf0 [of x 64 0] assms by (simp add: itoa_def)
  moreover have "nat x < 2 ^ 32" using assms by simp
  ultimately show ?thesis by (simp add: parseUint32_text_def)
qed

definition default_loads :: "'x host \<Rightarrow> 'x fields \<Rightarrow> 'x ConfigOption \<Rightarrow> bool" where
  "default_loads H cfg opt =
     (case AddFlag cfg opt of
        Inl _ \<Rightarrow> False
      | Inr opt' \<Rightarrow> o_DefaultValue opt' = VNil \<or>
          \<not> isl (new_field H opt' (o_DefaultValue opt') (cfg (o_ConfigKey opt'))))"

lemmas default_loads_simps = default_loads_def AddFlag_def Let_def new_field_def parser_for_def flag_default_def
  default_fits_def parseUint32_text_number parseDuration_def parseStringSlice_def set_log_level_def set_log_format_def
  set_storage_path_def option0_def

lemma options_load:
  assumes "h_Getwd H = Inr d" and "h_NumCPU H < 2 ^ 32"
  shows "list_all (default_loads H (zero_Config zero)) (options H usage)"
proof -
  have "h_NumCPU H mod 65536 < 4294967296" by (simp add: order_less_trans [OF mod_less_divisor])
  then have "list_all (default_loads H (zero_Config zero)) (server_options H usage)"
    using assms by (simp add: server_options_def default_loads_simps)
  moreover have "list_all (default_loads H (zero_Config zero)) (storage_options H usage)"
    using assms by (simp add: storage_options_def default_loads_simps SevenDayOfLedgers_def OneDayOfLedgers_def)
  moreover have "list_all (default_loads H (zero_Config zero)) (queue_options H usage)"
    using assms by (simp add: queue_options_def default_loads_simps)
  moreover have "list_all (default_loads H (zero_Config zero)) (duration_options H usage)"
    using assms by (simp add: duration_options_def default_loads_simps)
  ultimately show ?thesis by (simp add: options_def)
qed

lemma traverse_succeeds: "list_all (\<lambda>x. \<not> isl (f x)) xs \<Longrightarrow> \<exists>ys. traverse f xs = Inr ys"
proof (induction xs)
  case (Cons x xs)
  then obtain ys where "traverse f xs = Inr ys" by auto
  moreover obtain y where "f x = Inr y" using Cons.prems by (cases "f x") auto
  ultimately show ?case by simp
qed simp

definition no_flags :: "'x flagset" where
  "no_flags = \<lparr>fs_Changed = (\<lambda>_. False), fs_Value = (\<lambda>_. VNil)\<rparr>"

lemma load_from_nothing:
  "(\<And>opt. opt \<in> set opts \<Longrightarrow> source opt = Inr None) \<Longrightarrow> load_from H source opts cfg = Inr cfg"
  by (induction opts) auto

lemma defaults_load:
  assumes "h_Getwd H = Inr d" and "h_NumCPU H < 2 ^ 32"
  obtains opts cfg where "AddFlags (zero_Config zero) (options H usage) = Inr opts"
    and "SetValues H Map.empty no_flags open_toml opts (zero_Config zero) = Inr cfg"
    and "cfg KConfigPath = FString ''''"
proof -
  note ok = options_load [OF assms, of zero usage]
  have "list_all (\<lambda>opt. \<not> isl (AddFlag (zero_Config zero) opt)) (options H usage)"
    using ok by (rule list.pred_mono_strong) (auto simp: default_loads_def split: sum.splits)
  then obtain opts where opts: "AddFlags (zero_Config zero) (options H usage) = Inr opts"
    using traverse_succeeds by (force simp: AddFlags_def)
  have keys: "distinct (map o_ConfigKey opts)" using AddFlags_keys [OF opts] options_keys [of H usage] by simp
  have "\<exists>cfg. load_from H from_defaults opts (zero_Config zero) = Inr cfg"
  proof (rule load_from_total [OF keys], intro ballI)
    fix opt
    assume "opt \<in> set opts"
    then obtain opt0 where "opt0 \<in> set (options H usage)" "AddFlag (zero_Config zero) opt0 = Inr opt"
      using AddFlags_from(1) [OF opts] by blast
    with ok show "\<exists>v. from_defaults opt = Inr v \<and>
        (\<forall>i. v = Some i \<longrightarrow> \<not> isl (new_field H opt i (zero_Config zero (o_ConfigKey opt))))"
      by (auto simp: list_all_iff default_loads_def from_defaults_def AddFlag_keeps split: sum.splits)
  qed
  then obtain cfg0 where c0: "load_from H from_defaults opts (zero_Config zero) = Inr cfg0" by blast
  define cfg1 where "cfg1 = cfg0(KHistoryArchiveUserAgent := FString (''stellar-rpc/'' @ h_Version H))"
  have loads: "loadDefaults H opts (zero_Config zero) = Inr cfg1" "loadEnv H Map.empty opts cfg1 = Inr cfg1"
    "loadFlags H no_flags opts cfg1 = Inr cfg1"
    using c0 by (auto simp: loadDefaults_def cfg1_def loadEnv_def loadFlags_def from_env_def from_flags_def
        no_flags_def intro!: load_from_nothing split: option.split)
  have empty_path: "cfg1 KConfigPath = FString ''''"
  proof -
    obtain path where path: "path \<in> set opts" "o_ConfigKey path = KConfigPath" "o_CustomSetValue path = NoCustom"
      "o_DefaultValue path = VString ''''"
      using AddFlags_from(2) [OF opts options_path] by (auto simp: AddFlag_def option0_def flag_default_def default_fits_def)
    have fits: "setter_fits (o_CustomSetValue path) (field_type (FString []))" using path by simp
    have agent: "KHistoryArchiveUserAgent \<notin> o_ConfigKey ` set opts"
      using AddFlags_keys [OF opts] options_no_agent [of H usage] by (metis list.set_map)
    have "projr (from_flags no_flags path) = None" "projr (from_env H Map.empty path) = None"
      by (simp_all add: from_flags_def no_flags_def from_env_def split: option.split)
    then have "effective_value H Map.empty no_flags None path = Some (VString '''')"
      by (simp add: effective_value_def from_defaults_def path)
    with first_loads [OF loads path(1) keys agent fits] path show ?thesis
      by (simp add: settle_def new_field_def parser_for_def)
  qed
  then have "SetValues H Map.empty no_flags open_toml opts (zero_Config zero) = Inr cfg1"
    using loads by (simp add: SetValues_def)
  with opts show thesis using empty_path by (rule that)
qed

definition example_host :: "string host" where
  "example_host = \<lparr>h_frac = (\<lambda>_ _. 0), h_ParseFloat = Inr, h_Sprint = (\<lambda>_. ''value''), h_ParseLevel = Inr,
     h_LevelString = (\<lambda>l. l), h_InfoLevel = ''info'', h_Getwd = Inr ''/home/rpc'', h_LookPath = ''/bin/stellar-core'',
     h_NumCPU = 4, h_KebabToConstantCase = (\<lambda>s. s), h_UnmarshalTree = (\<lambda>t x. Inr t), h_DefaultTree = Inr,
     h_IsZero = (\<lambda>x. x = ''''), h_Version = ''23.0.0''\<rparr>"

theorem configuration_precedence_witness:
  "\<exists>opts cfg. AddFlags (zero_Config (\<lambda>_. '''')) (options example_host (\<lambda>_. '''')) = Inr opts \<and>
     SetValues example_host Map.empty no_flags (\<lambda>_. Inl (Err ''no such file'')) opts (zero_Config (\<lambda>_. '''')) = Inr cfg \<and>
     cfg KEndpoint = FString ''localhost:8000''"
proof -
  have host: "h_Getwd example_host = Inr ''/home/rpc''" "h_NumCPU example_host < 2 ^ 32"
    by (simp_all add: example_host_def)
  obtain opts cfg where run: "AddFlags (zero_Config (\<lambda>_. '''')) (options example_host (\<lambda>_. '''')) = Inr opts"
    "SetValues example_host Map.empty no_flags (\<lambda>_. Inl (Err ''no such file'')) opts (zero_Config (\<lambda>_. '''')) = Inr cfg"
    "cfg KConfigPath = FString ''''"
    by (rule defaults_load [OF host])
  let ?opt = "option0\<lparr>o_Name := ''endpoint'', o_Usage := '''', o_DefaultValue := VString ''localhost:8000'',
    o_ConfigKey := KEndpoint\<rparr> :: string ConfigOption"
  have "?opt \<in> set (options example_host (\<lambda>_. ''''))" by (simp add: options_def server_options_def)
  then obtain opt where opt: "opt \<in> set opts" "o_ConfigKey opt = KEndpoint" "o_CustomSetValue opt = NoCustom"
    "o_DefaultValue opt = VString ''localhost:8000''"
    using AddFlags_from(2) [OF run(1)] by (force simp: AddFlag_def option0_def flag_default_def default_fits_def)
  have "config_tree (\<lambda>_. Inl (Err ''no such file'')) cfg = None" using run(3) by (simp add: config_tree_def)
  moreover have "projr (from_flags no_flags opt) = None" "projr (from_env example_host Map.empty opt) = None"
    by (simp_all add: from_flags_def no_flags_def from_env_def split: option.split)
  ultimately have "effective_value example_host Map.empty no_flags (config_tree (\<lambda>_. Inl (Err ''no such file'')) cfg) opt =
      Some (VString ''localhost:8000'')"
    by (simp add: effective_value_def from_defaults_def opt)
  with configuration_precedence [OF run(1,2) opt(1)] opt have "cfg KEndpoint = FString ''localhost:8000''"
    by (simp add: is_tree_def new_field_def parser_for_def)
  with run show ?thesis by blast
qed

subsection \<open>Validation\<close>

fun url_free :: "'x ConfigOption \<Rightarrow> validator \<Rightarrow> bool" where
  "url_free opt (NotAbove lower upper _ _) = (lower \<noteq> KStellarCoreURL \<and> upper \<noteq> KStellarCoreURL)"
| "url_free opt ValidateRequired = (o_ConfigKey opt \<noteq> KStellarCoreURL)"
| "url_free opt ValidatePositive = (o_ConfigKey opt \<noteq> KStellarCoreURL)"
| "url_free opt _ = True"

definition passes :: "'x host \<Rightarrow> 'x ConfigOption \<Rightarrow> 'x fields \<Rightarrow> bool" where
  "passes H opt cfg \<longleftrightarrow> fst (validate_option H opt cfg) = None"

lemma passes_cong:
  assumes "url_free opt (o_Validate opt)" and "\<And>k. k \<noteq> KStellarCoreURL \<Longrightarrow> cfg' k = cfg k"
  shows "passes H opt cfg' = passes H opt cfg"
  using assms
  by (cases "o_Validate opt") (auto simp: passes_def validate_option_def required_def positive_def uint_at_def)

lemma validate_option_frame:
  "k \<noteq> KStellarCoreURL \<Longrightarrow> snd (validate_option H opt cfg) k = cfg k"
  by (cases "o_Validate opt") (auto simp: validate_option_def)

lemma validate_loop_ok:
  assumes "validate_loop H opts missing cfg = Inr ([], cfg')" and "\<forall>opt \<in> set opts. url_free opt (o_Validate opt)"
  shows "missing = [] \<and> (\<forall>k. k \<noteq> KStellarCoreURL \<longrightarrow> cfg' k = cfg k) \<and> (\<forall>opt \<in> set opts. passes H opt cfg')"
  using assms
proof (induction opts arbitrary: missing cfg)
  case (Cons opt opts)
  obtain e cfg1 where step: "validate_option H opt cfg = (e, cfg1)" by fastforce
  have frame: "k \<noteq> KStellarCoreURL \<Longrightarrow> cfg1 k = cfg k" for k
    using validate_option_frame [of k H opt cfg] step by simp
  have e: "e = None"
  proof (cases e)
    case (Some err)
    then show ?thesis
      using Cons.prems step Cons.IH [of "missing @ [x]" cfg1 for x] by (cases err) auto
  qed
  then have IH: "missing = [] \<and> (\<forall>k. k \<noteq> KStellarCoreURL \<longrightarrow> cfg' k = cfg1 k) \<and> (\<forall>opt \<in> set opts. passes H opt cfg')"
    using Cons.prems step Cons.IH [of missing cfg1] by auto
  moreover have "passes H opt cfg" using step e by (simp add: passes_def)
  then have "passes H opt cfg'" using passes_cong [of opt cfg' cfg H] Cons.prems(2) IH frame by simp
  ultimately show ?case using frame by simp
qed simp

lemma options_url_free: "list_all (\<lambda>opt. url_free opt (o_Validate opt)) (options H usage)"
  by (simp add: options_defs option0_def)

lemma Validate_passes:
  assumes "Validate H usage cfg = Inr cfg'"
  shows "(\<forall>k. k \<noteq> KStellarCoreURL \<longrightarrow> cfg' k = cfg k) \<and> list_all (\<lambda>opt. passes H opt cfg') (options H usage)"
proof -
  obtain missing where "validate_loop H (options H usage) [] cfg = Inr (missing, cfg')" "missing = []"
    using assms by (auto simp: Validate_def Options_Validate_def bind_res_Inr_iff split: if_splits)
  then show ?thesis
    using validate_loop_ok options_url_free [of H usage] by (fastforce simp: list_all_iff)
qed

text \<open>The fields a validated configuration must have positive.\<close>

definition positive_keys :: "config_key list" where
  "positive_keys = [KCaptiveCoreHTTPQueryPort, KHistoryRetentionWindow, KClassicFeeStatsLedgerRetentionWindow,
     KSorobanFeeStatsLedgerRetentionWindow, KPreflightWorkerCount, KPreflightWorkerQueueSize,
     KRequestBacklogGlobalQueueLimit, KRequestBacklogGetHealthQueueLimit, KRequestBacklogGetEventsQueueLimit,
     KRequestBacklogGetNetworkQueueLimit, KRequestBacklogGetVersionInfoQueueLimit,
     KRequestBacklogGetLatestLedgerQueueLimit, KRequestBacklogGetLedgerEntriesQueueLimit,
     KRequestBacklogGetTransactionQueueLimit, KRequestBacklogGetTransactionsQueueLimit,
     KRequestBacklogGetLedgersQueueLimit, KRequestBacklogSendTransactionQueueLimit,
     KRequestBacklogSimulateTransactionQueueLimit, KRequestBacklogGetFeeStatsTransactionQueueLimit]"

definition required_keys :: "config_key list" where
  "required_keys = [KStellarCoreBinaryPath, KCaptiveCoreConfigPath, KHistoryArchiveURLs, KNetworkPassphrase]"

text \<open>A configuration with fields of the right types, whose numbers fit them.\<close>

fun in_range :: "'x field \<Rightarrow> bool" where
  "in_range (FUint w n) = (n < 2 ^ w)"
| "in_range _ = True"

definition config_typed :: "'x fields \<Rightarrow> bool" where
  "config_typed cfg \<longleftrightarrow> (\<forall>k. field_type (cfg k) = field_type (zero_Config (\<lambda>_. ()) k) \<and> in_range (cfg k))"

lemma zero_Config_range: "in_range (zero_Config zero k)"
  by (cases k) simp_all

lemma new_field_range:
  assumes "new_field H opt i f = Inr f'" and "in_range f"
  shows "in_range f'"
proof (cases "o_CustomSetValue opt")
  case NoCustom
  then have "parser_for H (o_Name opt) f i = Inr f'" using assms(1) by (simp add: new_field_def)
  then show ?thesis using assms(2)
    by (cases f; simp add: parser_for_def; cases i;
        auto simp: parseInt_text_def parseUint_text_def parseUint32_text_def parseFloat_text_def parseDuration_def
          parseStringSlice_def bind_res_Inr_iff split: option.splits if_splits)
qed (use assms in \<open>auto simp: new_field_def set_log_level_def set_log_format_def set_storage_path_def unmarshalTOMLTree_def Let_def
    bind_res_Inr_iff split: go_val.splits field.splits sum.splits if_splits\<close>)

lemma load_from_range:
  assumes "load_from H source opts cfg = Inr cfg'" and "\<forall>k. in_range (cfg k)"
  shows "in_range (cfg' k)"
  using assms
proof (induction opts arbitrary: cfg)
  case (Cons opt opts)
  then obtain v where v: "source opt = Inr v" by (auto simp: bind_res_Inr_iff)
  show ?case
  proof (cases v)
    case None
    then show ?thesis using Cons v by simp
  next
    case (Some i)
    then obtain f where f: "new_field H opt i (cfg (o_ConfigKey opt)) = Inr f"
      and rest: "load_from H source opts (cfg(o_ConfigKey opt := f)) = Inr cfg'"
      using Cons.prems(1) v by (auto simp: bind_res_Inr_iff setValue_Inr)
    then show ?thesis using Cons.IH [OF rest] Cons.prems(2) new_field_range [OF f] by simp
  qed
qed simp

lemma zero_Config_type: "field_type (zero_Config zero k) = field_type (zero_Config zero' k)"
  by (cases k) simp_all

fun setter_typed :: "custom_set \<Rightarrow> nat \<times> nat \<Rightarrow> bool" where
  "setter_typed (SetTree _) t = (t = (10, 0))"
| "setter_typed c t = setter_fits c t"

lemma new_field_typed:
  assumes "new_field H opt i f = Inr f'" and "setter_typed (o_CustomSetValue opt) (field_type f)"
  shows "field_type f' = field_type f"
proof (cases "is_tree opt")
  case True
  then show ?thesis using assms
    by (auto simp: is_tree_def new_field_def unmarshalTOMLTree_def bind_res_Inr_iff split: go_val.splits field.splits)
next
  case False
  then show ?thesis using assms new_field_type [of H opt i f f']
    by (cases "o_CustomSetValue opt") (auto simp: is_tree_def)
qed

lemma load_from_types:
  assumes "load_from H source opts cfg = Inr cfg'"
    and "\<forall>opt \<in> set opts. setter_typed (o_CustomSetValue opt) (field_type (cfg (o_ConfigKey opt)))"
  shows "field_type (cfg' k) = field_type (cfg k)"
  using assms
proof (induction opts arbitrary: cfg)
  case (Cons opt opts)
  then obtain v where v: "source opt = Inr v" by (auto simp: bind_res_Inr_iff)
  show ?case
  proof (cases v)
    case None
    then show ?thesis using Cons v by simp
  next
    case (Some i)
    then obtain f where f: "new_field H opt i (cfg (o_ConfigKey opt)) = Inr f"
      and rest: "load_from H source opts (cfg(o_ConfigKey opt := f)) = Inr cfg'"
      using Cons.prems(1) v by (auto simp: bind_res_Inr_iff setValue_Inr)
    have "field_type f = field_type (cfg (o_ConfigKey opt))" using new_field_typed [OF f] Cons.prems(2) by simp
    then have "field_type ((cfg(o_ConfigKey opt := f)) k) = field_type (cfg k)" for k by simp
    then show ?thesis using Cons.IH [OF rest] Cons.prems(2) by simp
  qed
qed simp

lemma options_validators:
  "map o_ConfigKey (filter (\<lambda>opt. o_Validate opt = ValidatePositive) (options H usage)) = positive_keys"
  "map o_ConfigKey (filter (\<lambda>opt. o_Validate opt = ValidateRequired) (options H usage)) = required_keys"
  by (simp_all add: options_defs option0_def positive_keys_def required_keys_def)

fun is_page_size :: "validator \<Rightarrow> bool" where
  "is_page_size (NotAbove _ _ _ _) = True"
| "is_page_size _ = False"

lemma options_page_sizes:
  "filter is_page_size (map o_Validate (options H usage)) =
     [NotAbove KDefaultEventsLimit KMaxEventsLimit ''default-events-limit'' ''max-events-limit'',
      NotAbove KDefaultTransactionsLimit KMaxTransactionsLimit ''default-transactions-limit'' ''max-transactions-limit'',
      NotAbove KDefaultLedgersLimit KMaxLedgersLimit ''default-ledgers-limit'' ''max-ledgers-limit'']"
  by (simp add: options_defs option0_def)

lemma positive_keys_type: "list_all (\<lambda>k. fst (field_type (zero_Config zero k)) = 2 \<and> k \<noteq> KStellarCoreURL) positive_keys"
  by (simp add: positive_keys_def)

lemma key_validator:
  "map f (filter P xs) = ks \<Longrightarrow> k \<in> set ks \<Longrightarrow> \<exists>x \<in> set xs. P x \<and> f x = k"
  by auto

lemma passes_positive:
  "passes H opt cfg \<Longrightarrow> o_Validate opt = ValidatePositive \<Longrightarrow> fst (field_type (cfg (o_ConfigKey opt))) = 2 \<Longrightarrow>
     0 < uint_at cfg (o_ConfigKey opt)"
  by (cases "cfg (o_ConfigKey opt)")
    (auto simp: passes_def validate_option_def positive_def uint_at_def Let_def split: if_splits)

lemma passes_required:
  "passes H opt cfg \<Longrightarrow> o_Validate opt = ValidateRequired \<Longrightarrow> is_set H (cfg (o_ConfigKey opt))"
  by (auto simp: passes_def validate_option_def required_def split: if_splits)

lemma passes_page_size:
  "passes H opt cfg \<Longrightarrow> o_Validate opt = NotAbove lower upper a b \<Longrightarrow> uint_at cfg lower \<le> uint_at cfg upper"
  by (auto simp: passes_def validate_option_def split: if_splits)

lemma validated_facts:
  assumes "config_typed cfg" and "Validate H usage cfg = Inr cfg'"
  shows "(k \<noteq> KStellarCoreURL \<longrightarrow> cfg' k = cfg k) \<and>
    list_all (\<lambda>k. 0 < uint_at cfg' k) positive_keys \<and>
    uint_at cfg' KDefaultEventsLimit \<le> uint_at cfg' KMaxEventsLimit \<and>
    uint_at cfg' KDefaultTransactionsLimit \<le> uint_at cfg' KMaxTransactionsLimit \<and>
    uint_at cfg' KDefaultLedgersLimit \<le> uint_at cfg' KMaxLedgersLimit \<and>
    list_all (\<lambda>k. is_set H (cfg' k)) required_keys"
proof -
  note v = Validate_passes [OF assms(2)]
  have p: "passes H opt cfg'" if "opt \<in> set (options H usage)" for opt using v that by (simp add: list_all_iff)
  have type: "field_type (cfg' k) = field_type (zero_Config (\<lambda>_. ()) k)" if "k \<noteq> KStellarCoreURL" for k
    using v assms(1) that by (simp add: config_typed_def)
  have "0 < uint_at cfg' k" if k: "k \<in> set positive_keys" for k
  proof -
    obtain opt where "opt \<in> set (options H usage)" "o_Validate opt = ValidatePositive" "o_ConfigKey opt = k"
      using key_validator [OF options_validators(1) k] by blast
    moreover have "fst (field_type (cfg' k)) = 2"
      using k type [of k] positive_keys_type [of "\<lambda>_. ()"] by (auto simp: list_all_iff)
    ultimately show ?thesis using passes_positive [OF p, of opt] by simp
  qed
  moreover have "is_set H (cfg' k)" if k: "k \<in> set required_keys" for k
  proof -
    obtain opt where "opt \<in> set (options H usage)" "o_Validate opt = ValidateRequired" "o_ConfigKey opt = k"
      using key_validator [OF options_validators(2) k] by blast
    then show ?thesis using passes_required [OF p, of opt] by simp
  qed
  moreover have "uint_at cfg' lower \<le> uint_at cfg' upper"
    if above: "NotAbove lower upper a b \<in> set (filter is_page_size (map o_Validate (options H usage)))" for lower upper a b
  proof -
    obtain opt where "opt \<in> set (options H usage)" "o_Validate opt = NotAbove lower upper a b" using above by auto
    then show ?thesis using passes_page_size [OF p] by simp
  qed
  note this [unfolded options_page_sizes]
  ultimately show ?thesis using v by (simp add: list_all_iff)
qed

text \<open>A configuration that passes validation is one the server can run with: apart from the
  derived URL of core it is the loaded one, every window, worker count and queue limit is
  positive, the default page sizes do not exceed the maximal ones, and the passphrase, the
  archives, the core binary and its configuration are set.\<close>

theorem validated_configuration:
  assumes "config_typed cfg" and "Validate H usage cfg = Inr cfg'"
  shows "(k \<noteq> KStellarCoreURL \<longrightarrow> cfg' k = cfg k) \<and>
    list_all (\<lambda>k. 0 < uint_at cfg' k) positive_keys \<and>
    uint_at cfg' KDefaultEventsLimit \<le> uint_at cfg' KMaxEventsLimit \<and>
    uint_at cfg' KDefaultTransactionsLimit \<le> uint_at cfg' KMaxTransactionsLimit \<and>
    uint_at cfg' KDefaultLedgersLimit \<le> uint_at cfg' KMaxLedgersLimit \<and>
    list_all (\<lambda>k. is_set H (cfg' k)) required_keys"
  using assms by (rule validated_facts)

definition example_fields :: "string fields" where
  "example_fields k = (case zero_Config (\<lambda>_. '''') k of
     FUint w _ \<Rightarrow> FUint w 1 | FString _ \<Rightarrow> FString ''set'' | FStrings _ \<Rightarrow> FStrings (Some [''url'']) | f \<Rightarrow> f)"

lemma validate_loop_passes:
  assumes "\<forall>opt \<in> set opts. validate_option H opt cfg = (None, cfg)"
  shows "validate_loop H opts missing cfg = Inr (missing, cfg)"
  using assms by (induction opts) auto

lemma example_fields_ok:
  "config_typed example_fields" "Validate example_host (\<lambda>_. '''') example_fields = Inr example_fields"
proof -
  have "list_all (\<lambda>opt. validate_option example_host opt example_fields = (None, example_fields))
      (options example_host (\<lambda>_. ''''))"
    by (simp add: options_defs option0_def validate_option_def positive_def required_def uint_at_def is_set_def
        field_IsZero_def example_fields_def)
  then show "Validate example_host (\<lambda>_. '''') example_fields = Inr example_fields"
    by (simp add: Validate_def Options_Validate_def validate_loop_passes list_all_iff)
  have "field_type (example_fields k) = field_type (zero_Config (\<lambda>_. ()) k) \<and> in_range (example_fields k)" for k
    by (cases k) (simp_all add: example_fields_def)
  then show "config_typed example_fields" by (simp add: config_typed_def)
qed

theorem validated_configuration_witness:
  "0 < uint_at example_fields KPreflightWorkerCount \<and> is_set example_host (example_fields KNetworkPassphrase)"
  using validated_configuration [OF example_fields_ok] by (simp add: positive_keys_def required_keys_def)

text \<open>Whatever is loaded keeps the types of the fields.\<close>

lemma options_typed:
  "list_all (\<lambda>opt. setter_typed (o_CustomSetValue opt) (field_type (zero_Config zero (o_ConfigKey opt)))) (options H usage)"
  by (simp add: options_defs option0_def)

lemma SetValues_typed:
  assumes add: "AddFlags (zero_Config zero) (options H usage) = Inr opts"
    and run: "SetValues H lookupEnv fl open_toml opts (zero_Config zero) = Inr cfg"
  shows "config_typed cfg"
proof -
  have typed: "\<forall>opt \<in> set opts. setter_typed (o_CustomSetValue opt) (field_type (c (o_ConfigKey opt)))"
    if "config_typed c" for c :: "'a fields"
    using AddFlags_from(1) [OF add] options_typed [of zero H usage] that
      zero_Config_type [of zero _ "\<lambda>_. ()"]
    by (fastforce simp: list_all_iff AddFlag_keeps config_typed_def)
  have load: "config_typed c'" if "load_from H source opts c = Inr c'" "config_typed c" for source c c'
    using load_from_types [OF that(1) typed [OF that(2)]] load_from_range [OF that(1)] that(2) by (simp add: config_typed_def)
  have zero: "config_typed (zero_Config zero)"
    by (simp add: config_typed_def zero_Config_range zero_Config_type [of zero _ "\<lambda>_. ()"])
  have agent: "config_typed (c(KHistoryArchiveUserAgent := FString s))" if "config_typed c" for c :: "'a fields" and s
    using that by (simp add: config_typed_def)
  obtain cfg1 cfg2 cfg3 where first: "loadDefaults H opts (zero_Config zero) = Inr cfg1"
    "loadEnv H lookupEnv opts cfg1 = Inr cfg2" "loadFlags H fl opts cfg2 = Inr cfg3"
    using run by (auto simp: SetValues_def bind_res_Inr_iff)
  then have cfg3: "config_typed cfg3"
    using load zero agent by (auto simp: loadDefaults_def loadEnv_def loadFlags_def bind_res_Inr_iff)
  then have "field_type (cfg3 KConfigPath) = (5, 0)" by (simp add: config_typed_def)
  then obtain path where "cfg3 KConfigPath = FString path" using string_field by blast
  then have "cfg = cfg3 \<or> (\<exists>cfg4 cfg5. loadConfigPath H open_toml opts path cfg3 = Inr cfg4 \<and>
      loadEnv H lookupEnv opts cfg4 = Inr cfg5 \<and> loadFlags H fl opts cfg5 = Inr cfg)"
    using run first by (auto simp: SetValues_def bind_res_Inr_iff split: if_splits)
  then show ?thesis using cfg3 load
    by (auto simp: loadConfigPath_def loadEnv_def loadFlags_def bind_res_Inr_iff dest!: parseToml_load)
qed

subsection \<open>Writing and reading values\<close>

lemma split_number_unit:
  assumes "u \<noteq> []" and "\<not> number_char (hd u)"
  shows "split_number (show_nat n @ u) = (show_nat n, [], u)"
proof -
  have d: "\<forall>c \<in> set (show_nat n). is_digit c" using show_nat_digits [of n] by (simp add: list_all_iff)
  have "\<not> is_digit (hd u)" "hd u \<noteq> CHR ''.''" using assms(2) by (auto simp: number_char_def)
  with assms(1) d show ?thesis
    by (cases u) (simp_all add: split_number_def takeWhile_append2 dropWhile_append2)
qed

lemma duration_units_step:
  assumes "unitMap u = Some unit" and "u \<noteq> []" and "\<forall>c \<in> set u. \<not> number_char c"
    and "rest = [] \<or> number_char (hd rest)" and "0 < unit" and "d + n * unit \<le> 2 ^ 63"
  shows "duration_units frac orig (show_nat n @ u @ rest) d = duration_units frac orig rest (d + n * unit)"
proof -
  have "is_digit (hd (show_nat n))" using show_nat_digits [of n] by (cases "show_nat n") auto
  then have first: "number_char (hd (show_nat n @ u @ rest))" by (simp add: number_char_def)
  have split: "split_number (show_nat n @ u @ rest) = (show_nat n, [], u @ rest)"
    using assms(2,3) by (intro split_number_unit) (auto simp: hd_append)
  have u: "takeWhile (\<lambda>c. \<not> number_char c) (u @ rest) = u" "dropWhile (\<lambda>c. \<not> number_char c) (u @ rest) = rest"
    using assms(3,4) by (cases rest; simp)+
  have n: "n \<le> 2 ^ 63 div unit" using assms(5,6) by (simp add: less_eq_div_iff_mult_less_eq)
  then have "n \<le> 2 ^ 63" using div_le_dividend order_trans by blast
  moreover have "(d + n * unit) mod 2 ^ 64 = d + n * unit" using assms(6) by simp
  ultimately show ?thesis
    using first split u n assms(1,2,6) by (subst duration_units.simps) (simp add: Let_def not_less)
qed

lemma duration_units_Nil [simp]: "duration_units frac orig [] d = Inr d"
  by (subst duration_units.simps) simp

lemma unit_facts:
  "unitMap ''h'' = Some (3600 * 10 ^ 9)" "unitMap ''m'' = Some (60 * 10 ^ 9)" "unitMap ''s'' = Some (10 ^ 9)"
  "\<not> number_char (CHR ''h'')" "\<not> number_char (CHR ''m'')" "\<not> number_char (CHR ''s'')"
  by (simp_all add: unitMap_def number_char_def is_digit_def)

lemma fmtFrac_whole: "fmtFrac (k * 10 ^ 9) 9 = []"
proof -
  have "show_nat 0 = [CHR ''0'']" by code_simp
  moreover have "digit 0 = CHR ''0''" by code_simp
  moreover have "(k * 10 ^ 9) mod 10 ^ 9 = 0" by simp
  ultimately show ?thesis by (simp add: fmtFrac_def pad0_def)
qed

lemma number_char_show [simp]: "number_char (hd (show_nat n))"
  using show_nat_digits [of n] by (cases "show_nat n") (auto simp: number_char_def)

lemma hms_units:
  assumes "h * (3600 * 10 ^ 9) + m * (60 * 10 ^ 9) + s * 10 ^ 9 \<le> 2 ^ 63"
  shows "duration_units frac orig (show_nat s @ ''s'') (h * (3600 * 10 ^ 9) + m * (60 * 10 ^ 9)) =
      Inr (h * (3600 * 10 ^ 9) + m * (60 * 10 ^ 9) + s * 10 ^ 9)"
    and "duration_units frac orig (show_nat m @ ''m'' @ show_nat s @ ''s'') (h * (3600 * 10 ^ 9)) =
      Inr (h * (3600 * 10 ^ 9) + m * (60 * 10 ^ 9) + s * 10 ^ 9)"
    and "duration_units frac orig (show_nat h @ ''h'' @ show_nat m @ ''m'' @ show_nat s @ ''s'') 0 =
      Inr (h * (3600 * 10 ^ 9) + m * (60 * 10 ^ 9) + s * 10 ^ 9)"
proof -
  note units = unit_facts(1-3) [THEN duration_units_step]
  show sec: "duration_units frac orig (show_nat s @ ''s'') (h * (3600 * 10 ^ 9) + m * (60 * 10 ^ 9)) =
      Inr (h * (3600 * 10 ^ 9) + m * (60 * 10 ^ 9) + s * 10 ^ 9)"
    using units(3) [where rest = "[]" and n = s and frac = frac and orig = orig] assms
    by (simp add: unit_facts del: power_numeral)
  show min: "duration_units frac orig (show_nat m @ ''m'' @ show_nat s @ ''s'') (h * (3600 * 10 ^ 9)) =
      Inr (h * (3600 * 10 ^ 9) + m * (60 * 10 ^ 9) + s * 10 ^ 9)"
    using units(2) [where rest = "show_nat s @ ''s''" and n = m and frac = frac and orig = orig] assms sec
    by (simp add: unit_facts del: power_numeral)
  show "duration_units frac orig (show_nat h @ ''h'' @ show_nat m @ ''m'' @ show_nat s @ ''s'') 0 =
      Inr (h * (3600 * 10 ^ 9) + m * (60 * 10 ^ 9) + s * 10 ^ 9)"
    using units(1) [where rest = "show_nat m @ ''m'' @ show_nat s @ ''s''" and n = h and d = 0 and frac = frac and orig = orig]
      assms min
    by (simp add: unit_facts del: power_numeral)
qed

lemma whole_seconds_text:
  assumes "k * 10 ^ 9 < 2 ^ 63"
  shows "ParseDuration frac (Duration_String (int k * second)) = Inr (int k * second)"
proof -
  define h m s where hms: "h = k div 60 div 60" "m = k div 60 mod 60" "s = k mod 60"
  have "k = k div 60 * 60 + s" "k div 60 = h * 60 + m" by (simp_all add: hms)
  then have k: "k * 10 ^ 9 = h * (3600 * 10 ^ 9) + m * (60 * 10 ^ 9) + s * 10 ^ 9" by simp
  then have bound: "h * (3600 * 10 ^ 9) + m * (60 * 10 ^ 9) + s * 10 ^ 9 \<le> 2 ^ 63" using assms by simp
  have u: "nat \<bar>int k * second\<bar> = k * 10 ^ 9" by (simp add: second_def abs_mult nat_mult_distrib)
  define t where "t = Duration_String (int k * second)"
  have t: "t = (if 0 < h then show_nat h @ ''h'' else []) @ (if 0 < k div 60 then show_nat m @ ''m'' else []) @
      show_nat s @ ''s''"
  proof (cases "k = 0")
    case True
    moreover have "show_nat 0 = ''0''" by code_simp
    ultimately show ?thesis by (simp add: t_def Duration_String_def second_def hms)
  next
    case False
    define v where "v = k * 10 ^ 9"
    have v: "v \<noteq> 0" "\<not> v < 10 ^ 3" "\<not> v < 10 ^ 6" "\<not> v < 10 ^ 9" "v div 10 ^ 9 = k" "fmtFrac v 9 = []"
      using False fmtFrac_whole [of k] unfolding v_def by simp_all
    have "\<not> int k * second < 0" by (simp add: second_def)
    with v u [folded v_def] show ?thesis unfolding t_def Duration_String_def hms by (simp only: Let_def if_False append_Nil)
  qed
  have "0 < h \<Longrightarrow> 0 < k div 60" using hms by auto
  then have "duration_units frac t t 0 = Inr (k * 10 ^ 9)"
    using hms_units [OF bound, of frac t] k \<open>k div 60 = h * 60 + m\<close> unfolding t by auto
  moreover have "t \<noteq> []" "is_digit (hd t)" "t \<noteq> ''0''"
    using show_nat_digits [of h] show_nat_digits [of m] show_nat_digits [of s] unfolding t
    by (auto simp: hd_append list_all_iff neq_Nil_conv append_eq_Cons_conv split: if_splits)
  moreover have "\<not> is_digit (CHR ''-'')" "\<not> is_digit (CHR ''+'')" by (simp_all add: is_digit_def)
  ultimately have "ParseDuration frac t = Inr (int (k * 10 ^ 9))"
    using assms by (auto simp: ParseDuration_def)
  then show ?thesis by (simp add: t_def second_def)
qed



end
