(* ===== verification/Server.thy ===== *)
theory Server
  imports ConfigProps DurationLimiter PreflightPool
begin

text \<open>
  \<^verbatim>\<open>jsonrpc.go\<close>: the table of the JSON-RPC methods with their limits, the limiters around each method
  and around the whole server, and the decoration that counts and logs each request. A handler of the table is the
  method with the arguments its constructor gets from the configuration; the handlers themselves
  are the definitions of the method theories. The JSON-RPC bridge, the metrics and CORS are left out.
\<close>

subsection \<open>Method names\<close>

definition GetHealthMethodName :: string where "GetHealthMethodName = ''getHealth''"
definition GetEventsMethodName :: string where "GetEventsMethodName = ''getEvents''"
definition GetNetworkMethodName :: string where "GetNetworkMethodName = ''getNetwork''"
definition GetVersionInfoMethodName :: string where "GetVersionInfoMethodName = ''getVersionInfo''"
definition GetLatestLedgerMethodName :: string where "GetLatestLedgerMethodName = ''getLatestLedger''"
definition GetLedgersMethodName :: string where "GetLedgersMethodName = ''getLedgers''"
definition GetLedgerEntriesMethodName :: string where "GetLedgerEntriesMethodName = ''getLedgerEntries''"
definition GetTransactionMethodName :: string where "GetTransactionMethodName = ''getTransaction''"
definition GetTransactionsMethodName :: string where "GetTransactionsMethodName = ''getTransactions''"
definition SendTransactionMethodName :: string where "SendTransactionMethodName = ''sendTransaction''"
definition SimulateTransactionMethodName :: string where "SimulateTransactionMethodName = ''simulateTransaction''"
definition GetFeeStatsMethodName :: string where "GetFeeStatsMethodName = ''getFeeStats''"

lemmas method_names = GetHealthMethodName_def GetEventsMethodName_def GetNetworkMethodName_def
  GetVersionInfoMethodName_def GetLatestLedgerMethodName_def GetLedgersMethodName_def
  GetLedgerEntriesMethodName_def GetTransactionMethodName_def GetTransactionsMethodName_def
  SendTransactionMethodName_def SimulateTransactionMethodName_def GetFeeStatsMethodName_def

text \<open>\<^verbatim>\<open>toSnakeCase\<close> on ASCII text.\<close>

definition is_upper :: "char \<Rightarrow> bool" where
  "is_upper c \<longleftrightarrow> (65 :: nat) \<le> of_char c \<and> (of_char c :: nat) \<le> 90"

definition toSnakeCase :: "string \<Rightarrow> string" where
  "toSnakeCase s = map to_lower_char (concat (map (\<lambda>v. if is_upper v then [CHR ''_'', v] else [v]) s))"

subsection \<open>The table of methods\<close>

datatype rpc_handler =
  HealthHandler nat int
| EventsHandler nat nat
| NetworkHandler string string
| VersionInfoHandler
| LatestLedgerHandler
| LedgersHandler nat nat
| LedgerEntriesHandler
| TransactionHandler
| TransactionsHandler nat nat string
| SendHandler string
| SimulateHandler
| FeeStatsHandler

record rpc_method =
  rm_methodName :: string
  rm_underlyingHandler :: rpc_handler
  rm_queueLimit :: nat
  rm_longName :: string
  rm_requestDurationLimit :: int

definition duration_at :: "'x fields \<Rightarrow> config_key \<Rightarrow> int" where
  "duration_at cfg key = (case cfg key of FDuration d \<Rightarrow> d | _ \<Rightarrow> 0)"

definition string_at :: "'x fields \<Rightarrow> config_key \<Rightarrow> string" where
  "string_at cfg key = (case cfg key of FString s \<Rightarrow> s | _ \<Rightarrow> [])"

definition rpc_entry :: "'x fields \<Rightarrow> string \<Rightarrow> rpc_handler \<Rightarrow> config_key \<Rightarrow> config_key \<Rightarrow> rpc_method" where
  "rpc_entry cfg name h queueKey durationKey =
     \<lparr>rm_methodName = name, rm_underlyingHandler = h, rm_queueLimit = uint_at cfg queueKey,
      rm_longName = toSnakeCase name, rm_requestDurationLimit = duration_at cfg durationKey\<rparr>"

definition rpc_handlers :: "'x fields \<Rightarrow> rpc_method list" where
  "rpc_handlers cfg = [
     rpc_entry cfg GetHealthMethodName
       (HealthHandler (uint_at cfg KHistoryRetentionWindow) (duration_at cfg KMaxHealthyLedgerLatency))
       KRequestBacklogGetHealthQueueLimit KMaxGetHealthExecutionDuration,
     rpc_entry cfg GetEventsMethodName
       (EventsHandler (uint_at cfg KMaxEventsLimit) (uint_at cfg KDefaultEventsLimit))
       KRequestBacklogGetEventsQueueLimit KMaxGetEventsExecutionDuration,
     rpc_entry cfg GetNetworkMethodName
       (NetworkHandler (string_at cfg KNetworkPassphrase) (string_at cfg KFriendbotURL))
       KRequestBacklogGetNetworkQueueLimit KMaxGetNetworkExecutionDuration,
     rpc_entry cfg GetVersionInfoMethodName VersionInfoHandler
       KRequestBacklogGetVersionInfoQueueLimit KMaxGetVersionInfoExecutionDuration,
     rpc_entry cfg GetLatestLedgerMethodName LatestLedgerHandler
       KRequestBacklogGetLatestLedgerQueueLimit KMaxGetLatestLedgerExecutionDuration,
     rpc_entry cfg GetLedgersMethodName
       (LedgersHandler (uint_at cfg KMaxLedgersLimit) (uint_at cfg KDefaultLedgersLimit))
       KRequestBacklogGetLedgersQueueLimit KMaxGetLedgersExecutionDuration,
     rpc_entry cfg GetLedgerEntriesMethodName LedgerEntriesHandler
       KRequestBacklogGetLedgerEntriesQueueLimit KMaxGetLedgerEntriesExecutionDuration,
     rpc_entry cfg GetTransactionMethodName TransactionHandler
       KRequestBacklogGetTransactionQueueLimit KMaxGetTransactionExecutionDuration,
     rpc_entry cfg GetTransactionsMethodName
       (TransactionsHandler (uint_at cfg KMaxTransactionsLimit) (uint_at cfg KDefaultTransactionsLimit)
         (string_at cfg KNetworkPassphrase))
       KRequestBacklogGetTransactionsQueueLimit KMaxGetTransactionsExecutionDuration,
     rpc_entry cfg SendTransactionMethodName (SendHandler (string_at cfg KNetworkPassphrase))
       KRequestBacklogSendTransactionQueueLimit KMaxSendTransactionExecutionDuration,
     rpc_entry cfg SimulateTransactionMethodName SimulateHandler
       KRequestBacklogSimulateTransactionQueueLimit KMaxSimulateTransactionExecutionDuration,
     rpc_entry cfg GetFeeStatsMethodName FeeStatsHandler
       KRequestBacklogGetFeeStatsTransactionQueueLimit KMaxGetFeeStatsExecutionDuration]"

subsection \<open>The limiters\<close>

record limited_method =
  lm_handler :: rpc_handler
  lm_queueLimiter :: backlogQLimiter
  lm_durationLimiter :: requestDurationLimiter

definition warningThresholdDenominator :: int where
  "warningThresholdDenominator = 3"

text \<open>Division of Go: towards zero.\<close>

definition go_quot :: "int \<Rightarrow> int \<Rightarrow> int" where
  "go_quot a b = sgn a * sgn b * (\<bar>a\<bar> div \<bar>b\<bar>)"

definition limit_method :: "string list option \<Rightarrow> rpc_method \<Rightarrow> limited_method" where
  "limit_method logger m =
     \<lparr>lm_handler = rm_underlyingHandler m,
      lm_queueLimiter = MakeBacklogQueueLimiter (Some 0) (of_nat (rm_queueLimit m)) logger,
      lm_durationLimiter = MakeRequestDurationLimiter
        (go_quot (rm_requestDurationLimit m) warningThresholdDenominator) (rm_requestDurationLimit m)
        (Some 0) (Some 0) logger\<rparr>"

fun handlersMap :: "string list option \<Rightarrow> rpc_method list \<Rightarrow> (string \<rightharpoonup> limited_method) \<Rightarrow> (string \<rightharpoonup> limited_method)" where
  "handlersMap logger [] acc = acc"
| "handlersMap logger (m # ms) acc = handlersMap logger ms (acc(rm_methodName m \<mapsto> limit_method logger m))"

definition maxHTTPRequestSize :: nat where
  "maxHTTPRequestSize = 512 * 1024"

record rpc_server =
  rs_handlers :: "string \<rightharpoonup> limited_method"
  rs_globalQueue :: backlogQLimiter
  rs_globalDuration :: requestDurationLimiter
  rs_maxRequestSize :: nat

definition NewJSONRPCHandler :: "string list option \<Rightarrow> 'x fields \<Rightarrow> rpc_server" where
  "NewJSONRPCHandler logger cfg =
     \<lparr>rs_handlers = handlersMap logger (rpc_handlers cfg) Map.empty,
      rs_globalQueue = MakeBacklogQueueLimiter (Some 0) (of_nat (uint_at cfg KRequestBacklogGlobalQueueLimit)) logger,
      rs_globalDuration = MakeRequestDurationLimiter (duration_at cfg KRequestExecutionWarningThreshold)
        (duration_at cfg KMaxRequestExecutionDuration) (Some 0) (Some 0) logger,
      rs_maxRequestSize = maxHTTPRequestSize\<rparr>"

text \<open>The log: levels, messages and fields. \<open>marshal\<close> is \<^verbatim>\<open>json.Marshal\<close>, the texts of the identifier of a
  request, of its parameters and of the duration come from the packages.\<close>

datatype log_level = LogInfo | LogDebug

record log_entry =
  le_level :: log_level
  le_fields :: "(string \<times> string) list"
  le_message :: string

record rpc_request =
  rq_ID :: string
  rq_Method :: string
  rq_ParamString :: string

definition logRequest :: "string \<Rightarrow> rpc_request \<Rightarrow> log_entry list" where
  "logRequest reqID req =
     (let fields = [(''subsys'', ''jsonrpc''), (''req'', reqID), (''json_req'', rq_ID req), (''method'', rq_Method req)] in
      [\<lparr>le_level = LogInfo, le_fields = fields, le_message = ''starting JSONRPC request''\<rparr>,
       \<lparr>le_level = LogDebug, le_fields = fields @ [(''params'', rq_ParamString req)],
        le_message = ''starting JSONRPC request params''\<rparr>])"

definition logResponse :: "('a option \<Rightarrow> string res) \<Rightarrow> string \<Rightarrow> string \<Rightarrow> string \<Rightarrow> 'a option \<Rightarrow> log_entry list" where
  "logResponse marshal reqID duration status result =
     (let fields = [(''subsys'', ''jsonrpc''), (''req'', reqID), (''duration'', duration), (''json_req'', reqID),
            (''status'', status)] in
      [\<lparr>le_level = LogInfo, le_fields = fields, le_message = ''finished JSONRPC request''\<rparr>] @
      (if status = ''ok''
       then (case marshal result of
               Inl _ \<Rightarrow> []
             | Inr responseBytes \<Rightarrow>
                 [\<lparr>le_level = LogDebug, le_fields = fields @ [(''result'', responseBytes)],
                   le_message = ''finished JSONRPC request result''\<rparr>])
       else []))"

text \<open>\<^verbatim>\<open>decorateHandlers\<close>: the status a request is counted and logged under. \<open>code_text\<close> is how the JSON-RPC
  package prints an error code; an answer of \<^verbatim>\<open>simulateTransaction\<close> carries its error text.\<close>

definition prometheusLabelReplacer :: "string \<Rightarrow> string" where
  "prometheusLabelReplacer s =
     map (\<lambda>c. if c = CHR '' '' \<or> c = CHR ''-'' then CHR ''_'' else c)
       (filter (\<lambda>c. c \<noteq> CHR ''('' \<and> c \<noteq> CHR '')'') s)"

definition status_label :: "(jrpc_code \<Rightarrow> string) \<Rightarrow> string option \<Rightarrow> handler_error option \<Rightarrow> string" where
  "status_label code_text simulateError err =
     (if (case simulateError of Some e \<Rightarrow> e \<noteq> [] | None \<Rightarrow> False) then ''error''
      else (case err of
              Some (JErr code m) \<Rightarrow> prometheusLabelReplacer (code_text code)
            | _ \<Rightarrow> ''ok''))"

text \<open>What the decorated handlers share: the counter of request identifiers, the observations of the
  duration metric by endpoint and status, and the log.\<close>

record rpc_monitor =
  mo_NextRequestID :: nat
  mo_requestMetric :: "(string \<times> string) list"
  mo_log :: "log_entry list"

definition decorated ::
  "(jrpc_code \<Rightarrow> string) \<Rightarrow> ('a \<Rightarrow> string option) \<Rightarrow> ('a option \<Rightarrow> string res) \<Rightarrow> (rpc_request \<Rightarrow> 'a answer) \<Rightarrow> string \<Rightarrow>
   rpc_request \<Rightarrow> rpc_monitor \<Rightarrow> 'a answer \<times> rpc_monitor" where
  "decorated code_text simulateError marshal h duration req mo =
     (let reqID = show_nat (Suc (mo_NextRequestID mo));
          answer = h req;
          result = (case answer of Inl _ \<Rightarrow> None | Inr a \<Rightarrow> Some a);
          err = (case answer of Inl e \<Rightarrow> Some e | Inr _ \<Rightarrow> None);
          status = status_label code_text (Option.bind result simulateError) err
      in (answer, \<lparr>mo_NextRequestID = Suc (mo_NextRequestID mo),
                   mo_requestMetric = mo_requestMetric mo @ [(rq_Method req, status)],
                   mo_log = mo_log mo @ logRequest reqID req @ logResponse marshal reqID duration status result\<rparr>))"

text \<open>The decoration hands the answer through and observes each request once; an error without a code
  is observed as a success.\<close>

lemma decorated_transparent:
  "fst (decorated code_text simulateError marshal h duration req mo) = h req"
  "\<exists>status. mo_requestMetric (snd (decorated code_text simulateError marshal h duration req mo)) =
     mo_requestMetric mo @ [(rq_Method req, status)]"
  "h req = Inl (PlainErr e) \<Longrightarrow> mo_requestMetric (snd (decorated code_text simulateError marshal h duration req mo)) =
     mo_requestMetric mo @ [(rq_Method req, ''ok'')]"
  by (simp_all add: decorated_def Let_def status_label_def)

subsection \<open>Facts about the server\<close>

lemma handlersMap_other:
  "name \<notin> rm_methodName ` set ms \<Longrightarrow> handlersMap logger ms acc name = acc name"
  by (induction ms arbitrary: acc) auto

lemma handlersMap_lookup:
  "distinct (map rm_methodName ms) \<Longrightarrow> m \<in> set ms \<Longrightarrow>
     handlersMap logger ms acc (rm_methodName m) = Some (limit_method logger m)"
proof (induction ms arbitrary: acc)
  case (Cons n ms)
  then show ?case by (cases "m = n") (auto simp: handlersMap_other)
qed simp

lemma rpc_handlers_distinct: "distinct (map rm_methodName (rpc_handlers cfg))"
  by (simp add: rpc_handlers_def rpc_entry_def method_names)

lemma rpc_handlers_queues:
  "m \<in> set (rpc_handlers cfg) \<Longrightarrow> \<exists>k \<in> set positive_keys. rm_queueLimit m = uint_at cfg k"
  by (auto simp: rpc_handlers_def rpc_entry_def positive_keys_def)

text \<open>The page sizes a paged method starts with.\<close>

fun page_sizes :: "rpc_handler \<Rightarrow> (nat \<times> nat) option" where
  "page_sizes (EventsHandler mx df) = Some (mx, df)"
| "page_sizes (LedgersHandler mx df) = Some (mx, df)"
| "page_sizes (TransactionsHandler mx df _) = Some (mx, df)"
| "page_sizes _ = None"

lemma rpc_handlers_pages:
  assumes "m \<in> set (rpc_handlers cfg)" and "page_sizes (rm_underlyingHandler m) = Some (mx, df)"
  shows "(mx, df) \<in> {(uint_at cfg KMaxEventsLimit, uint_at cfg KDefaultEventsLimit),
    (uint_at cfg KMaxLedgersLimit, uint_at cfg KDefaultLedgersLimit),
    (uint_at cfg KMaxTransactionsLimit, uint_at cfg KDefaultTransactionsLimit)}"
  using assms by (auto simp: rpc_handlers_def rpc_entry_def)

lemma limited_method_bounded:
  assumes "interleaved (Handle_step name) Called (lm_queueLimiter (limit_method logger m)) q ps" and "length ps < 2 ^ 64"
  shows "how_many admitted ps \<le> rm_queueLimit m"
proof -
  let ?init = "lm_queueLimiter (limit_method logger m)"
  have run: "interleaved (backlog_step (''rpc '' @ name)) Called ?init q ps"
    using assms(1) by (simp add: Handle_step_def)
  have "ql_pending ?init = 0" "ql_limit ?init = of_nat (rm_queueLimit m)"
    by (simp_all add: limit_method_def MakeBacklogQueueLimiter_def)
  then have "how_many admitted ps \<le> unat (of_nat (rm_queueLimit m) :: u64)"
    using admitted_bounded [OF run _ assms(2)] interleaved_limit [OF run] by simp
  also have "\<dots> \<le> rm_queueLimit m" by (simp add: unat_of_nat take_bit_nat_eq_self_iff take_bit_nat_less_eq_self)
  finally show ?thesis .
qed

end
