(* ===== verification/Startup.thy ===== *)
theory Startup
  imports Migrations Ingest
begin

text \<open>
  What the initialisation of the storage keeps. The interface between the migrations and the
  tables is a locale: a property of the tables that truncating the transactions, setting a guard
  and inserting the transactions or the events of a stored ledger keep. Whatever the engine does
  and however the start ends, the session keeps every such property. The invariant of the
  ingestion service is one, so the service starts on a store as good as the file.
\<close>

subsection \<open>Sessions that keep a property of their tables\<close>

definition session_holds :: "('v tables \<Rightarrow> bool) \<Rightarrow> 'v session \<Rightarrow> bool" where
  "session_holds I s \<longleftrightarrow> I (db_tables (ss_db s)) \<and> (\<forall>t. ss_tx s = Some t \<longrightarrow> I t) \<and> db_ok (ss_db s)"

lemma session_holds_tables: "session_holds I s \<Longrightarrow> I (session_tables s)"
  by (simp add: session_holds_def session_tables_def split: option.splits)

lemma holds_Rollback: "session_holds I s \<Longrightarrow> session_Rollback E s = (e, s') \<Longrightarrow> session_holds I s'"
  by (auto simp: session_holds_def session_Rollback_def split: option.splits)

lemma db_ok_same_ledgers:
  "db_ok db \<Longrightarrow> ledger_close_meta t = ledger_close_meta (db_tables db) \<Longrightarrow> db_ok (db\<lparr>db_tables := t\<rparr>)"
  by (simp add: db_ok_def coherent_def)

definition for_passphrase :: "string \<Rightarrow> Migration \<Rightarrow> bool" where
  "for_passphrase passphrase m \<longleftrightarrow> (\<forall>g. m = Guarded g \<longrightarrow> tm_passphrase (gm_migration g) = passphrase)"

locale storage_invariant =
  fixes I :: "'v tables \<Rightarrow> bool" and P :: "'v pkgs" and L :: "(u32, 'v LedgerCloseMeta) table" and passphrase :: string
  assumes ledgers: "I t \<Longrightarrow> ledger_close_meta t = L"
    and truncate: "I t \<Longrightarrow> I (t\<lparr>transactions := []\<rparr>)"
    and guard: "I t \<Longrightarrow> I (t\<lparr>metadata := put_row key v (metadata t)\<rparr>)"
    and transactions: "I t \<Longrightarrow> (k, m) \<in> set L \<Longrightarrow> th_passphrase h = passphrase \<Longrightarrow>
      InsertTransactions E h m t = (e, t') \<Longrightarrow> I t'"
    and events: "I t \<Longrightarrow> (k, m) \<in> set L \<Longrightarrow> eh_passphrase eh = passphrase \<Longrightarrow>
      InsertEvents E P eh m t = (e, t') \<Longrightarrow> I t'"
begin

lemma committed_ok: "I (db_tables db) \<Longrightarrow> db_ok db \<Longrightarrow> I t \<Longrightarrow> db_ok (db\<lparr>db_tables := t\<rparr>)"
  by (rule db_ok_same_ledgers) (simp_all add: ledgers)

lemma holds_write:
  assumes "session_holds I s" and "session_write f s = (e, s')" and "\<And>t e t'. I t \<Longrightarrow> f t = (e, t') \<Longrightarrow> I t'"
  shows "session_holds I s'"
proof (cases "ss_tx s")
  case None
  obtain t' where "f (db_tables (ss_db s)) = (e, t')" "s' = s\<lparr>ss_db := (ss_db s)\<lparr>db_tables := t'\<rparr>\<rparr>"
    using assms(2) None by (auto simp: session_write_def split: prod.splits)
  with assms(1,3) None show ?thesis by (auto simp: session_holds_def intro: committed_ok)
next
  case (Some t)
  then show ?thesis using assms by (auto simp: session_holds_def session_write_def split: prod.splits)
qed

lemma holds_stmt_cache_write:
  assumes "session_holds I s" and "stmt_cache_write f s = (e, s')" and "\<And>t e t'. I t \<Longrightarrow> f t = (e, t') \<Longrightarrow> I t'"
  shows "session_holds I s'"
  using assms(1,2) holds_write [OF assms(1) _ assms(3)] by (auto simp: stmt_cache_write_def split: option.splits)

lemma holds_Commit:
  assumes "session_holds I s" and "session_Commit E s = (e, s')"
  shows "session_holds I s'"
  using assms by (auto simp: session_holds_def session_Commit_def intro: committed_ok split: option.splits)

lemma holds_Begin: "session_holds I s \<Longrightarrow> session_Begin E s = (e, s') \<Longrightarrow> session_holds I s'"
  by (auto simp: session_holds_def session_Begin_def split: option.splits)

lemma holds_guarded_Apply:
  assumes "session_holds I s" and "guarded_Apply E P g m s = (e, s')" and "(k, m) \<in> set L"
    and "tm_passphrase (gm_migration g) = passphrase"
  shows "session_holds I s'"
proof -
  let ?th = "\<lparr>th_stmtCache = True, th_passphrase = passphrase\<rparr>" and ?eh = "\<lparr>eh_stmtCache = True, eh_passphrase = passphrase\<rparr>"
  consider "s' = s" | "stmt_cache_write (InsertTransactions E ?th m) s = (e, s')"
    | "stmt_cache_write (InsertEvents E P ?eh m) s = (e, s')"
    using assms(2,4) by (auto simp: guarded_Apply_def table_migration_Apply_def split: if_splits table_kind.splits)
  then show ?thesis
  proof cases
    case 2
    with assms(1) show ?thesis by (rule holds_stmt_cache_write) (rule transactions [OF _ assms(3)], simp_all)
  next
    case 3
    with assms(1) show ?thesis by (rule holds_stmt_cache_write) (rule events [OF _ assms(3)], simp_all)
  qed (use assms(1) in simp)
qed

lemma holds_Migration_Apply:
  assumes "session_holds I (ms_session st)" and "Migration_Apply E P mg m st = (e, st')" and "(k, m) \<in> set L"
    and "for_passphrase passphrase mg"
  shows "session_holds I (ms_session st')"
proof (cases mg)
  case (Guarded g)
  obtain e1 s1 where "guarded_Apply E P g m (ms_session st) = (e1, s1)" by fastforce
  with assms Guarded holds_guarded_Apply [OF assms(1) this assms(3)] show ?thesis by (auto simp: for_passphrase_def)
next
  case (FeeWindowMigration f)
  obtain rb s1 where "session_Rollback E (ms_session st) = (rb, s1)" by fastforce
  with assms FeeWindowMigration holds_Rollback [OF assms(1) this] show ?thesis
    by (auto split: prod.splits option.splits)
qed

lemma holds_multi_apply:
  assumes "session_holds I (ms_session st)" and "multi_apply E P m ms err st = (e, st')" and "(k, m) \<in> set L"
    and "list_all (for_passphrase passphrase) ms"
  shows "session_holds I (ms_session st')"
  using assms
proof (induction ms arbitrary: err st)
  case (Cons mg ms)
  obtain e1 st1 where a: "Migration_Apply E P mg m st = (e1, st1)" by fastforce
  obtain rb s2 where r: "session_Rollback E (ms_session st1) = (rb, s2)" by fastforce
  have one: "session_holds I (ms_session st1)"
    using holds_Migration_Apply [OF Cons.prems(1) a Cons.prems(3)] Cons.prems(4) by simp
  then have rolled: "session_holds I s2" by (rule holds_Rollback [OF _ r])
  note IH = Cons.IH [OF _ _ Cons.prems(3)]
  show ?case using Cons.prems a r one rolled IH [of st err] IH [of st1 err] IH [of "st1\<lparr>ms_session := s2\<rparr>"]
    by (auto split: if_splits option.splits)
qed simp

lemma holds_stream:
  assumes "session_holds I (ms_session st)" and "stream_rows E (MultiMigration_Apply E P mm) rows st = (e, st')"
    and "set rows \<subseteq> set L" and "list_all (for_passphrase passphrase) mm"
  shows "session_holds I (ms_session st')"
  using assms
proof (induction rows arbitrary: st)
  case (Cons kr rows)
  obtain k m where kr: "kr = (k, m)" by fastforce
  obtain e1 st1 where a: "MultiMigration_Apply E P mm m st = (e1, st1)" by fastforce
  have "session_holds I (ms_session st1)"
    using holds_multi_apply [of st E m mm None e1 st1 k] Cons.prems a kr by (simp add: MultiMigration_Apply_def)
  with Cons a kr show ?case by (auto split: option.splits)
qed simp

lemma holds_range:
  assumes "session_holds I s" and "GetMigrationLedgerRange E w s = (r, s')"
  shows "session_holds I s'"
proof -
  let ?db = "(ss_db s)\<lparr>db_tables := session_tables s\<rparr>"
  have same: "ledger_close_meta (session_tables s) = ledger_close_meta (db_tables (ss_db s))"
    using assms(1) session_holds_tables [OF assms(1)] ledgers by (simp add: session_holds_def)
  then have "db_ok ?db" using assms(1) by (intro db_ok_same_ledgers) (simp_all add: session_holds_def)
  moreover obtain r1 db1 where g: "getLatestLedgerSequence E ?db = (r1, db1)" by fastforce
  ultimately have db1: "db_ok db1" "db_tables db1 = session_tables s" using getLatestLedgerSequence_cases by fastforce+
  then have "db_ok ((ss_db s)\<lparr>db_cache := db_cache db1\<rparr>)" using same by (simp add: db_ok_def coherent_def)
  moreover have "s' = s\<lparr>ss_db := (ss_db s)\<lparr>db_cache := db_cache db1\<rparr>\<rparr>"
    using assms(2) g by (auto simp: GetMigrationLedgerRange_def Let_def split: sum.splits if_splits)
  ultimately show ?thesis using assms(1) by (simp add: session_holds_def)
qed

lemma holds_new_table:
  assumes "session_holds I s" and "new_table_migration E k p rng s = (r, s')"
  shows "session_holds I s'"
proof (cases k)
  case TransactionsTable
  obtain e s1 where w: "session_write (exec_write E TruncateTransactions (\<lambda>t. Inr (t\<lparr>transactions := []\<rparr>))) s = (e, s1)"
    by fastforce
  have "session_holds I s1" using assms(1) w by (rule holds_write) (auto elim!: exec_write_cases intro: truncate)
  with assms(2) w TransactionsTable show ?thesis by (auto simp: new_table_migration_def split: option.splits)
qed (use assms in \<open>simp add: new_table_migration_def\<close>)

lemma holds_newGuarded:
  assumes "session_holds I s" and "newGuardedDataMigration E k p rng s = (r, s')"
  shows "session_holds I s' \<and> (\<forall>g. r = Inr (Some g) \<longrightarrow> tm_passphrase (gm_migration g) = p)"
proof -
  obtain m s1 where n: "new_table_migration E k p rng s = (m, s1)" by fastforce
  have "m = Inr x \<Longrightarrow> tm_passphrase x = p" for x
    using n by (auto simp: new_table_migration_def Let_def split: table_kind.splits prod.splits option.splits)
  with holds_new_table [OF assms(1) n] assms n show ?thesis
    by (auto simp: newGuardedDataMigration_def Let_def split: sum.splits bool.splits if_splits)
qed

lemma holds_build_loop:
  assumes "session_holds I s" and "build_loop E passphrase rng ks ms s = (r, s')"
    and "list_all (for_passphrase passphrase) ms"
  shows "session_holds I s' \<and> (\<forall>ms'. r = Inr ms' \<longrightarrow> list_all (for_passphrase passphrase) ms')"
  using assms
proof (induction ks arbitrary: ms s)
  case (Cons k ks)
  obtain r1 s1 where n: "newGuardedDataMigration E k passphrase rng s = (r1, s1)" by fastforce
  note one = holds_newGuarded [OF Cons.prems(1) n]
  consider (failed) e where "r1 = Inl e" | (migrated) "r1 = Inr None" | (fresh) g where "r1 = Inr (Some g)"
    by (metis option.exhaust sum.exhaust)
  then show ?case
  proof cases
    case failed
    obtain rb s2 where "session_Rollback E s1 = (rb, s2)" by fastforce
    with failed n one Cons.prems holds_Rollback [of I s1 E rb s2] show ?thesis by auto
  next
    case migrated
    with Cons.prems one n Cons.IH [of s1 ms] show ?thesis by simp
  next
    case fresh
    then have "for_passphrase passphrase (Guarded g)" using one by (simp add: for_passphrase_def)
    then have "list_all (for_passphrase passphrase) (ms @ [Guarded g])" using Cons.prems(3) by simp
    with fresh Cons.prems one n Cons.IH [of s1 "ms @ [Guarded g]"] show ?thesis by simp
  qed
qed auto

lemma holds_BuildMigrations:
  assumes "session_holds I s" and "BuildMigrations E order passphrase rng s = (r, s')"
  shows "session_holds I s' \<and> (\<forall>ms. r = Inr ms \<longrightarrow> list_all (for_passphrase passphrase) ms)"
proof -
  obtain e s1 where b: "session_Begin E s = (e, s1)" by fastforce
  have s1: "session_holds I s1" using holds_Begin [OF assms(1) b] .
  show ?thesis
  proof (cases e)
    case None
    with assms(2) b holds_build_loop [OF s1] show ?thesis by (simp add: BuildMigrations_def)
  next
    case (Some err)
    obtain rb s2 where "session_Rollback E s1 = (rb, s2)" by fastforce
    with Some assms(2) b holds_Rollback [OF s1] show ?thesis by (auto simp: BuildMigrations_def)
  qed
qed

lemma holds_multi_commit: "session_holds I s \<Longrightarrow> session_holds I (multi_commit E ms s)"
proof (induction ms arbitrary: s)
  case (Cons m ms)
  obtain e s1 where c: "Migration_Commit E m s = (e, s1)" by fastforce
  have "session_holds I s1"
  proof (cases m)
    case (Guarded g)
    have "session_holds I s'" if "session_write (setMetaBool E key True) s = (e', s')" for key e' s'
      using Cons.prems that by (rule holds_write) (auto simp: setMetaBool_def elim!: exec_write_cases intro: guard)
    with c Guarded Cons.prems show ?thesis by (auto simp: guarded_Commit_def split: if_splits)
  qed (use c Cons.prems in simp)
  moreover obtain rb s2 where r: "session_Rollback E s1 = (rb, s2)" by fastforce
  ultimately show ?case using Cons.IH c holds_Rollback [OF _ r] by (auto split: option.splits)
qed simp

lemma holds_daemon_build:
  assumes "session_holds I s" and "sc_NetworkPassphrase cfg = passphrase"
    and "daemon_buildMigrations E order cfg rng s = (r, s')"
  shows "session_holds I s' \<and> (\<forall>mm. r = Inr mm \<longrightarrow> list_all (for_passphrase passphrase) mm)"
proof -
  let ?w = "max (sc_ClassicFeeStatsLedgerRetentionWindow cfg) (sc_SorobanFeeStatsLedgerRetentionWindow cfg)"
  obtain r1 s1 where b: "BuildMigrations E order passphrase rng s = (r1, s1)" by fastforce
  note one = holds_BuildMigrations [OF assms(1) b]
  obtain r2 s2 where g: "GetMigrationLedgerRange E ?w s1 = (r2, s2)" by fastforce
  have "session_holds I s2" using holds_range [OF _ g] one by blast
  with one assms b g show ?thesis
    by (auto simp: daemon_buildMigrations_def Let_def MultiMigration_Append_def for_passphrase_def
        split: sum.splits if_splits)
qed

lemma holds_StreamLedgerRange:
  assumes "session_holds I (ms_session st)" and "list_all (for_passphrase passphrase) mm"
    and "StreamLedgerRange E a b (MultiMigration_Apply E P mm) (session_tables (ms_session st)) st = (e, st')"
  shows "session_holds I (ms_session st')"
proof (cases "eng_fault E (StreamRange a b)")
  case None
  let ?rows = "select_rows (\<lambda>k r. k \<ge> a \<and> k \<le> b) (ledger_close_meta (session_tables (ms_session st)))"
  have "stream_rows E (MultiMigration_Apply E P mm) ?rows st = (e, st')"
    using assms(3) None by (simp add: StreamLedgerRange_def)
  moreover have "set ?rows \<subseteq> set L"
    using ledgers [OF session_holds_tables [OF assms(1)]] by (auto simp: select_rows_def)
  ultimately show ?thesis using assms(1,2) holds_stream by blast
qed (use assms in \<open>auto simp: StreamLedgerRange_def\<close>)

lemma init_holds:
  assumes "session_holds I s" and "sc_NetworkPassphrase cfg = passphrase"
    and "mustInitializeStorage E P order cfg s = (e, st)"
  shows "session_holds I (ms_session st)"
proof -
  let ?f = "NewFeeWindows (sc_ClassicFeeStatsLedgerRetentionWindow cfg) (sc_SorobanFeeStatsLedgerRetentionWindow cfg)
    (sc_NetworkPassphrase cfg)"
  obtain r1 s1 where g: "GetMigrationLedgerRange E (sc_HistoryRetentionWindow cfg) s = (r1, s1)" by fastforce
  have s1: "session_holds I s1" by (rule holds_range [OF assms(1) g])
  show ?thesis
  proof (cases r1)
    case (Inr retention)
    obtain r2 s2 where b: "daemon_buildMigrations E order cfg retention s1 = (r2, s2)" by fastforce
    have s2: "session_holds I s2 \<and> (\<forall>mm. r2 = Inr mm \<longrightarrow> list_all (for_passphrase passphrase) mm)"
      using holds_daemon_build [OF s1 assms(2) b] .
    show ?thesis
    proof (cases r2)
      case mm: (Inr mm)
      let ?rng = "MultiMigration_ApplicableRange mm" and ?st = "\<lparr>ms_session = s2, ms_fees = ?f\<rparr>"
      obtain e3 st3 where str: "StreamLedgerRange E (sr_First ?rng) (sr_Last ?rng) (MultiMigration_Apply E P mm)
          (session_tables s2) ?st = (e3, st3)" by fastforce
      have "session_holds I (ms_session st3)" using holds_StreamLedgerRange [of ?st mm] s2 mm str by simp
      moreover obtain e4 s4 where "MultiMigration_Commit E mm (ms_session st3) = (e4, s4)" by fastforce
      ultimately show ?thesis using assms(3) g Inr b mm str holds_Commit [OF holds_multi_commit]
        by (auto simp: mustInitializeStorage_def MultiMigration_Commit_def Let_def split: option.splits)
    qed (use s2 assms(3) g Inr b in \<open>auto simp: mustInitializeStorage_def Let_def\<close>)
  qed (use s1 assms(3) g in \<open>auto simp: mustInitializeStorage_def Let_def\<close>)
qed

end

subsection \<open>The invariant of the store\<close>

text \<open>A store with the ledgers of \<open>t0\<close>, all of which fit the identifiers of their transactions, that
  satisfies the invariant of the ingestion service.\<close>

definition stored_fit :: "string \<Rightarrow> 'v tables \<Rightarrow> bool" where
  "stored_fit passphrase t \<longleftrightarrow>
     (\<forall>(k, m) \<in> set (ledger_close_meta t). \<forall>reads. lcm_Reader m passphrase = Inr reads \<longrightarrow> ledger_fits m reads)"

definition same_store :: "'v pkgs \<Rightarrow> string \<Rightarrow> 'v tables \<Rightarrow> 'v tables \<Rightarrow> bool" where
  "same_store P passphrase t0 t \<longleftrightarrow> toid_spec (pk_toid P) \<and> stored_fit passphrase t0 \<and>
     ledger_close_meta t = ledger_close_meta t0 \<and> store_inv t"

lemma store_inv_parts:
  assumes "store_inv t" and "ledger_close_meta t' = ledger_close_meta t" and "table_ok (transactions t')"
    and "events_ok (events t')" and "table_ok (metadata t')" and "tx_seqs t' \<union> event_seqs t' \<subseteq> ledger_seqs t"
  shows "store_inv t'"
  using assms by (simp add: store_inv_def store_ok_def gap_free_def index_ok_def ledger_seqs_def)

lemma same_store_transactions:
  assumes "same_store P passphrase t0 t" and "(k, m) \<in> set (ledger_close_meta t0)" and "InsertTransactions E h m t = (e, t')"
  shows "same_store P passphrase t0 t'"
proof -
  have inv: "store_inv t" and L: "ledger_close_meta t = ledger_close_meta t0" using assms(1) by (auto simp: same_store_def)
  note keep = InsertTransactions_ledgers [OF assms(3)] InsertTransactions_metadata [OF assms(3)]
  note index = InsertTransactions_index [OF assms(3)]
  have "lcm_LedgerSequence m = k" using inv assms(2) L by (auto simp: store_inv_def store_ok_def ledgers_ok_def)
  then have "lcm_LedgerSequence m \<in> ledger_seqs t" using assms(2) L by (force simp: ledger_seqs_def)
  then have "store_inv t'"
    using inv index keep by (intro store_inv_parts [OF inv]) (auto simp: store_inv_def store_ok_def index_ok_def event_seqs_def)
  then show ?thesis using assms(1) keep L by (simp add: same_store_def)
qed

lemma same_store_events:
  assumes "same_store P passphrase t0 t" and "(k, m) \<in> set (ledger_close_meta t0)" and "eh_passphrase h = passphrase"
    and "InsertEvents E P h m t = (e, t')"
  shows "same_store P passphrase t0 t'"
proof -
  have inv: "store_inv t" and L: "ledger_close_meta t = ledger_close_meta t0" and T: "toid_spec (pk_toid P)"
    and fit: "\<And>reads. lcm_Reader m (eh_passphrase h) = Inr reads \<Longrightarrow> ledger_fits m reads"
    using assms(1-3) by (auto simp: same_store_def stored_fit_def)
  note keep = InsertEvents_ledgers [OF assms(4)] InsertEvents_metadata [OF assms(4)]
  have ok: "events_ok (events t)" using inv by (simp add: store_inv_def store_ok_def)
  note index = InsertEvents_index [OF assms(4) ok T fit]
  have "lcm_LedgerSequence m = k" using inv assms(2) L by (auto simp: store_inv_def store_ok_def ledgers_ok_def)
  then have "lcm_LedgerSequence m \<in> ledger_seqs t" using assms(2) L by (force simp: ledger_seqs_def)
  then have "store_inv t'"
    using inv index keep by (intro store_inv_parts [OF inv]) (auto simp: store_inv_def store_ok_def index_ok_def tx_seqs_def)
  then show ?thesis using assms(1) keep L by (simp add: same_store_def)
qed

interpretation store: storage_invariant "same_store P passphrase t0" P "ledger_close_meta t0" passphrase
  for P :: "'v pkgs" and passphrase t0
proof unfold_locales
  fix t key v
  assume same: "same_store P passphrase t0 t"
  then have inv: "store_inv t" by (simp add: same_store_def)
  show "ledger_close_meta t = ledger_close_meta t0" using same by (simp add: same_store_def)
  have "store_inv (t\<lparr>transactions := []\<rparr>)"
    by (rule store_inv_parts [OF inv])
      (use inv in \<open>auto simp: store_inv_def store_ok_def index_ok_def tx_seqs_def event_seqs_def table_ok_def\<close>)
  moreover have "store_inv (t\<lparr>metadata := put_row key v (metadata t)\<rparr>)"
    by (rule store_inv_parts [OF inv])
      (use inv in \<open>auto simp: store_inv_def store_ok_def index_ok_def tx_seqs_def event_seqs_def intro: put_row_ok\<close>)
  ultimately show "same_store P passphrase t0 (t\<lparr>transactions := []\<rparr>)"
    "same_store P passphrase t0 (t\<lparr>metadata := put_row key v (metadata t)\<rparr>)"
    using same by (simp_all add: same_store_def)
qed (auto intro: same_store_transactions same_store_events)

text \<open>However the start of the storage ends, the committed tables hold the ledgers of the file and
  satisfy the invariant of the ingestion service.\<close>

lemma initialised_store:
  assumes "mustInitializeStorage E P order cfg \<lparr>ss_db = OpenSQLiteDB tabs, ss_tx = None\<rparr> = (e, st)"
    and "store_inv tabs" and "stored_fit (sc_NetworkPassphrase cfg) tabs" and "toid_spec (pk_toid P)"
  shows "service_inv (Starting, \<lparr>sv_db = ss_db (ms_session st), sv_feeWindows = fees\<rparr>)"
    and "ledger_close_meta (db_tables (ss_db (ms_session st))) = ledger_close_meta tabs"
proof -
  have "db_ok (OpenSQLiteDB tabs)" using assms(2) by (simp add: OpenSQLiteDB_ok store_inv_def store_ok_def)
  then have "session_holds (same_store P (sc_NetworkPassphrase cfg) tabs) \<lparr>ss_db = OpenSQLiteDB tabs, ss_tx = None\<rparr>"
    using assms(2-4) by (simp add: session_holds_def same_store_def OpenSQLiteDB_def)
  from store.init_holds [OF this refl assms(1)]
  have "session_holds (same_store P (sc_NetworkPassphrase cfg) tabs) (ms_session st)" .
  then show "service_inv (Starting, \<lparr>sv_db = ss_db (ms_session st), sv_feeWindows = fees\<rparr>)"
    and "ledger_close_meta (db_tables (ss_db (ms_session st))) = ledger_close_meta tabs"
    by (simp_all add: session_holds_def same_store_def)
qed

end
