(* ===== verification/PanicGroup.thy ===== *)
theory PanicGroup
  imports Protocol
begin

text \<open>
  \<^verbatim>\<open>util/panicgroup.go\<close>: what happens when a goroutine of the daemon panics. The text of the stack
  (\<^verbatim>\<open>debug.Stack\<close>) and the name of the function are parameters; the lines written and the end of the
  process are results.
\<close>

subsection \<open>Call stacks\<close>

text \<open>\<^verbatim>\<open>strings.FieldsFunc\<close> at newlines and tabs, and \<^verbatim>\<open>strings.Contains\<close>.\<close>

fun split_lines :: "string \<Rightarrow> string \<Rightarrow> string list" where
  "split_lines acc [] = (if acc = [] then [] else [rev acc])"
| "split_lines acc (c # cs) =
     (if c = CHR 0x0A \<or> c = CHR 0x09 then (if acc = [] then [] else [rev acc]) @ split_lines [] cs
      else split_lines (c # acc) cs)"

fun is_prefix :: "string \<Rightarrow> string \<Rightarrow> bool" where
  "is_prefix [] t = True"
| "is_prefix (c # cs) [] = False"
| "is_prefix (c # cs) (d # ds) = (c = d \<and> is_prefix cs ds)"

fun contains_text :: "string \<Rightarrow> string \<Rightarrow> bool" where
  "contains_text [] s = (s = [])"
| "contains_text (c # cs) s = (is_prefix s (c # cs) \<or> contains_text cs s)"

fun until_limiter :: "string \<Rightarrow> string list \<Rightarrow> string list" where
  "until_limiter lastCallstackMethod [] = []"
| "until_limiter lastCallstackMethod (l # ls) =
     l # (if contains_text l lastCallstackMethod then [] else until_limiter lastCallstackMethod ls)"

definition CallStack :: "string \<Rightarrow> string \<Rightarrow> string \<Rightarrow> string \<Rightarrow> nat \<Rightarrow> string list" where
  "CallStack stack recoverRes topLevelFunctionName lastCallstackMethod unwindStackLines =
     (if topLevelFunctionName \<noteq> [] then recoverRes @ '' when calling '' @ topLevelFunctionName else recoverRes) #
     until_limiter lastCallstackMethod (drop unwindStackLines (split_lines [] stack))"

definition getPanicCallStack :: "string \<Rightarrow> string \<Rightarrow> string \<Rightarrow> string list" where
  "getPanicCallStack stack recoverRes functionName =
     CallStack stack recoverRes functionName ''(*panicGroup).Go'' 10"

subsection \<open>Panic groups\<close>

record panicGroup =
  pg_log :: "string list option"
  pg_logPanicsToStdErr :: bool
  pg_exitProcessOnPanic :: bool
  pg_panicsCounter :: "nat option"

definition UnrecoverablePanicGroup :: panicGroup where
  "UnrecoverablePanicGroup =
     \<lparr>pg_log = None, pg_logPanicsToStdErr = True, pg_exitProcessOnPanic = True, pg_panicsCounter = None\<rparr>"

definition RecoverablePanicGroup :: panicGroup where
  "RecoverablePanicGroup =
     \<lparr>pg_log = None, pg_logPanicsToStdErr = True, pg_exitProcessOnPanic = False, pg_panicsCounter = None\<rparr>"

definition panicGroup_Log :: "string list option \<Rightarrow> panicGroup \<Rightarrow> panicGroup" where
  "panicGroup_Log lg pg = pg\<lparr>pg_log := lg\<rparr>"

definition panicGroup_Counter :: "nat option \<Rightarrow> panicGroup \<Rightarrow> panicGroup" where
  "panicGroup_Counter counter pg = pg\<lparr>pg_panicsCounter := counter\<rparr>"

text \<open>What a goroutine leaves: the group with its log and counter, the lines on the standard error
  output, and whether the process ended.\<close>

record goroutine_end =
  ge_group :: panicGroup
  ge_stderr :: "string list"
  ge_exit :: bool

text \<open>\<open>fn\<close> is the panic the function of the goroutine ended with, if any.\<close>

definition recoverRoutine :: "string \<Rightarrow> string \<Rightarrow> panicGroup \<Rightarrow> string option \<Rightarrow> goroutine_end" where
  "recoverRoutine stack functionName pg fn =
     (case fn of
        None \<Rightarrow> \<lparr>ge_group = pg, ge_stderr = [], ge_exit = False\<rparr>
      | Some recoverRes \<Rightarrow>
          let cs = getPanicCallStack stack recoverRes functionName in
          if cs = [] then \<lparr>ge_group = pg, ge_stderr = [], ge_exit = False\<rparr>
          else \<lparr>ge_group = pg\<lparr>pg_log := map_option (\<lambda>ls. ls @ cs) (pg_log pg),
                  pg_panicsCounter := map_option Suc (pg_panicsCounter pg)\<rparr>,
                ge_stderr = (if pg_logPanicsToStdErr pg then cs else []),
                ge_exit = pg_exitProcessOnPanic pg\<rparr>)"

text \<open>A panic is never swallowed silently: it is counted, reported with its own text first, and ends
  the process exactly in an unrecoverable group.\<close>

lemma panic_reported:
  assumes "pg_logPanicsToStdErr pg"
  shows "\<exists>first rest. ge_stderr (recoverRoutine stack name pg (Some p)) = first # rest \<and> is_prefix p first \<and>
    ge_exit (recoverRoutine stack name pg (Some p)) = pg_exitProcessOnPanic pg \<and>
    pg_panicsCounter (ge_group (recoverRoutine stack name pg (Some p))) = map_option Suc (pg_panicsCounter pg)"
proof -
  have "is_prefix p (p @ s)" for s by (induction p) auto
  from this [of "''''"] this [of "'' when calling '' @ name"] show ?thesis
    using assms by (auto simp: recoverRoutine_def getPanicCallStack_def CallStack_def Let_def)
qed

end
