(* ===== verification/Daemon.thy ===== *)
theory Daemon
  imports Server Startup SendTransaction PanicGroup
begin

text \<open>
  \<^verbatim>\<open>daemon/daemon.go\<close>, \<^verbatim>\<open>daemon/metrics.go\<close> and \<^verbatim>\<open>main.go\<close>: the commands, the assembly of the daemon from its
  configuration, its shutdown, and the client of core that counts submissions. What the machine
  and the Stellar packages answer (captive core, history archive, the database file, the
  datastore, listeners) is a record of parameters over handles of a type variable. \<^verbatim>\<open>Fatal\<close> ends
  the process: it is the error of the start, with the text that is logged. Metrics, profiling
  pages and log levels are left out.
\<close>

subsection \<open>The database file\<close>

definition openSQLiteDB :: "(string \<Rightarrow> 'v tables res) \<Rightarrow> ('v tables \<Rightarrow> 'v tables res) \<Rightarrow> string \<Rightarrow> 'v tables res" where
  "openSQLiteDB db_Open runSQLMigrations dbFilePath =
     (case db_Open (''file:'' @ dbFilePath @ ''?_journal_mode=WAL&_wal_autocheckpoint=0&_synchronous=NORMAL'') of
        Inl err \<Rightarrow> Inl (wrap_err ''open failed: '' err)
      | Inr session \<Rightarrow>
          (case runSQLMigrations session of
             Inl err \<Rightarrow> Inl (wrap_err ''could not run SQL migrations: '' err)
           | Inr migrated \<Rightarrow> Inr migrated))"

definition OpenSQLiteDBWithPrometheusMetrics ::
  "(string \<Rightarrow> 'v tables res) \<Rightarrow> ('v tables \<Rightarrow> 'v tables res) \<Rightarrow> string \<Rightarrow> 'v DB res" where
  "OpenSQLiteDBWithPrometheusMetrics db_Open runSQLMigrations dbFilePath =
     (case openSQLiteDB db_Open runSQLMigrations dbFilePath of
        Inl err \<Rightarrow> Inl err
      | Inr file \<Rightarrow> Inr (OpenSQLiteDB file))"

subsection \<open>Captive core, archives and clients\<close>

record CaptiveCoreTomlParams =
  ct_HTTPPort :: nat
  ct_HistoryArchiveURLs :: "string list"
  ct_NetworkPassphrase :: string
  ct_Strict :: bool
  ct_EnforceSorobanDiagnosticEvents :: bool
  ct_EnforceSorobanTransactionMetaExtV1 :: bool
  ct_CoreBinaryPath :: string
  ct_QueryPort :: nat
  ct_ThreadPoolSize :: nat
  ct_SnapshotLedgers :: nat

record 'o CaptiveCoreConfig =
  cp_BinaryPath :: string
  cp_StoragePath :: string
  cp_NetworkPassphrase :: string
  cp_HistoryArchiveURLs :: "string list"
  cp_CheckpointFrequency :: nat
  cp_Toml :: 'o
  cp_UserAgent :: string

record ArchiveOptions =
  ao_NetworkPassphrase :: string
  ao_CheckpointFrequency :: nat
  ao_UserAgent :: string

record core_Client =
  cc_URL :: string
  cc_Timeout :: int

text \<open>The machine and the packages the start calls.\<close>

record ('o, 'v, 'x) machine =
  mc_NewCaptiveCoreTomlFromFile :: "string \<Rightarrow> CaptiveCoreTomlParams \<Rightarrow> 'o res"
  mc_NewCaptive :: "'o CaptiveCoreConfig \<Rightarrow> 'o res"
  mc_NewArchivePool :: "string list \<Rightarrow> ArchiveOptions \<Rightarrow> 'o res"
  mc_Open :: "string \<Rightarrow> 'v tables res"
  mc_runSQLMigrations :: "'v tables \<Rightarrow> 'v tables res"
  mc_NewDataStore :: "'x field \<Rightarrow> 'o res"
  mc_Listen :: "string \<Rightarrow> 'o res"

definition strings_at :: "'x fields \<Rightarrow> config_key \<Rightarrow> string list" where
  "strings_at cfg key = (case cfg key of FStrings (Some ss) \<Rightarrow> ss | _ \<Rightarrow> [])"

definition bool_at :: "'x fields \<Rightarrow> config_key \<Rightarrow> bool" where
  "bool_at cfg key = (case cfg key of FBool b \<Rightarrow> b | _ \<Rightarrow> False)"

text \<open>\<^verbatim>\<open>logger.WithError(err).Fatal(message)\<close>\<close>

definition must :: "string \<Rightarrow> 'a res \<Rightarrow> 'a res" where
  "must message r = (case r of Inl err \<Rightarrow> Inl (wrap_err (message @ '': '') err) | Inr a \<Rightarrow> Inr a)"

text \<open>The outer error is a \<^verbatim>\<open>Fatal\<close>, the inner one is returned.\<close>

definition newCaptiveCore :: "('o, 'v, 'x) machine \<Rightarrow> 'x fields \<Rightarrow> ('o res) res" where
  "newCaptiveCore M cfg =
     (let captiveCoreTomlParams =
        \<lparr>ct_HTTPPort = uint_at cfg KCaptiveCoreHTTPPort, ct_HistoryArchiveURLs = strings_at cfg KHistoryArchiveURLs,
         ct_NetworkPassphrase = string_at cfg KNetworkPassphrase, ct_Strict = True,
         ct_EnforceSorobanDiagnosticEvents = True, ct_EnforceSorobanTransactionMetaExtV1 = True,
         ct_CoreBinaryPath = string_at cfg KStellarCoreBinaryPath,
         ct_QueryPort = uint_at cfg KCaptiveCoreHTTPQueryPort,
         ct_ThreadPoolSize = uint_at cfg KCaptiveCoreHTTPQueryThreadPoolSize,
         ct_SnapshotLedgers = uint_at cfg KCaptiveCoreHTTPQuerySnapshotLedgers\<rparr> in
      bind_res (must ''Invalid captive core toml''
        (mc_NewCaptiveCoreTomlFromFile M (string_at cfg KCaptiveCoreConfigPath) captiveCoreTomlParams)) (\<lambda>captiveCoreToml.
      Inr (mc_NewCaptive M
        \<lparr>cp_BinaryPath = string_at cfg KStellarCoreBinaryPath, cp_StoragePath = string_at cfg KCaptiveCoreStoragePath,
         cp_NetworkPassphrase = string_at cfg KNetworkPassphrase,
         cp_HistoryArchiveURLs = strings_at cfg KHistoryArchiveURLs,
         cp_CheckpointFrequency = uint_at cfg KCheckpointFrequency, cp_Toml = captiveCoreToml,
         cp_UserAgent = ExtendedUserAgent cfg ''captivecore''\<rparr>)))"

definition mustCreateCaptiveCore :: "('o, 'v, 'x) machine \<Rightarrow> 'x fields \<Rightarrow> 'o res" where
  "mustCreateCaptiveCore M cfg = bind_res (newCaptiveCore M cfg) (must ''could not create captive core'')"

definition mustCreateHistoryArchive :: "('o, 'v, 'x) machine \<Rightarrow> 'x fields \<Rightarrow> 'o res" where
  "mustCreateHistoryArchive M cfg =
     (if strings_at cfg KHistoryArchiveURLs = [] then Inl (Err ''no history archives URLs were provided'')
      else must ''could not connect to history archive''
        (mc_NewArchivePool M (strings_at cfg KHistoryArchiveURLs)
           \<lparr>ao_NetworkPassphrase = string_at cfg KNetworkPassphrase,
            ao_CheckpointFrequency = uint_at cfg KCheckpointFrequency,
            ao_UserAgent = string_at cfg KHistoryArchiveUserAgent\<rparr>))"

definition mustOpenDatabase :: "('o, 'v, 'x) machine \<Rightarrow> 'x fields \<Rightarrow> 'v DB res" where
  "mustOpenDatabase M cfg = must ''could not open database''
     (OpenSQLiteDBWithPrometheusMetrics (mc_Open M) (mc_runSQLMigrations M) (string_at cfg KSQLiteDBPath))"

definition mustCreateDataStore :: "('o, 'v, 'x) machine \<Rightarrow> 'x fields \<Rightarrow> 'o res" where
  "mustCreateDataStore M cfg = must ''failed to initialize datastore'' (mc_NewDataStore M (cfg KDataStoreConfig))"

definition createStellarCoreClient :: "'x fields \<Rightarrow> core_Client" where
  "createStellarCoreClient cfg =
     \<lparr>cc_URL = string_at cfg KStellarCoreURL, cc_Timeout = duration_at cfg KCoreRequestTimeout\<rparr>"

definition createHighperfStellarCoreClient :: "'x fields \<Rightarrow> core_Client" where
  "createHighperfStellarCoreClient cfg =
     \<lparr>cc_URL = ''http://localhost:'' @ itoa (int (uint_at cfg KCaptiveCoreHTTPQueryPort)),
      cc_Timeout = duration_at cfg KCoreRequestTimeout\<rparr>"

subsection \<open>The daemon\<close>

definition NewReadWriter :: "u32 \<Rightarrow> string \<Rightarrow> readWriter" where
  "NewReadWriter historyRetentionWindow networkPassphrase =
     \<lparr>rw_historyRetentionWindow = historyRetentionWindow, rw_passphrase = networkPassphrase\<rparr>"

text \<open>The configuration of the ingestion service; the write session comes with its window.\<close>

record 'o ingest_Config =
  ic_DB :: readWriter
  ic_NetworkPassPhrase :: string
  ic_Archive :: 'o
  ic_LedgerBackend :: 'o
  ic_Timeout :: int
  ic_FeeWindows :: FeeWindows

definition createIngestService :: "'x fields \<Rightarrow> 'o \<Rightarrow> FeeWindows \<Rightarrow> 'o \<Rightarrow> 'o ingest_Config" where
  "createIngestService cfg core feewindows historyArchive =
     \<lparr>ic_DB = NewReadWriter (of_nat (uint_at cfg KHistoryRetentionWindow)) (string_at cfg KNetworkPassphrase),
      ic_NetworkPassPhrase = string_at cfg KNetworkPassphrase, ic_Archive = historyArchive, ic_LedgerBackend = core,
      ic_Timeout = duration_at cfg KIngestionTimeout, ic_FeeWindows = feewindows\<rparr>"

definition createPreflightWorkerPool :: "'x fields \<Rightarrow> ('p, 'r) WorkerPool" where
  "createPreflightWorkerPool cfg =
     NewPreflightWorkerPool (uint_at cfg KPreflightWorkerCount) (uint_at cfg KPreflightWorkerQueueSize)"

text \<open>The handler and, when ledgers are served from the datastore, its reader: the configuration of
  the buffered backend with the datastore.\<close>

definition createJSONRPCHandler ::
  "string list option \<Rightarrow> 'x fields \<Rightarrow> 'o option \<Rightarrow> rpc_server \<times> ('x field \<times> 'o option) option" where
  "createJSONRPCHandler logger cfg dataStore =
     (NewJSONRPCHandler logger cfg,
      if bool_at cfg KServeLedgersFromDatastore then Some (cfg KBufferedStorageBackendConfig, dataStore) else None)"

datatype daemon_part =
  RpcServer | AdminServer | IngestService | CaptiveCore | JsonRpcBridge | Database | PreflightWorkers | DataStore

record ('o, 'v, 'x, 'p, 'r) Daemon =
  d_core :: 'o
  d_coreClient :: core_Client
  d_coreQueryingClient :: core_Client
  d_ingestService :: "'o ingest_Config"
  d_db :: "'v session"
  d_jsonRPCHandler :: rpc_server
  d_dataStoreLedgerReader :: "('x field \<times> 'o option) option"
  d_preflightWorkerPool :: "('p, 'r) WorkerPool"
  d_listener :: 'o
  d_adminServer :: "'o option"
    \<comment> \<open>the admin server with its listener\<close>
  d_dataStore :: "'o option"
  d_closed :: "daemon_part list"
    \<comment> \<open>what has been shut down, in order\<close>
  d_closeOnce :: bool
  d_closeError :: "go_error list"
    \<comment> \<open>the joined errors, none for nil\<close>
  d_done :: bool

definition setupHTTPServers :: "('o, 'v, 'x) machine \<Rightarrow> 'x fields \<Rightarrow> ('o \<times> 'o option) res" where
  "setupHTTPServers M cfg =
     bind_res (must ''cannot listen on endpoint'' (mc_Listen M (string_at cfg KEndpoint))) (\<lambda>listener.
     if string_at cfg KAdminEndpoint = '''' then Inr (listener, None)
     else bind_res (must ''cannot listen on admin endpoint'' (mc_Listen M (string_at cfg KAdminEndpoint))) (\<lambda>admin.
       Inr (listener, Some admin)))"

definition storage_settings :: "'x fields \<Rightarrow> storage_config" where
  "storage_settings cfg =
     \<lparr>sc_ClassicFeeStatsLedgerRetentionWindow = of_nat (uint_at cfg KClassicFeeStatsLedgerRetentionWindow),
      sc_SorobanFeeStatsLedgerRetentionWindow = of_nat (uint_at cfg KSorobanFeeStatsLedgerRetentionWindow),
      sc_HistoryRetentionWindow = of_nat (uint_at cfg KHistoryRetentionWindow),
      sc_NetworkPassphrase = string_at cfg KNetworkPassphrase\<rparr>"

text \<open>The second half of \<^verbatim>\<open>MustNew\<close>, after the storage is initialised.\<close>

definition start_services ::
  "('o, 'v, 'x) machine \<Rightarrow> string list option \<Rightarrow> 'x fields \<Rightarrow> 'o \<Rightarrow> 'o \<Rightarrow> 'v mig_state \<Rightarrow>
   (('o, 'v, 'x, 'p, 'r) Daemon) res" where
  "start_services M logger cfg core historyArchive st =
     bind_res (if bool_at cfg KServeLedgersFromDatastore then bind_res (mustCreateDataStore M cfg) (\<lambda>ds. Inr (Some ds))
               else Inr None) (\<lambda>dataStore.
     let ingestService = createIngestService cfg core (ms_fees st) historyArchive;
         pool = createPreflightWorkerPool cfg;
         (handler, dsReader) = createJSONRPCHandler logger cfg dataStore in
     bind_res (setupHTTPServers M cfg) (\<lambda>(listener, admin).
     Inr \<lparr>d_core = core, d_coreClient = createStellarCoreClient cfg,
          d_coreQueryingClient = createHighperfStellarCoreClient cfg, d_ingestService = ingestService,
          d_db = ms_session st, d_jsonRPCHandler = handler, d_dataStoreLedgerReader = dsReader,
          d_preflightWorkerPool = pool, d_listener = listener, d_adminServer = admin, d_dataStore = dataStore,
          d_closed = [], d_closeOnce = False, d_closeError = [], d_done = False\<rparr>))"

text \<open>\<open>order\<close> is the order in which the map of migrations is iterated.\<close>

definition MustNew ::
  "('o, 'v, 'x) machine \<Rightarrow> engine \<Rightarrow> 'v pkgs \<Rightarrow> table_kind list \<Rightarrow> string list option \<Rightarrow> 'x fields \<Rightarrow>
   (('o, 'v, 'x, 'p, 'r) Daemon) res" where
  "MustNew M E P order logger cfg =
     bind_res (mustCreateCaptiveCore M cfg) (\<lambda>core.
     bind_res (mustCreateHistoryArchive M cfg) (\<lambda>historyArchive.
     bind_res (mustOpenDatabase M cfg) (\<lambda>db.
     case mustInitializeStorage E P order (storage_settings cfg) \<lparr>ss_db = db, ss_tx = None\<rparr> of
       (Some err, _) \<Rightarrow> Inl err
     | (None, st) \<Rightarrow> start_services M logger cfg core historyArchive st)))"

subsection \<open>Shutdown\<close>

text \<open>What \<^verbatim>\<open>Daemon.close\<close> shuts down, in its order; \<open>shut\<close> is the error of a component, if any. The
  bridge and the workers report no error to the daemon.\<close>

definition daemon_parts :: "('o, 'v, 'x, 'p, 'r) Daemon \<Rightarrow> daemon_part list" where
  "daemon_parts d =
     [RpcServer] @ (if d_adminServer d \<noteq> None then [AdminServer] else []) @
     [IngestService, CaptiveCore, JsonRpcBridge, Database, PreflightWorkers] @
     (if d_dataStore d \<noteq> None then [DataStore] else [])"

definition close_errors :: "(daemon_part \<Rightarrow> go_error option) \<Rightarrow> daemon_part list \<Rightarrow> go_error list" where
  "close_errors shut parts =
     List.map_filter (\<lambda>p. if p \<in> {JsonRpcBridge, PreflightWorkers} then None else shut p) parts"

definition Daemon_close ::
  "(daemon_part \<Rightarrow> go_error option) \<Rightarrow> ('o, 'v, 'x, 'p, 'r) Daemon \<Rightarrow> ('o, 'v, 'x, 'p, 'r) Daemon" where
  "Daemon_close shut d =
     d\<lparr>d_closed := d_closed d @ daemon_parts d, d_closeError := close_errors shut (daemon_parts d), d_done := True\<rparr>"

definition Daemon_Close ::
  "(daemon_part \<Rightarrow> go_error option) \<Rightarrow> ('o, 'v, 'x, 'p, 'r) Daemon \<Rightarrow> go_error list \<times> ('o, 'v, 'x, 'p, 'r) Daemon" where
  "Daemon_Close shut d =
     (let d' = (if d_closeOnce d then d else Daemon_close shut (d\<lparr>d_closeOnce := True\<rparr>))
      in (d_closeError d', d'))"

text \<open>\<^verbatim>\<open>Run\<close> waits for a signal or for the end of the daemon; the servers run beside it.\<close>

datatype run_event = GotSignal | Done

definition Daemon_Run ::
  "(daemon_part \<Rightarrow> go_error option) \<Rightarrow> run_event \<Rightarrow> ('o, 'v, 'x, 'p, 'r) Daemon \<Rightarrow> ('o, 'v, 'x, 'p, 'r) Daemon" where
  "Daemon_Run shut ev d = (case ev of GotSignal \<Rightarrow> snd (Daemon_Close shut d) | Done \<Rightarrow> d)"

subsection \<open>The client of core\<close>

record core_metrics =
  cm_submitMetric :: "string list"
    \<comment> \<open>the status of each observation\<close>
  cm_opCountMetric :: "(string \<times> nat) list"

definition SubmitTransaction ::
  "(string \<Rightarrow> 'env res) \<Rightarrow> ('env \<Rightarrow> nat) \<Rightarrow> (string \<Rightarrow> TXResponse res) \<Rightarrow> (TXResponse \<Rightarrow> bool) \<Rightarrow> string \<Rightarrow>
   core_metrics \<Rightarrow> TXResponse res \<times> core_metrics" where
  "SubmitTransaction unmarshal operations submit isException envelopeBase64 c =
     (case unmarshal envelopeBase64 of
        Inl err \<Rightarrow> (Inl err, c)
      | Inr envelope \<Rightarrow>
          let response = submit envelopeBase64;
              status = (case response of
                          Inl _ \<Rightarrow> ''request_error''
                        | Inr r \<Rightarrow> if isException r then ''exception'' else txr_Status r)
          in (response, c\<lparr>cm_submitMetric := cm_submitMetric c @ [status],
                         cm_opCountMetric := cm_opCountMetric c @ [(status, operations envelope)]\<rparr>))"

subsection \<open>The commands\<close>

definition addFlags_or_exit ::
  "'x host \<Rightarrow> (config_key \<Rightarrow> string) \<Rightarrow> (config_key \<Rightarrow> 'x) \<Rightarrow> ('x ConfigOption list) res" where
  "addFlags_or_exit H usage zero = must ''could not parse config options'' (AddFlags (zero_Config zero) (options H usage))"

text \<open>The root command up to \<^verbatim>\<open>Run\<close>: an error is printed and ends the process.\<close>

definition rootCmd ::
  "'x host \<Rightarrow> (config_key \<Rightarrow> string) \<Rightarrow> (string \<rightharpoonup> string) \<Rightarrow> 'x flagset \<Rightarrow> (string \<Rightarrow> 'x toml_tree res) \<Rightarrow>
   (config_key \<Rightarrow> 'x) \<Rightarrow> ('o, 'v, 'x) machine \<Rightarrow> engine \<Rightarrow> 'v pkgs \<Rightarrow> table_kind list \<Rightarrow>
   (('o, 'v, 'x, 'p, 'r) Daemon) res" where
  "rootCmd H usage lookupEnv fl open_toml zero M E P order =
     bind_res (addFlags_or_exit H usage zero) (\<lambda>opts.
     bind_res (SetValues H lookupEnv fl open_toml opts (zero_Config zero)) (\<lambda>cfg.
     bind_res (Validate H usage cfg) (\<lambda>cfg'.
     MustNew M E P order (Some []) cfg')))"

definition genConfigFileCmd ::
  "'x host \<Rightarrow> (config_key \<Rightarrow> string) \<Rightarrow> (string \<rightharpoonup> string) \<Rightarrow> 'x flagset \<Rightarrow> (string \<Rightarrow> 'x toml_tree res) \<Rightarrow>
   (config_key \<Rightarrow> 'x) \<Rightarrow> ('x toml_entry list) res" where
  "genConfigFileCmd H usage lookupEnv fl open_toml zero =
     bind_res (addFlags_or_exit H usage zero) (\<lambda>opts.
     bind_res (SetValues H lookupEnv fl open_toml opts (zero_Config zero)) (\<lambda>cfg.
     MarshalTOML H opts cfg))"

text \<open>The lines of the version command; the values are set by the build.\<close>

definition versionCmd :: "string \<Rightarrow> string \<Rightarrow> string \<Rightarrow> string \<Rightarrow> string list" where
  "versionCmd Version CommitHash Branch xdrCommitHash =
     [if CommitHash = '''' then ''stellar-rpc dev''
      else ''stellar-rpc '' @ Version @ '' ('' @ CommitHash @ '') '' @ (if Branch = ''main'' then '''' else Branch),
      ''stellar-xdr '' @ xdrCommitHash]"

subsection \<open>A started daemon\<close>

lemma must_Inr_iff [simp]: "must message r = Inr a \<longleftrightarrow> r = Inr a"
  by (cases r) (simp_all add: must_def)

lemma rootCmd_daemon:
  assumes "rootCmd H usage lookupEnv fl open_toml zero M E P order = Inr d"
  obtains cfg cfg' where "config_typed cfg" and "Validate H usage cfg = Inr cfg'"
    and "MustNew M E P order (Some []) cfg' = Inr d"
proof -
  from assms obtain opts cfg cfg' where "AddFlags (zero_Config zero) (options H usage) = Inr opts"
    and "SetValues H lookupEnv fl open_toml opts (zero_Config zero) = Inr cfg"
    and "Validate H usage cfg = Inr cfg'" "MustNew M E P order (Some []) cfg' = Inr d"
    by (auto simp: rootCmd_def addFlags_or_exit_def bind_res_Inr_iff)
  then show thesis using SetValues_typed that by blast
qed

lemma Daemon_Close_idempotent:
  "Daemon_Close shut (snd (Daemon_Close shut' d)) = Daemon_Close shut' d"
  by (simp add: Daemon_Close_def Daemon_close_def Let_def)

lemma daemon_parts_distinct: "distinct (daemon_parts d)"
  by (simp add: daemon_parts_def)

text \<open>The stages a successful start has gone through, and what the daemon is made of.\<close>

lemma MustNew_stages:
  assumes "MustNew M E P order logger cfg = Inr d"
  obtains core arch tabs st where "strings_at cfg KHistoryArchiveURLs \<noteq> []"
    and "mustOpenDatabase M cfg = Inr (OpenSQLiteDB tabs)"
    and "mustInitializeStorage E P order (storage_settings cfg) \<lparr>ss_db = OpenSQLiteDB tabs, ss_tx = None\<rparr> = (None, st)"
    and "start_services M logger cfg core arch st = Inr d"
proof -
  let ?init = "\<lambda>db. mustInitializeStorage E P order (storage_settings cfg) \<lparr>ss_db = db, ss_tx = None\<rparr>"
  from assms obtain core arch db where parts: "mustCreateHistoryArchive M cfg = Inr arch" "mustOpenDatabase M cfg = Inr db"
    and rest: "(case ?init db of (Some err, _) \<Rightarrow> Inl err | (None, st) \<Rightarrow> start_services M logger cfg core arch st) = Inr d"
    by (auto simp: MustNew_def bind_res_Inr_iff)
  obtain e st where "?init db = (e, st)" by fastforce
  with rest have "?init db = (None, st)" "start_services M logger cfg core arch st = Inr d" by (cases e; simp)+
  note parts this
  moreover from parts(2) obtain tabs where "db = OpenSQLiteDB tabs"
    by (auto simp: mustOpenDatabase_def OpenSQLiteDBWithPrometheusMetrics_def split: sum.splits)
  moreover have "strings_at cfg KHistoryArchiveURLs \<noteq> []"
    using parts(1) by (auto simp: mustCreateHistoryArchive_def)
  ultimately show thesis using that by blast
qed

lemma started_parts:
  assumes "start_services M logger cfg core arch st = Inr d"
  shows "d_jsonRPCHandler d = NewJSONRPCHandler logger cfg" "d_preflightWorkerPool d = createPreflightWorkerPool cfg"
    "d_ingestService d = createIngestService cfg core (ms_fees st) arch" "d_db d = ms_session st"
    "d_dataStoreLedgerReader d = (if bool_at cfg KServeLedgersFromDatastore
      then Some (cfg KBufferedStorageBackendConfig, d_dataStore d) else None)"
    "d_dataStore d \<noteq> None \<longleftrightarrow> bool_at cfg KServeLedgersFromDatastore"
    "d_adminServer d \<noteq> None \<longleftrightarrow> string_at cfg KAdminEndpoint \<noteq> []"
    "d_closed d = []" "\<not> d_closeOnce d"
  using assms
  by (auto simp: start_services_def createJSONRPCHandler_def setupHTTPServers_def bind_res_Inr_iff Let_def split: if_splits)

lemma initialised_fee_windows:
  assumes "mustInitializeStorage E P order cfg s = (None, st)"
  shows "max (sc_ClassicFeeStatsLedgerRetentionWindow cfg) (sc_SorobanFeeStatsLedgerRetentionWindow cfg)
    \<le> sc_HistoryRetentionWindow cfg"
  using assms
  by (auto simp: mustInitializeStorage_def daemon_buildMigrations_def Let_def not_less split: prod.splits sum.splits if_splits)

lemma MustNew_facts:
  assumes "MustNew M E P order logger cfg = Inr d"
  shows "d_jsonRPCHandler d = NewJSONRPCHandler logger cfg" "d_preflightWorkerPool d = createPreflightWorkerPool cfg"
    "ic_DB (d_ingestService d) = \<lparr>rw_historyRetentionWindow = of_nat (uint_at cfg KHistoryRetentionWindow),
       rw_passphrase = string_at cfg KNetworkPassphrase\<rparr>"
    "max (of_nat (uint_at cfg KClassicFeeStatsLedgerRetentionWindow)) (of_nat (uint_at cfg KSorobanFeeStatsLedgerRetentionWindow))
       \<le> rw_historyRetentionWindow (ic_DB (d_ingestService d))"
    "d_dataStoreLedgerReader d \<noteq> None \<longleftrightarrow> d_dataStore d \<noteq> None" "d_closed d = []" "\<not> d_closeOnce d"
proof -
  obtain core arch tabs st where "strings_at cfg KHistoryArchiveURLs \<noteq> []"
    and "mustOpenDatabase M cfg = Inr (OpenSQLiteDB tabs)"
    and init: "mustInitializeStorage E P order (storage_settings cfg) \<lparr>ss_db = OpenSQLiteDB tabs, ss_tx = None\<rparr> = (None, st)"
    and start: "start_services M logger cfg core arch st = Inr d"
    by (rule MustNew_stages [OF assms])
  note parts = started_parts [OF start]
  show rw: "ic_DB (d_ingestService d) = \<lparr>rw_historyRetentionWindow = of_nat (uint_at cfg KHistoryRetentionWindow),
      rw_passphrase = string_at cfg KNetworkPassphrase\<rparr>"
    by (simp add: parts createIngestService_def NewReadWriter_def)
  show "max (of_nat (uint_at cfg KClassicFeeStatsLedgerRetentionWindow)) (of_nat (uint_at cfg KSorobanFeeStatsLedgerRetentionWindow))
      \<le> rw_historyRetentionWindow (ic_DB (d_ingestService d))"
    using initialised_fee_windows [OF init] by (simp add: rw storage_settings_def)
  show "d_dataStoreLedgerReader d \<noteq> None \<longleftrightarrow> d_dataStore d \<noteq> None" using parts(5,6) by simp
  show "d_jsonRPCHandler d = NewJSONRPCHandler logger cfg" "d_preflightWorkerPool d = createPreflightWorkerPool cfg"
    "d_closed d = []" "\<not> d_closeOnce d" by (rule parts)+
qed

text \<open>The state the ingestion service of the daemon starts in.\<close>

definition daemon_service :: "('o, 'v, 'x, 'p, 'r) Daemon \<Rightarrow> 'v Service" where
  "daemon_service d = \<lparr>sv_db = ss_db (d_db d), sv_feeWindows = ic_FeeWindows (d_ingestService d)\<rparr>"

lemma started_service:
  assumes "MustNew M E P order logger cfg = Inr d" and "toid_spec (pk_toid P)"
    and "mustOpenDatabase M cfg = Inr db" and "store_inv (db_tables db)"
    and "stored_fit (string_at cfg KNetworkPassphrase) (db_tables db)"
  shows "service_inv (Starting, daemon_service d)"
    and "ledger_close_meta (db_tables (sv_db (daemon_service d))) = ledger_close_meta (db_tables db)"
proof -
  obtain core arch tabs st where "strings_at cfg KHistoryArchiveURLs \<noteq> []"
    and tabs: "mustOpenDatabase M cfg = Inr (OpenSQLiteDB tabs)"
    and init: "mustInitializeStorage E P order (storage_settings cfg) \<lparr>ss_db = OpenSQLiteDB tabs, ss_tx = None\<rparr> = (None, st)"
    and start: "start_services M logger cfg core arch st = Inr d"
    by (rule MustNew_stages [OF assms(1)])
  have "daemon_service d = \<lparr>sv_db = ss_db (ms_session st), sv_feeWindows = ms_fees st\<rparr>"
    by (simp add: daemon_service_def started_parts [OF start] createIngestService_def)
  moreover have "db_tables db = tabs" using tabs assms(3) by (simp add: OpenSQLiteDB_def)
  moreover note initialised_store(1) [OF init, where fees = "ms_fees st"] initialised_store(2) [OF init]
  ultimately show "service_inv (Starting, daemon_service d)"
    "ledger_close_meta (db_tables (sv_db (daemon_service d))) = ledger_close_meta (db_tables db)"
    using assms(2,4,5) by (simp_all add: storage_settings_def del: service_inv.simps)
qed

text \<open>The limits of a started server.\<close>

lemma validated_positive:
  assumes "config_typed cfg" and "Validate H usage cfg = Inr cfg'" and "k \<in> set positive_keys"
  shows "0 < uint_at cfg' k"
  using validated_facts [OF assms(1,2)] assms(3) by (simp add: list_all_iff)

text \<open>A number of a validated configuration survives the conversion to the word of its field.\<close>

lemma validated_window:
  assumes "config_typed cfg" and "Validate H usage cfg = Inr cfg'"
    and "k \<in> {KHistoryRetentionWindow, KClassicFeeStatsLedgerRetentionWindow, KSorobanFeeStatsLedgerRetentionWindow}"
  shows "unat (of_nat (uint_at cfg' k) :: u32) = uint_at cfg' k"
proof -
  have "cfg' k = cfg k" using validated_facts [OF assms(1,2)] assms(3) by auto
  moreover have "field_type (cfg k) = (2, 32)" "in_range (cfg k)" using assms(1,3) by (auto simp: config_typed_def)
  ultimately have "uint_at cfg' k < 2 ^ 32" by (cases "cfg k") (auto simp: uint_at_def)
  then show ?thesis by (simp add: unat_of_nat take_bit_nat_eq_self)
qed

lemma validated_method:
  assumes "config_typed cfg" and "Validate H usage cfg = Inr cfg'" and "m \<in> set (rpc_handlers cfg')"
  shows "0 < rm_queueLimit m" and "page_sizes (rm_underlyingHandler m) = Some (mx, df) \<Longrightarrow> df \<le> mx"
  using rpc_handlers_queues [OF assms(3)] validated_positive [OF assms(1,2)]
    rpc_handlers_pages [OF assms(3), of mx df] validated_facts [OF assms(1,2)] by auto

lemma server_method:
  "m \<in> set (rpc_handlers cfg) \<Longrightarrow>
     rs_handlers (NewJSONRPCHandler logger cfg) (rm_methodName m) = Some (limit_method logger m)"
  by (simp add: NewJSONRPCHandler_def handlersMap_lookup [OF rpc_handlers_distinct])

lemma server_method_from:
  assumes "rs_handlers (NewJSONRPCHandler logger cfg) name = Some lm"
  obtains m where "m \<in> set (rpc_handlers cfg)" and "name = rm_methodName m" and "lm = limit_method logger m"
proof -
  have "name \<in> rm_methodName ` set (rpc_handlers cfg)"
    using assms handlersMap_other [of name "rpc_handlers cfg" logger Map.empty] by (force simp: NewJSONRPCHandler_def)
  then show thesis using that server_method assms by fastforce
qed

lemma Close_shuts_down:
  assumes "\<not> d_closeOnce d" and "d_closed d = []"
  shows "d_closed (snd (Daemon_Close shut' (snd (Daemon_Close shut d)))) = daemon_parts d"
  using assms by (simp add: Daemon_Close_idempotent) (simp add: Daemon_Close_def Daemon_close_def Let_def daemon_parts_def)

subsection \<open>An example start\<close>

definition example_machine :: "(string, int, string) machine" where
  "example_machine = \<lparr>mc_NewCaptiveCoreTomlFromFile = (\<lambda>path _. Inr path), mc_NewCaptive = (\<lambda>c. Inr (cp_BinaryPath c)),
     mc_NewArchivePool = (\<lambda>urls _. Inr (concat urls)), mc_Open = (\<lambda>_. Inr three_ledgers), mc_runSQLMigrations = Inr,
     mc_NewDataStore = (\<lambda>_. Inr ''store''), mc_Listen = Inr\<rparr>"

lemma example_storage:
  "fst (mustInitializeStorage calm_engine example_pkgs [TransactionsTable, EventsTable] (storage_settings example_fields)
     \<lparr>ss_db = OpenSQLiteDB three_ledgers, ss_tx = None\<rparr>) = None"
  by code_simp

lemma example_database: "mustOpenDatabase example_machine example_fields = Inr (OpenSQLiteDB three_ledgers)"
  by (simp add: mustOpenDatabase_def OpenSQLiteDBWithPrometheusMetrics_def openSQLiteDB_def example_machine_def must_def)

lemma example_daemon:
  obtains d :: "(string, int, string, 'p, 'r) Daemon"
  where "MustNew example_machine calm_engine example_pkgs [TransactionsTable, EventsTable] (Some []) example_fields = Inr d"
proof -
  have cfg: "strings_at example_fields KHistoryArchiveURLs = [''url'']" "\<not> bool_at example_fields KServeLedgersFromDatastore"
    by (simp_all add: strings_at_def bool_at_def example_fields_def)
  obtain st where st: "mustInitializeStorage calm_engine example_pkgs [TransactionsTable, EventsTable]
      (storage_settings example_fields) \<lparr>ss_db = OpenSQLiteDB three_ledgers, ss_tx = None\<rparr> = (None, st)"
    using example_storage by (metis prod.collapse)
  obtain l a where "setupHTTPServers example_machine example_fields = Inr (l, a)"
    by (cases "string_at example_fields KAdminEndpoint = []")
      (simp_all add: setupHTTPServers_def example_machine_def must_def bind_res_def)
  moreover obtain core where "mustCreateCaptiveCore example_machine example_fields = Inr core"
    by (simp add: mustCreateCaptiveCore_def newCaptiveCore_def example_machine_def must_def bind_res_def Let_def)
  moreover obtain arch where "mustCreateHistoryArchive example_machine example_fields = Inr arch"
    using cfg by (simp add: mustCreateHistoryArchive_def example_machine_def must_def)
  moreover note example_database
  moreover obtain d :: "(string, int, string, 'p, 'r) Daemon"
    where "start_services example_machine (Some []) example_fields core arch st = Inr d"
    using calculation(1) cfg by (auto simp: start_services_def createJSONRPCHandler_def bind_res_def)
  ultimately show thesis using st that [of d] by (simp add: MustNew_def bind_res_def)
qed

end
