(* ===== verification/Client.thy ===== *)
theory Client
  imports Prelude
begin

text \<open>
  \<^verbatim>\<open>client/main.go\<close>: a client shares one JSON-RPC connection among its callers and replaces it after
  an error. Calls hold the read lock while they use the connection, \<^verbatim>\<open>refreshClient\<close> holds the write
  lock while it closes the old connection and installs the new one. The client is a step relation
  over its callers; the JSON-RPC package and the network decide how a call ends.
\<close>

subsection \<open>The client\<close>

text \<open>A caller of \<^verbatim>\<open>callResult\<close>: before the call, in it with the connection it uses, about to refresh with
  the error of the call, waiting for the write lock with a connection of its own, and returned.\<close>

datatype caller_pc =
  CallStart | Calling nat | CallFailed go_error | Refreshing go_error nat | CallReturned "go_error option"

text \<open>Connections are numbered in the order of their creation.\<close>

record Client =
  cl_cli :: nat
  cl_next :: nat
  cl_closed :: "nat set"
  cl_callers :: "caller_pc list"

definition NewClient :: Client where
  "NewClient = \<lparr>cl_cli = 0, cl_next = 1, cl_closed = {}, cl_callers = []\<rparr>"

definition at_caller :: "Client \<Rightarrow> nat \<Rightarrow> caller_pc \<Rightarrow> bool" where
  "at_caller c i p \<longleftrightarrow> i < length (cl_callers c) \<and> cl_callers c ! i = p"

definition set_caller :: "nat \<Rightarrow> caller_pc \<Rightarrow> Client \<Rightarrow> Client" where
  "set_caller i p c = c\<lparr>cl_callers := (cl_callers c)[i := p]\<rparr>"

text \<open>The write lock is free when nobody holds the read lock.\<close>

definition no_readers :: "Client \<Rightarrow> bool" where
  "no_readers c \<longleftrightarrow> (\<forall>i n. \<not> at_caller c i (Calling n))"

text \<open>\<^verbatim>\<open>callResult\<close> and \<^verbatim>\<open>refreshClient\<close>\<close>

inductive call_step :: "Client \<Rightarrow> Client \<Rightarrow> bool" where
  arrive: "call_step c (c\<lparr>cl_callers := cl_callers c @ [CallStart]\<rparr>)"
| begin_call: "at_caller c i CallStart \<Longrightarrow> call_step c (set_caller i (Calling (cl_cli c)) c)"
| succeed: "at_caller c i (Calling n) \<Longrightarrow> call_step c (set_caller i (CallReturned None) c)"
| fail_call: "at_caller c i (Calling n) \<Longrightarrow> call_step c (set_caller i (CallFailed err) c)"
| dial: "at_caller c i (CallFailed err) \<Longrightarrow>
    call_step c (set_caller i (Refreshing err (cl_next c)) (c\<lparr>cl_next := Suc (cl_next c)\<rparr>))"
| swap: "at_caller c i (Refreshing err n) \<Longrightarrow> no_readers c \<Longrightarrow>
    call_step c (set_caller i (CallReturned (Some err)) (c\<lparr>cl_closed := insert (cl_cli c) (cl_closed c), cl_cli := n\<rparr>))"

text \<open>\<^verbatim>\<open>Close\<close> takes the read lock, so it can run beside calls.\<close>

inductive close_client :: "Client \<Rightarrow> Client \<Rightarrow> bool" where
  close: "close_client c (c\<lparr>cl_closed := insert (cl_cli c) (cl_closed c)\<rparr>)"

definition client_run :: "Client \<Rightarrow> bool" where
  "client_run c \<longleftrightarrow> call_step\<^sup>*\<^sup>* NewClient c"

subsection \<open>Calls run on an open connection\<close>

fun caller_ok :: "Client \<Rightarrow> caller_pc \<Rightarrow> bool" where
  "caller_ok c (Calling n) = (n = cl_cli c)"
| "caller_ok c (Refreshing _ n) = (n < cl_next c \<and> n \<notin> cl_closed c \<and> n \<noteq> cl_cli c)"
| "caller_ok c _ = True"

definition own_dials :: "Client \<Rightarrow> bool" where
  "own_dials c \<longleftrightarrow> (\<forall>i j e f n. at_caller c i (Refreshing e n) \<and> at_caller c j (Refreshing f n) \<longrightarrow> i = j)"

definition client_inv :: "Client \<Rightarrow> bool" where
  "client_inv c \<longleftrightarrow> cl_cli c \<notin> cl_closed c \<and> cl_cli c < cl_next c \<and> (\<forall>n \<in> cl_closed c. n < cl_next c) \<and>
     (\<forall>i p. at_caller c i p \<longrightarrow> caller_ok c p) \<and> own_dials c"

lemma at_caller_simps [simp]:
  "at_caller (set_caller i p c) j q \<longleftrightarrow> (if i = j then i < length (cl_callers c) \<and> p = q else at_caller c j q)"
  "at_caller (c\<lparr>cl_callers := cl_callers c @ [p]\<rparr>) j q \<longleftrightarrow> (if j = length (cl_callers c) then p = q else at_caller c j q)"
  "at_caller (c\<lparr>cl_next := n\<rparr>) j q = at_caller c j q"
  "at_caller (c\<lparr>cl_closed := s, cl_cli := n\<rparr>) j q = at_caller c j q"
  "at_caller (c\<lparr>cl_closed := s\<rparr>) j q = at_caller c j q"
  by (auto simp: at_caller_def set_caller_def nth_append)

lemma client_fields [simp]:
  "cl_cli (set_caller i p c) = cl_cli c" "cl_next (set_caller i p c) = cl_next c"
  "cl_closed (set_caller i p c) = cl_closed c"
  by (simp_all add: set_caller_def)

lemma caller_ok_fields [simp]:
  "caller_ok (set_caller i p c) q = caller_ok c q"
  "caller_ok (c\<lparr>cl_callers := ps\<rparr>) q = caller_ok c q"
  by (cases q; simp)+

lemma at_caller_is: "at_caller c i p \<Longrightarrow> at_caller c i q \<longleftrightarrow> p = q"
  by (auto simp: at_caller_def)

lemma at_caller_less: "at_caller c i p \<Longrightarrow> i < length (cl_callers c)"
  by (simp add: at_caller_def)

lemma plain_move_inv:
  assumes "client_inv c" and "at_caller c i p" and "caller_ok c q" and "\<And>e n. q \<noteq> Refreshing e n"
  shows "client_inv (set_caller i q c)"
  using assms by (auto simp: client_inv_def own_dials_def)

lemma client_invD:
  assumes "client_inv c"
  shows "cl_cli c \<notin> cl_closed c" "cl_cli c < cl_next c" "n \<in> cl_closed c \<Longrightarrow> n < cl_next c"
    "at_caller c i p \<Longrightarrow> caller_ok c p"
    "at_caller c i (Refreshing e n) \<Longrightarrow> at_caller c j (Refreshing f n) \<Longrightarrow> i = j"
  using assms unfolding client_inv_def own_dials_def by blast+

lemma call_step_inv:
  assumes "call_step c c'" and "client_inv c"
  shows "client_inv c'"
  using assms
proof (induction rule: call_step.induct)
  case (arrive c)
  then show ?case by (auto simp: client_inv_def own_dials_def)
next
  case (dial c i err)
  note inv = client_invD [OF dial(2)]
  let ?c = "c\<lparr>cl_next := Suc (cl_next c)\<rparr>"
  have "caller_ok ?c p" if "at_caller c j p" for j p using inv(4) [OF that] by (cases p) auto
  moreover have "caller_ok ?c (Refreshing err (cl_next c))" using inv(2,3) by force
  moreover have "own_dials (set_caller i (Refreshing err (cl_next c)) ?c)"
    using inv(4,5) unfolding own_dials_def by (fastforce split: if_splits)
  ultimately show ?case using inv(1-3) by (auto simp: client_inv_def less_Suc_eq)
next
  case (swap c i err n)
  note inv = client_invD [OF swap(3)]
  let ?c = "c\<lparr>cl_closed := insert (cl_cli c) (cl_closed c), cl_cli := n\<rparr>"
  have "caller_ok ?c p" if "at_caller c j p" "j \<noteq> i" for j p
    using inv(4) [OF that(1)] inv(5) [OF swap(1)] swap(2) that by (cases p) (auto simp: no_readers_def)
  moreover have "own_dials (set_caller i (CallReturned (Some err)) ?c)"
    using inv(5) unfolding own_dials_def by (fastforce split: if_splits)
  moreover have "n \<notin> cl_closed c" "n < cl_next c" "n \<noteq> cl_cli c" using inv(4) [OF swap(1)] by simp_all
  ultimately show ?case using inv(2,3) by (auto simp: client_inv_def)
qed (auto intro: plain_move_inv)

lemma client_run_inv: "client_run c \<Longrightarrow> client_inv c"
  unfolding client_run_def
proof (induction rule: rtranclp_induct)
  case base
  then show ?case by (auto simp: client_inv_def own_dials_def NewClient_def at_caller_def)
qed (rule call_step_inv)


definition failing_client :: Client where
  "failing_client = \<lparr>cl_cli = 0, cl_next = 2, cl_closed = {}, cl_callers = [Refreshing (Err ''timeout'') 1]\<rparr>"

lemma failing_client_run: "client_run failing_client"
proof -
  let ?c = "\<lambda>p n. \<lparr>cl_cli = 0, cl_next = n, cl_closed = {}, cl_callers = [p]\<rparr>"
  let ?e = "Err ''timeout''"
  have "call_step NewClient (?c CallStart 1)"
    using call_step.arrive [of NewClient] by (simp add: NewClient_def)
  moreover have "call_step (?c CallStart 1) (?c (Calling 0) 1)"
    using call_step.begin_call [of "?c CallStart 1" 0] by (simp add: at_caller_def set_caller_def)
  moreover have "call_step (?c (Calling 0) 1) (?c (CallFailed ?e) 1)"
    using call_step.fail_call [of "?c (Calling 0) 1" 0 0] by (simp add: at_caller_def set_caller_def)
  moreover have "call_step (?c (CallFailed ?e) 1) (?c (Refreshing ?e 1) 2)"
    using call_step.dial [of "?c (CallFailed ?e) 1" 0 ?e] by (simp add: at_caller_def set_caller_def eval_nat_numeral)
  ultimately show ?thesis unfolding client_run_def failing_client_def
    by (meson rtranclp.rtrancl_into_rtrancl rtranclp.rtrancl_refl)
qed


end
