(* ===== verification/ClientMethods.thy ===== *)
theory ClientMethods
  imports Server Client
begin

text \<open>
  The methods of \<^verbatim>\<open>client/main.go\<close>: each calls the server under the name of its method and returns the
  zero response with the error, or the decoded response. \<open>callResult\<close> is what a call under a name
  with parameters ends with; \<open>serve\<close> is the server of \<^verbatim>\<open>jsonrpc.go\<close> behind it, with a run of each
  handler as a parameter.
\<close>

subsection \<open>Client methods\<close>

type_synonym ('q, 'r) caller = "string \<Rightarrow> 'q option \<Rightarrow> 'r res"

definition response :: "'r \<Rightarrow> 'r res \<Rightarrow> 'r \<times> go_error option" where
  "response zero r = (case r of Inl err \<Rightarrow> (zero, Some err) | Inr result \<Rightarrow> (result, None))"

definition Client_GetEvents :: "('q, 'r) caller \<Rightarrow> 'r \<Rightarrow> 'q \<Rightarrow> 'r \<times> go_error option" where
  "Client_GetEvents callResult zero request = response zero (callResult GetEventsMethodName (Some request))"

definition Client_GetFeeStats :: "('q, 'r) caller \<Rightarrow> 'r \<Rightarrow> 'r \<times> go_error option" where
  "Client_GetFeeStats callResult zero = response zero (callResult GetFeeStatsMethodName None)"

definition Client_GetHealth :: "('q, 'r) caller \<Rightarrow> 'r \<Rightarrow> 'r \<times> go_error option" where
  "Client_GetHealth callResult zero = response zero (callResult GetHealthMethodName None)"

definition Client_GetLatestLedger :: "('q, 'r) caller \<Rightarrow> 'r \<Rightarrow> 'r \<times> go_error option" where
  "Client_GetLatestLedger callResult zero = response zero (callResult GetLatestLedgerMethodName None)"

definition Client_GetLedgerEntries :: "('q, 'r) caller \<Rightarrow> 'r \<Rightarrow> 'q \<Rightarrow> 'r \<times> go_error option" where
  "Client_GetLedgerEntries callResult zero request = response zero (callResult GetLedgerEntriesMethodName (Some request))"

definition Client_GetLedgers :: "('q, 'r) caller \<Rightarrow> 'r \<Rightarrow> 'q \<Rightarrow> 'r \<times> go_error option" where
  "Client_GetLedgers callResult zero request = response zero (callResult GetLedgersMethodName (Some request))"

text \<open>The request of \<^verbatim>\<open>getNetwork\<close> is the empty structure \<open>phony\<close>.\<close>

definition Client_GetNetwork :: "('q, 'r) caller \<Rightarrow> 'r \<Rightarrow> 'q \<Rightarrow> 'r \<times> go_error option" where
  "Client_GetNetwork callResult zero phony = response zero (callResult GetNetworkMethodName (Some phony))"

definition Client_GetTransaction :: "('q, 'r) caller \<Rightarrow> 'r \<Rightarrow> 'q \<Rightarrow> 'r \<times> go_error option" where
  "Client_GetTransaction callResult zero request = response zero (callResult GetTransactionMethodName (Some request))"

definition Client_GetTransactions :: "('q, 'r) caller \<Rightarrow> 'r \<Rightarrow> 'q \<Rightarrow> 'r \<times> go_error option" where
  "Client_GetTransactions callResult zero request = response zero (callResult GetTransactionsMethodName (Some request))"

definition Client_GetVersionInfo :: "('q, 'r) caller \<Rightarrow> 'r \<Rightarrow> 'r \<times> go_error option" where
  "Client_GetVersionInfo callResult zero = response zero (callResult GetVersionInfoMethodName None)"

definition Client_SendTransaction :: "('q, 'r) caller \<Rightarrow> 'r \<Rightarrow> 'q \<Rightarrow> 'r \<times> go_error option" where
  "Client_SendTransaction callResult zero request = response zero (callResult SendTransactionMethodName (Some request))"

definition Client_SimulateTransaction :: "('q, 'r) caller \<Rightarrow> 'r \<Rightarrow> 'q \<Rightarrow> 'r \<times> go_error option" where
  "Client_SimulateTransaction callResult zero request = response zero (callResult SimulateTransactionMethodName (Some request))"

lemmas client_method_defs = Client_GetEvents_def Client_GetFeeStats_def Client_GetHealth_def Client_GetLatestLedger_def
  Client_GetLedgerEntries_def Client_GetLedgers_def Client_GetNetwork_def Client_GetTransaction_def
  Client_GetTransactions_def Client_GetVersionInfo_def Client_SendTransaction_def Client_SimulateTransaction_def

subsection \<open>Client and server\<close>

text \<open>A connection to a server that runs the handler registered under the name of the call; the
  JSON-RPC package refuses a name without a handler.\<close>

definition serve :: "(rpc_handler \<Rightarrow> 'q option \<Rightarrow> 'r res) \<Rightarrow> rpc_server \<Rightarrow> ('q, 'r) caller" where
  "serve run_handler srv name request =
     (case rs_handlers srv name of
        None \<Rightarrow> Inl (Err ''method not found'')
      | Some m \<Rightarrow> run_handler (lm_handler m) request)"

lemma serve_handlers:
  "list_all (\<lambda>m. serve run_handler (NewJSONRPCHandler logger cfg) (rm_methodName m) = run_handler (rm_underlyingHandler m))
     (rpc_handlers cfg)"
  by (auto simp: list_all_iff serve_def NewJSONRPCHandler_def limit_method_def fun_eq_iff
      handlersMap_lookup [OF rpc_handlers_distinct])

lemmas serve_names = serve_handlers [unfolded rpc_handlers_def rpc_entry_def list.pred_inject rpc_method.simps]


end
