(* ===== verification/Spec2Isabelle.thy ===== *)
theory Spec2Isabelle
  imports Cursors FeeWindow Migrations LedgersMethod EventsMethod TransactionsMethod LedgerEntriesMethod
    DurationLimiter SendTransaction PreflightPool ConfigProps Daemon ClientMethods
begin

text \<open>
  A verification library for stellar-rpc, the JSON-RPC server of the Stellar network.

  \<^bold>\<open>The program.\<close> An ingestion service follows the network through captive core and writes each closed
  ledger, its transactions and its events into a SQLite database that keeps a window of recent
  ledgers; two in-memory fee windows follow the same ledgers. A JSON-RPC server answers queries from
  the database, from a datastore of old ledgers, from the fee windows and from captive core, submits
  transactions, and simulates them in a pool of preflight workers around a Rust library. Limiters
  bound the requests in flight and their duration. A daemon is assembled from a configuration that
  is read from defaults, environment, command line and a file. A Go client calls the server.

  \<^bold>\<open>Conventions.\<close> A Go structure is a record, an enumeration or a set of closures a datatype, a machine
  integer a word (\<open>u32\<close>, \<open>u64\<close>, \<open>i64\<close>) where it can wrap and a number where it is only compared. A Go error
  is \<open>Err\<close> with its text and a panic is \<open>Panic\<close>; a fallible function returns the sum \<open>'a res\<close>. An operation on
  shared state takes the state and returns it. A loop that may not end is a \<open>partial_function\<close> into an
  option. Goroutines are step relations over a shared record and program counters, so that a theorem
  about reachable states covers every interleaving. Code outside the repository is a parameter: a
  record of its functions (\<open>engine\<close> for the SQL engine and its faults, \<open>pkgs\<close> for the identifiers, key texts and XDR
  codecs, \<open>network\<close> for archive and ledger backend, \<open>host\<close> and \<open>machine\<close> for the packages and the system the
  configuration and the start use), with its documented behaviour as a named predicate such as
  \<open>toid_spec\<close>, \<open>no_faults\<close> or \<open>sorts\<close>, which a concrete instance satisfies in the witnesses.

  \<^bold>\<open>The theories\<close>, from the bottom up, with the files under \<^verbatim>\<open>src/\<close> they model:

  \<^item> \<^verbatim>\<open>Prelude\<close>: errors, results, loops that return early, byte strings and words, shared by all.
  \<^item> \<^verbatim>\<open>GoLib\<close>: the decimal printing and parsing of Go's library, with their round trips and orders.
  \<^item> \<^verbatim>\<open>Cursors\<close> (\<^verbatim>\<open>protocol/cursor.go\<close>): event cursors; the text order of printed cursors is the cursor order.
  \<^item> \<^verbatim>\<open>LedgerBuckets\<close> (\<^verbatim>\<open>ledgerbucketwindow.go\<close>): the circular buffer, refined to the list of its last buckets.
  \<^item> \<^verbatim>\<open>Protocol\<close> (\<^verbatim>\<open>protocol/*.go\<close>): validation of requests, formats, the JSON forms of cursors and change types.
  \<^item> \<^verbatim>\<open>LedgerMeta\<close>: ledgers, transactions and events as the XDR and ingest packages present them.
  \<^item> \<^verbatim>\<open>EventFilters\<close> (\<^verbatim>\<open>protocol/get_events.go\<close>): filters, their JSON and validation; matching equals a declarative
    reading of the filters.
  \<^item> \<^verbatim>\<open>FeeWindow\<close> (\<^verbatim>\<open>feewindow.go\<close>): fee distributions and windows; percentiles and mode are those of the fees in
    the window, both windows stay in step.
  \<^item> \<^verbatim>\<open>SqlTables\<close>, \<^verbatim>\<open>Store\<close>, \<^verbatim>\<open>StoreLaws\<close>, \<^verbatim>\<open>StoreProps\<close> (\<^verbatim>\<open>db/ledger.go\<close>, \<^verbatim>\<open>db/transaction.go\<close>, \<^verbatim>\<open>db/event.go\<close>): tables with
    unique keys, the SQL statements on them, what each keeps, and the round trips of transactions
    and events through the store.
  \<^item> \<^verbatim>\<open>TransactionalCache\<close> (\<^verbatim>\<open>db/transactionalcache.go\<close>): a committed transaction equals its writes in order.
  \<^item> \<^verbatim>\<open>StoreTx\<close> (\<^verbatim>\<open>db/db.go\<close>): read and write transactions with the cache of the latest ledger; commits are atomic
    and keep the window, readers see a consistent range in every interleaving.
  \<^item> \<^verbatim>\<open>Migrations\<close>, \<^verbatim>\<open>Startup\<close> (\<^verbatim>\<open>db/migration.go\<close>, \<^verbatim>\<open>daemon/daemon.go\<close>): data migrations are all or nothing and run once;
    the start keeps the invariant of the store whatever fails.
  \<^item> \<^verbatim>\<open>Ingest\<close> (\<^verbatim>\<open>ingest/service.go\<close>): the service as a step relation with retries; no gap is ever stored, the
    next ledger is stored when the network supplies it.
  \<^item> \<^verbatim>\<open>Handlers\<close>, \<^verbatim>\<open>LedgersMethod\<close>, \<^verbatim>\<open>EventsMethod\<close>, \<^verbatim>\<open>TransactionsMethod\<close>, \<^verbatim>\<open>LedgerEntriesMethod\<close>, \<^verbatim>\<open>SendTransaction\<close>,
    \<^verbatim>\<open>SimulateTransaction\<close> (\<^verbatim>\<open>methods/*.go\<close>, \<^verbatim>\<open>rpcdatastore\<close>, \<^verbatim>\<open>ledgerentries\<close>, \<^verbatim>\<open>xdr2json\<close>, \<^verbatim>\<open>preflight/preflight.go\<close>): every
    method; pages join without loss, answers are exact against the store, and the cases in which
    the code does not do so are theorems of their own.
  \<^item> \<^verbatim>\<open>Limiters\<close>, \<^verbatim>\<open>DurationLimiter\<close> (\<^verbatim>\<open>network/*.go\<close>): bounds on the requests in flight under every interleaving;
    a request that ends in time is answered as if there were no limiter.
  \<^item> \<^verbatim>\<open>PreflightPool\<close> (\<^verbatim>\<open>preflight/pool.go\<close>): callers, workers and the shutdown of the pool; every accepted request
    is answered once, with its own result.
  \<^item> \<^verbatim>\<open>ConfigParse\<close>, \<^verbatim>\<open>ConfigOptions\<close>, \<^verbatim>\<open>ConfigTable\<close>, \<^verbatim>\<open>ConfigProps\<close> (\<^verbatim>\<open>config/*.go\<close>): the options table, loading,
    validation and the generated file; the precedence of the sources and what validation ensures.
  \<^item> \<^verbatim>\<open>Server\<close>, \<^verbatim>\<open>Client\<close>, \<^verbatim>\<open>ClientMethods\<close> (\<^verbatim>\<open>jsonrpc.go\<close>, \<^verbatim>\<open>client/main.go\<close>): the table of methods with their limits,
    and the client that calls them over a shared connection.
  \<^item> \<^verbatim>\<open>PanicGroup\<close>, \<^verbatim>\<open>Daemon\<close> (\<^verbatim>\<open>util/panicgroup.go\<close>, \<^verbatim>\<open>daemon/*.go\<close>, \<^verbatim>\<open>main.go\<close>): the commands, the start and the shutdown.
  \<^item> this theory: properties of the assembled program, from the validated configuration to the
    behaviour of the running parts.

  \<^bold>\<open>Interfaces.\<close> \<open>keyed_table\<close> (lookup after insert and delete) is interpreted on the tables, \<open>retained\<close> (trimming to
  a window) on the ledger, transaction and event tables, \<open>bucket_window\<close> on the circular buffer, \<open>counted\<close> (a
  shared counter equals the number of requests that hold it) on the backlog counter and its gauge,
  \<open>ledger_entry_getter\<close> on the getter over captive core, \<open>value_source\<close> on defaults, environment, file and flags,
  and \<open>storage_invariant\<close> (what the migrations keep of the tables) on the invariant of the store.

  \<^bold>\<open>Bounds and fuel.\<close> \<open>run\<close> of the ingestion service takes the number of ledgers to follow; the step relation
  has no such bound. The datastore loop and the duration parser need no fuel: the one is a partial
  function whose end is proved, the other decreases its input. Ledger numbers below $2^{31}$ and
  transaction indexes below $2^{20}$ are the range of the identifiers of the \<^verbatim>\<open>toid\<close> package.

  \<^bold>\<open>Not modelled.\<close> Metrics other than the counters that the code's behaviour or its documentation rests on,
  the texts and levels of most log lines, timers as real time (a timer is the event that it fires),
  profiling pages, CORS and the JSON-RPC bridge, which belong to packages; the memory management
  at the border to the Rust libraries, where a copied buffer is the buffer; the field names of JSON
  objects, which are struct tags; interface declarations, mocks, the no-op daemon and the test
  infrastructure.
\<close>

section \<open>The assembled program\<close>



text \<open>C1: A started daemon never leaves a gap. When the configuration is valid and the database file
  holds consecutive, indexed ledgers, then after the start with its migrations and after any
  sequence of ingested ledgers, failures and retries of its ingestion service the store still
  holds consecutive ledgers, every index entry points at a stored one, the cached latest ledger
  is the newest one, and the service asks next for the one after it. The start itself keeps
  the ledgers of the file.\<close>

theorem started_ingestion_gap_free:
  assumes "config_typed cfg" and "Validate H usage cfg = Inr cfg'" and "MustNew M E P order logger cfg' = Inr d"
    and "toid_spec (pk_toid P)" and "mustOpenDatabase M cfg' = Inr db" and "store_inv (db_tables db)"
    and "stored_fit (string_at cfg' KNetworkPassphrase) (db_tables db)"
    and "(service_step P (ic_DB (d_ingestService d)))\<^sup>*\<^sup>* (Starting, daemon_service d) (ph, s)"
  shows "ledger_close_meta (db_tables (sv_db (daemon_service d))) = ledger_close_meta (db_tables db) \<and>
    gap_free (db_tables (sv_db s)) \<and> index_ok (db_tables (sv_db s)) \<and>
    coherent (db_tables (sv_db s)) (dc_latestLedgerSeq (db_cache (sv_db s))) (dc_latestLedgerCloseTime (db_cache (sv_db s))) \<and>
    (case ph of Starting \<Rightarrow> True | Following n \<Rightarrow> expects (db_tables (sv_db s)) n)"
proof -
  have "0 < uint_at cfg' KHistoryRetentionWindow"
    using validated_positive [OF assms(1,2)] by (simp add: positive_keys_def)
  then have "0 < rw_historyRetentionWindow (ic_DB (d_ingestService d))"
    using validated_window [OF assms(1,2), of KHistoryRetentionWindow]
    by (simp add: MustNew_facts(3) [OF assms(3)] word_less_nat_alt)
  from service_reachable_inv [OF assms(8) started_service(1) [OF assms(3-7)] assms(4) this]
  have "service_inv (ph, s)" .
  then show ?thesis using started_service(2) [OF assms(3-7)] by (simp add: store_inv_def db_ok_def)
qed

theorem started_ingestion_gap_free_witness:
  "\<exists>(d :: (string, int, string, unit, unit) Daemon) s.
     MustNew example_machine calm_engine example_pkgs [TransactionsTable, EventsTable] (Some []) example_fields = Inr d \<and>
     (service_step example_pkgs (ic_DB (d_ingestService d)))\<^sup>*\<^sup>* (Starting, daemon_service d) (Following 8, s) \<and>
     gap_free (db_tables (sv_db s)) \<and> expects (db_tables (sv_db s)) 8"
proof -
  obtain d :: "(string, int, string, unit, unit) Daemon" where
    d: "MustNew example_machine calm_engine example_pkgs [TransactionsTable, EventsTable] (Some []) example_fields = Inr d"
    by (rule example_daemon)
  have db: "db_tables (OpenSQLiteDB three_ledgers) = three_ledgers" by (simp add: OpenSQLiteDB_def)
  have T: "toid_spec (pk_toid example_pkgs)" by (simp add: toid_layout_spec)
  have fit: "stored_fit p three_ledgers" for p
    by (simp add: stored_fit_def three_ledgers_def example_ledger_def ledger_fits_def)
  note start = started_service [OF d T example_database]
  have inv: "service_inv (Starting, daemon_service d)"
    and led: "ledger_close_meta (db_tables (sv_db (daemon_service d))) = ledger_close_meta three_ledgers"
    using start three_ledgers_inv fit by (simp_all add: db del: service_inv.simps)
  have led': "ledger_close_meta (db_tables (sv_db (daemon_service d))) \<noteq> []"
    "fst (last (ledger_close_meta (db_tables (sv_db (daemon_service d))))) + 1 = 8"
    by (simp_all add: led three_ledgers_def)
  have ok: "db_ok (sv_db (daemon_service d))" using inv by simp
  obtain s where "getNextLedgerSequence calm_engine example_network (daemon_service d) = (Inr 8, s)"
    using getNextLedgerSequence_resumes [OF calm_engine_no_faults ok led'(1), of example_network] led'(2)
    by (auto simp: example_network_def)
  then have run: "(service_step example_pkgs (ic_DB (d_ingestService d)))\<^sup>*\<^sup>* (Starting, daemon_service d) (Following 8, s)"
    by (intro r_into_rtranclp service_step.start)
  from started_ingestion_gap_free [OF example_fields_ok d T example_database _ _ run] d run three_ledgers_inv fit
  show ?thesis by (auto simp: db)
qed

text \<open>C17: No started server takes on more than it is configured for. In every interleaving of fewer
  than $2^{64}$ requests for a method the server knows, at most the configured number of them
  runs at once, and that number is positive.\<close>

theorem started_server_bounded:
  assumes "config_typed cfg" and "Validate H usage cfg = Inr cfg'" and "MustNew M E P order logger cfg' = Inr d"
    and "rs_handlers (d_jsonRPCHandler d) name = Some lm"
    and "interleaved (Handle_step name) Called (lm_queueLimiter lm) q ps" and "length ps < 2 ^ 64"
  shows "\<exists>m \<in> set (rpc_handlers cfg'). rm_methodName m = name \<and> lm_handler lm = rm_underlyingHandler m \<and>
    0 < rm_queueLimit m \<and> how_many admitted ps \<le> rm_queueLimit m"
proof -
  obtain m where m: "m \<in> set (rpc_handlers cfg')" "name = rm_methodName m" "lm = limit_method logger m"
    using assms(4) unfolding MustNew_facts(1) [OF assms(3)] by (rule server_method_from)
  with limited_method_bounded [of name logger m q ps] assms(5,6) validated_method(1) [OF assms(1,2)] show ?thesis
    by (auto simp: limit_method_def)
qed

text \<open>With a limit of one, as in the example configuration, the second of two requests is refused while
  the first executes.\<close>

lemma example_health_method:
  "\<exists>m \<in> set (rpc_handlers example_fields). rm_methodName m = ''getHealth'' \<and> rm_queueLimit m = 1"
  by (simp add: rpc_handlers_def rpc_entry_def GetHealthMethodName_def uint_at_def example_fields_def)

lemma example_busy_run:
  "\<exists>q ps. interleaved (Handle_step ''getHealth'') Called (MakeBacklogQueueLimiter (Some 0) 1 (Some [])) q ps \<and>
     Busy \<in> set ps \<and> length (ps :: string res request_pc list) = 2"
proof -
  let ?init = "MakeBacklogQueueLimiter (Some 0) 1 (Some [])" and ?ps = "[Answered (Inr ''a''), Busy] :: string res request_pc list"
  have "map_option snd (schedule (Handle_step ''getHealth'') Called busy_schedule (?init, [])) = Some ?ps"
    by code_simp
  then obtain q where "schedule (Handle_step ''getHealth'') Called busy_schedule (?init, []) = Some (q, ?ps)" by auto
  from schedule_interleaved [OF this interleaved.initial] show ?thesis by (intro exI conjI) auto
qed

theorem started_server_bounded_witness:
  "\<exists>q ps. interleaved (Handle_step ''getHealth'') Called (MakeBacklogQueueLimiter (Some 0) 1 (Some [])) q ps \<and>
     Busy \<in> set ps \<and> (\<exists>m \<in> set (rpc_handlers example_fields). rm_methodName m = ''getHealth'' \<and>
     how_many admitted (ps :: string res request_pc list) \<le> rm_queueLimit m)"
proof -
  obtain d :: "(string, int, string, unit, unit) Daemon" where
    d: "MustNew example_machine calm_engine example_pkgs [TransactionsTable, EventsTable] (Some []) example_fields = Inr d"
    by (rule example_daemon)
  obtain m where m: "m \<in> set (rpc_handlers example_fields)" "rm_methodName m = ''getHealth''" "rm_queueLimit m = 1"
    using example_health_method by blast
  obtain q and ps :: "string res request_pc list" where
    run: "interleaved (Handle_step ''getHealth'') Called (MakeBacklogQueueLimiter (Some 0) 1 (Some [])) q ps" "Busy \<in> set ps"
    "length ps = 2" using example_busy_run by blast
  have "rs_handlers (d_jsonRPCHandler d) ''getHealth'' = Some (limit_method (Some []) m)"
    using server_method [OF m(1)] m(2) by (simp add: MustNew_facts [OF d])
  moreover have "lm_queueLimiter (limit_method (Some []) m) = MakeBacklogQueueLimiter (Some 0) 1 (Some [])"
    by (simp add: limit_method_def m(3))
  ultimately show ?thesis
    using started_server_bounded [OF example_fields_ok d, of "''getHealth''" _ q ps] run by auto
qed

text \<open>C18: A started daemon answers its simulations. In every interleaving of callers, workers and a
  shutdown, the workers of the configured pool run dry after a number of steps bounded by the
  configuration, and then every caller whose request was accepted has the result of its own
  parameters.\<close>

theorem started_pool_answers:
  assumes "config_typed cfg" and "Validate H usage cfg = Inr cfg'" and "MustNew M E P order logger cfg' = Inr d"
    and "(pool_step work)\<^sup>*\<^sup>* (d_preflightWorkerPool d) s" and "(worker_step work ^^ k) s s'"
  shows "k \<le> 4 * uint_at cfg' KPreflightWorkerQueueSize + 3 * uint_at cfg' KPreflightWorkerCount \<and>
    ((\<forall>t. \<not> worker_step work s' t) \<and> at_client s i GetWaiting \<longrightarrow> at_client s' i (GetAnswered (work (wp_params s ! i))))"
proof -
  have "d_preflightWorkerPool d =
      NewPreflightWorkerPool (uint_at cfg' KPreflightWorkerCount) (uint_at cfg' KPreflightWorkerQueueSize)"
    by (simp add: MustNew_facts [OF assms(3)] createPreflightWorkerPool_def)
  moreover have "0 < uint_at cfg' KPreflightWorkerCount"
    using validated_positive [OF assms(1,2)] by (simp add: positive_keys_def)
  ultimately show ?thesis using preflight_pool_answers [OF _ _ assms(5)] assms(4) by simp
qed

theorem started_pool_answers_witness:
  "\<exists>(d :: (string, int, string, Parameters, Preflight res) Daemon) s s'.
     MustNew example_machine calm_engine example_pkgs [TransactionsTable, EventsTable] (Some []) example_fields = Inr d \<and>
     (pool_step (GetPreflight example_lib 0))\<^sup>*\<^sup>* (d_preflightWorkerPool d) s \<and> at_client s 0 GetWaiting \<and>
     (worker_step (GetPreflight example_lib 0) ^^ 3) s s' \<and> at_client s' 0 (GetAnswered (GetPreflight example_lib 0 example_params))"
proof -
  obtain d :: "(string, int, string, Parameters, Preflight res) Daemon" where
    d: "MustNew example_machine calm_engine example_pkgs [TransactionsTable, EventsTable] (Some []) example_fields = Inr d"
    by (rule example_daemon)
  have "d_preflightWorkerPool d = NewPreflightWorkerPool 1 1"
    by (simp add: MustNew_facts [OF d] createPreflightWorkerPool_def uint_at_def example_fields_def)
  with one_call_queued have reach: "(pool_step (GetPreflight example_lib 0))\<^sup>*\<^sup>* (d_preflightWorkerPool d)
      (one_call False GetWaiting [(0, example_params)] WIdle)" by metis
  let ?s = "one_call False GetWaiting [(0, example_params)] WIdle :: (Parameters, Preflight res) WorkerPool"
  let ?s' = "one_call False (GetAnswered (GetPreflight example_lib 0 example_params)) [] WIdle"
  have "\<not> worker_step (GetPreflight example_lib 0) ?s' t" for t
    by (auto simp: one_call_def at_worker_def elim!: worker_step.cases)
  moreover have waits: "at_client ?s 0 GetWaiting"
    by (simp add: one_call_def at_client_def)
  ultimately have "at_client ?s' 0 (GetAnswered (GetPreflight example_lib 0 example_params))"
    using started_pool_answers [OF example_fields_ok d reach one_call_answered, of 0] by (simp add: one_call_def)
  with d reach waits one_call_answered show ?thesis by blast
qed

end
